(* ===== verification/Prelude.thy ===== *)
theory Prelude
  imports Main "HOL-Library.Word" "HOL-Library.Multiset"
begin

text \<open>
  Shared vocabulary of the development: the types that Go values are modelled by, the parts of
  the Go standard library (packages \<open>strings\<close>, \<open>strconv\<close>, \<open>encoding/hex\<close>,
  \<open>encoding/binary\<close>) that the program calls, and the lemmas about them that the component
  theories share.

  A Go \<open>string\<close> is a sequence of bytes, and so is HOL's \<open>char list\<close>; a \<open>[]byte\<close> is an
  \<open>8 word list\<close>, and the conversions \<open>[]byte(s)\<close> and \<open>string(b)\<close> are \<open>bytes_of\<close> and
  \<open>string_of\<close>.  Instants and durations are integers (nanoseconds).  A Go pair
  \<open>(T, error)\<close> is a sum \<open>error + T\<close> with \<open>Inl\<close> for the error.
\<close>

unbundle bit_operations_syntax

named_theorems go_strings \<open>unfolding rules of the string functions\<close>
named_theorems go_time \<open>durations as numbers of nanoseconds\<close>

type_synonym byte = "8 word"
type_synonym bytes = "byte list"
type_synonym go_time = int
type_synonym go_duration = int

section \<open>Bytes and strings\<close>

definition byte_of :: "char \<Rightarrow> byte" where
  "byte_of c = word_of_nat (of_char c)"

definition char_of_byte :: "byte \<Rightarrow> char" where
  "char_of_byte b = char_of (unat b)"

definition bytes_of :: "string \<Rightarrow> bytes" where
  "bytes_of s = map byte_of s"

definition string_of :: "bytes \<Rightarrow> string" where
  "string_of bs = map char_of_byte bs"

section \<open>Package strings\<close>

definition hasPrefix :: "string \<Rightarrow> string \<Rightarrow> bool" where
  "hasPrefix s p \<longleftrightarrow> take (length p) s = p"

definition hasSuffix :: "string \<Rightarrow> string \<Rightarrow> bool" where
  "hasSuffix s p \<longleftrightarrow> length p \<le> length s \<and> drop (length s - length p) s = p"

definition cutPrefix :: "string \<Rightarrow> string \<Rightarrow> string option" where
  "cutPrefix s p = (if hasPrefix s p then Some (drop (length p) s) else None)"

definition trimPrefix :: "string \<Rightarrow> string \<Rightarrow> string" where
  "trimPrefix s p = (if hasPrefix s p then drop (length p) s else s)"

definition trimSuffix :: "string \<Rightarrow> string \<Rightarrow> string" where
  "trimSuffix s p = (if hasSuffix s p then take (length s - length p) s else s)"

text \<open>\<open>strings.Cut\<close>: the text before and after the first occurrence of the separator.\<close>

fun cutAt :: "string \<Rightarrow> string \<Rightarrow> (string \<times> string) option" where
  "cutAt sep [] = (if sep = [] then Some ([], []) else None)"
| "cutAt sep (c # cs) =
     (if hasPrefix (c # cs) sep then Some ([], drop (length sep) (c # cs))
      else map_option (\<lambda>(a, b). (c # a, b)) (cutAt sep cs))"

definition contains :: "string \<Rightarrow> string \<Rightarrow> bool" where
  "contains s sub \<longleftrightarrow> cutAt sub s \<noteq> None"

text \<open>\<open>strings.Split\<close> with a separator of one byte, and \<open>strings.Join\<close>.\<close>

fun splitOn :: "char \<Rightarrow> string \<Rightarrow> string list" where
  "splitOn sep [] = [[]]"
| "splitOn sep (c # cs) =
     (if c = sep then [] # splitOn sep cs
      else (case splitOn sep cs of [] \<Rightarrow> [[c]] | w # ws \<Rightarrow> (c # w) # ws))"

fun join :: "string \<Rightarrow> string list \<Rightarrow> string" where
  "join sep [] = []"
| "join sep [x] = x"
| "join sep (x # y # zs) = x @ sep @ join sep (y # zs)"

text \<open>
  \<open>strings.TrimSpace\<close> removes leading and trailing code points with Unicode's White_Space
  property.  A code point is found at either end of a byte string exactly when its UTF-8
  encoding stands there, so trimming is removal of these encodings.
\<close>

definition space_encodings :: "string list" where
  "space_encodings =
     [[CHR 0x09], [CHR 0x0A], [CHR 0x0B], [CHR 0x0C], [CHR 0x0D], [CHR 0x20],
      [CHR 0xC2, CHR 0x85], [CHR 0xC2, CHR 0xA0], [CHR 0xE1, CHR 0x9A, CHR 0x80],
      [CHR 0xE2, CHR 0x80, CHR 0x80], [CHR 0xE2, CHR 0x80, CHR 0x81],
      [CHR 0xE2, CHR 0x80, CHR 0x82], [CHR 0xE2, CHR 0x80, CHR 0x83],
      [CHR 0xE2, CHR 0x80, CHR 0x84], [CHR 0xE2, CHR 0x80, CHR 0x85],
      [CHR 0xE2, CHR 0x80, CHR 0x86], [CHR 0xE2, CHR 0x80, CHR 0x87],
      [CHR 0xE2, CHR 0x80, CHR 0x88], [CHR 0xE2, CHR 0x80, CHR 0x89],
      [CHR 0xE2, CHR 0x80, CHR 0x8A], [CHR 0xE2, CHR 0x80, CHR 0xA8],
      [CHR 0xE2, CHR 0x80, CHR 0xA9], [CHR 0xE2, CHR 0x80, CHR 0xAF],
      [CHR 0xE2, CHR 0x81, CHR 0x9F], [CHR 0xE3, CHR 0x80, CHR 0x80]]"

definition leadLen :: "string list \<Rightarrow> string \<Rightarrow> nat" where
  "leadLen encs s = (case find (hasPrefix s) encs of None \<Rightarrow> 0 | Some e \<Rightarrow> length e)"

function trimLead :: "string list \<Rightarrow> string \<Rightarrow> string" where
  "trimLead encs s =
     (if s = [] \<or> leadLen encs s = 0 then s else trimLead encs (drop (leadLen encs s) s))"
  by pat_completeness auto
termination
  by (relation "measure (\<lambda>(encs, s). length s)") auto

declare trimLead.simps [simp del]

definition trimSpace :: "string \<Rightarrow> string" where
  "trimSpace s = rev (trimLead (map rev space_encodings) (rev (trimLead space_encodings s)))"

text \<open>
  \<open>strings.ToLower\<close>: byte by byte on ASCII strings.  The Unicode case table, used on strings
  with a byte outside ASCII, is the parameter \<open>ul\<close>.
\<close>

definition isAscii :: "string \<Rightarrow> bool" where
  "isAscii s \<longleftrightarrow> list_all (\<lambda>c. (of_char c :: nat) < 128) s"

definition lowerChar :: "char \<Rightarrow> char" where
  "lowerChar c = (if 65 \<le> (of_char c :: nat) \<and> (of_char c :: nat) \<le> 90
     then char_of ((of_char c :: nat) + 32) else c)"

definition toLower :: "(string \<Rightarrow> string) \<Rightarrow> string \<Rightarrow> string" where
  "toLower ul s = (if isAscii s then map lowerChar s else ul s)"

text \<open>\<open>strconv.Itoa\<close> and the verb \<open>%d\<close>.\<close>

fun showNat :: "nat \<Rightarrow> string" where
  "showNat n = (if n < 10 then [char_of (48 + n)] else showNat (n div 10) @ [char_of (48 + n mod 10)])"

declare showNat.simps [simp del]

definition itoa :: "int \<Rightarrow> string" where
  "itoa i = (if i < 0 then CHR ''-'' # showNat (nat (- i)) else showNat (nat i))"

section \<open>Packages encoding/hex and encoding/binary\<close>

definition hexDigit :: "nat \<Rightarrow> char" where
  "hexDigit n = (if n < 10 then char_of (48 + n) else char_of (87 + n))"

definition hexByte :: "byte \<Rightarrow> string" where
  "hexByte b = [hexDigit (unat b div 16), hexDigit (unat b mod 16)]"

definition hexEncode :: "bytes \<Rightarrow> string" where
  "hexEncode bs = concat (map hexByte bs)"

text \<open>\<open>binary.BigEndian.PutUint32\<close> and \<open>binary.BigEndian.Uint32\<close>.\<close>

definition putUint32 :: "32 word \<Rightarrow> bytes" where
  "putUint32 v = [ucast (drop_bit 24 v), ucast (drop_bit 16 v), ucast (drop_bit 8 v), ucast v]"

definition beUint32 :: "byte \<Rightarrow> byte \<Rightarrow> byte \<Rightarrow> byte \<Rightarrow> 32 word" where
  "beUint32 a b c d = ucast d OR push_bit 8 (ucast c) OR push_bit 16 (ucast b) OR push_bit 24 (ucast a)"

section \<open>Durations\<close>

definition second :: go_duration where [go_time]: "second = 1000000000"

definition minute :: go_duration where [go_time]: "minute = 60 * second"

definition hour :: go_duration where [go_time]: "hour = 60 * minute"

section \<open>Lemmas\<close>

subsection \<open>Bytes and strings\<close>

lemma char_of_byte_of [simp]: "char_of_byte (byte_of c) = c"
  by (simp add: char_of_byte_def byte_of_def unsigned_of_nat take_bit_eq_mod)

lemma byte_of_char_of [simp]: "byte_of (char_of_byte b) = b"
proof -
  have "unat b < 256" using unsigned_less [of b] by simp
  then show ?thesis by (simp add: byte_of_def char_of_byte_def)
qed

lemma string_of_bytes_of [simp]: "string_of (bytes_of s) = s"
  by (simp add: string_of_def bytes_of_def comp_def)

lemma bytes_of_string_of [simp]: "bytes_of (string_of b) = b"
  by (simp add: string_of_def bytes_of_def comp_def)

lemma bytes_of_simps [simp]:
  "bytes_of [] = []" "bytes_of (c # s) = byte_of c # bytes_of s"
  "bytes_of (s @ t) = bytes_of s @ bytes_of t" "length (bytes_of s) = length s"
  "bytes_of s = [] \<longleftrightarrow> s = []"
  by (simp_all add: bytes_of_def)

lemma string_of_simps [simp]:
  "string_of [] = []" "string_of (b # bs) = char_of_byte b # string_of bs"
  "string_of (bs @ cs) = string_of bs @ string_of cs" "length (string_of bs) = length bs"
  "string_of bs = [] \<longleftrightarrow> bs = []"
  by (simp_all add: string_of_def)

lemma bytes_of_inject [simp]: "bytes_of s = bytes_of t \<longleftrightarrow> s = t"
  by (metis string_of_bytes_of)

subsection \<open>Prefixes, suffixes and separators\<close>

lemma hasPrefix_iff: "hasPrefix s p \<longleftrightarrow> (\<exists>r. s = p @ r)"
  unfolding hasPrefix_def by (metis append_eq_conv_conj append_take_drop_id)

lemma hasPrefix_append [simp]: "hasPrefix (p @ r) p"
  by (auto simp: hasPrefix_iff)

lemma hasPrefix_Nil [simp]: "hasPrefix s []"
  by (simp add: hasPrefix_def)

lemma hasPrefix_trans: "hasPrefix s u \<Longrightarrow> hasPrefix u p \<Longrightarrow> hasPrefix s p"
  by (auto simp: hasPrefix_iff)

lemma hasSuffix_iff: "hasSuffix s p \<longleftrightarrow> (\<exists>r. s = r @ p)"
proof
  assume "hasSuffix s p"
  then show "\<exists>r. s = r @ p"
    unfolding hasSuffix_def by (metis append_take_drop_id)
qed (auto simp: hasSuffix_def)

lemma hasSuffix_append [simp]: "hasSuffix (r @ p) p"
  by (auto simp: hasSuffix_iff)

lemma trimSuffix_append [simp]: "trimSuffix (r @ p) p = r"
  by (simp add: trimSuffix_def)

lemma trimPrefix_append [simp]: "trimPrefix (p @ r) p = r"
  by (simp add: trimPrefix_def)

lemma cutPrefix_append [simp]: "cutPrefix (p @ r) p = Some r"
  by (simp add: cutPrefix_def)

lemma cutPrefix_Some_iff: "cutPrefix s p = Some r \<longleftrightarrow> s = p @ r"
  by (auto simp: cutPrefix_def hasPrefix_iff)

lemma cutAt_Some: "cutAt sep s = Some (a, b) \<Longrightarrow> s = a @ sep @ b"
proof (induction s arbitrary: a)
  case Nil
  then show ?case by (simp split: if_splits)
next
  case (Cons c cs)
  show ?case
  proof (cases "hasPrefix (c # cs) sep")
    case True
    then obtain r where "c # cs = sep @ r" by (auto simp: hasPrefix_iff)
    with Cons.prems True show ?thesis by (metis append_Nil append_eq_conv_conj cutAt.simps(2)
        option.inject prod.inject)
  next
    case False
    with Cons.prems obtain a' where "a = c # a'" "cutAt sep cs = Some (a', b)" by auto
    with Cons.IH show ?thesis by simp
  qed
qed

lemma splitOn_not_Nil [simp]: "splitOn sep s \<noteq> []"
  by (induction s) (auto split: list.splits)

lemma join_splitOn: "join [sep] (splitOn sep s) = s"
proof (induction s)
  case Nil
  then show ?case by simp
next
  case (Cons c cs)
  obtain w ws where w: "splitOn sep cs = w # ws" by (cases "splitOn sep cs") auto
  with Cons show ?case by (cases ws) auto
qed

lemma splitOn_no_sep: "w \<in> set (splitOn sep s) \<Longrightarrow> sep \<notin> set w"
  by (induction s arbitrary: w) (auto split: list.splits if_splits)

subsection \<open>Trimming\<close>

lemma leadLen_0:
  assumes "[] \<notin> set encs"
  shows "leadLen encs s = 0 \<longleftrightarrow> (\<forall>e \<in> set encs. \<not> hasPrefix s e)"
proof (cases "find (hasPrefix s) encs")
  case None
  then have "\<forall>e \<in> set encs. \<not> hasPrefix s e" by (auto simp: find_None_iff)
  with None show ?thesis by (simp add: leadLen_def)
next
  case (Some e)
  then have "e \<in> set encs" "hasPrefix s e" by (auto simp: find_Some_iff)
  with Some assms show ?thesis by (auto simp: leadLen_def)
qed

lemma trimLead_suffix: "\<exists>p. s = p @ trimLead encs s"
proof (induction encs s rule: trimLead.induct)
  case (1 encs s)
  show ?case
  proof (cases "s = [] \<or> leadLen encs s = 0")
    case True
    then have "trimLead encs s = s" by (simp add: trimLead.simps [of encs s])
    then show ?thesis by simp
  next
    case False
    with 1 obtain p where "drop (leadLen encs s) s = p @ trimLead encs (drop (leadLen encs s) s)"
      by blast
    with False have "s = (take (leadLen encs s) s @ p) @ trimLead encs s"
      by (metis append_assoc append_take_drop_id trimLead.simps)
    then show ?thesis by blast
  qed
qed

lemma trimLead_stop: "trimLead encs s = [] \<or> leadLen encs (trimLead encs s) = 0"
proof (induction encs s rule: trimLead.induct)
  case (1 encs s)
  then show ?case
    by (cases "s = [] \<or> leadLen encs s = 0") (auto simp: trimLead.simps [of encs s])
qed

lemma trimLead_id: "leadLen encs s = 0 \<Longrightarrow> trimLead encs s = s"
  by (subst trimLead.simps) simp

lemma trimLead_Nil [simp]: "trimLead encs [] = []"
  by (subst trimLead.simps) simp

lemma space_encodings_nonempty: "[] \<notin> set space_encodings" "[] \<notin> set (map rev space_encodings)"
  by (simp_all add: space_encodings_def)

lemma trimSpace_Nil [simp]: "trimSpace [] = []"
  by (simp add: trimSpace_def)

text \<open>A trimmed string neither starts nor ends with a white-space code point.\<close>

lemma trimSpace_no_lead:
  assumes "e \<in> set space_encodings"
  shows "\<not> hasPrefix (trimSpace s) e"
proof
  assume pre: "hasPrefix (trimSpace s) e"
  let ?l = "trimLead space_encodings s"
  have e: "e \<noteq> []" using assms space_encodings_nonempty by metis
  obtain p where "rev ?l = p @ trimLead (map rev space_encodings) (rev ?l)"
    using trimLead_suffix by blast
  then have "?l = trimSpace s @ rev p"
    unfolding trimSpace_def by (metis rev_append rev_rev_ident)
  with pre have lp: "hasPrefix ?l e" by (auto simp: hasPrefix_iff)
  with e have "?l \<noteq> []" by (auto simp: hasPrefix_iff)
  then have "leadLen space_encodings ?l = 0" using trimLead_stop by blast
  with lp assms show False by (simp add: leadLen_0 space_encodings_nonempty)
qed

lemma trimSpace_no_trail:
  assumes "e \<in> set space_encodings"
  shows "\<not> hasSuffix (trimSpace s) e"
proof
  assume suf: "hasSuffix (trimSpace s) e"
  let ?r = "trimLead (map rev space_encodings) (rev (trimLead space_encodings s))"
  have e: "e \<noteq> []" using assms space_encodings_nonempty by metis
  from suf obtain r where "rev ?r = r @ e" by (auto simp: hasSuffix_iff trimSpace_def)
  then have r: "?r = rev e @ rev r" by (metis rev_append rev_rev_ident)
  with e have "?r \<noteq> []" by simp
  then have "leadLen (map rev space_encodings) ?r = 0" using trimLead_stop by blast
  moreover have "hasPrefix ?r (rev e)" using r by (auto simp: hasPrefix_iff)
  ultimately show False using assms
    by (metis image_eqI leadLen_0 list.set_map space_encodings_nonempty(2))
qed

lemma trimSpace_fixed:
  assumes "\<And>e. e \<in> set space_encodings \<Longrightarrow> \<not> hasPrefix s e"
    and "\<And>e. e \<in> set space_encodings \<Longrightarrow> \<not> hasSuffix s e"
  shows "trimSpace s = s"
proof -
  have l: "trimLead space_encodings s = s"
    using assms(1) by (intro trimLead_id) (simp add: leadLen_0 space_encodings_nonempty)
  have "\<not> hasPrefix (rev s) (rev e)" if "e \<in> set space_encodings" for e
    using assms(2) [OF that] by (auto simp: hasPrefix_iff hasSuffix_iff)
      (metis rev_append rev_rev_ident)
  then have "trimLead (map rev space_encodings) (rev s) = rev s"
    using leadLen_0 [OF space_encodings_nonempty(2)] by (intro trimLead_id) simp
  with l show ?thesis by (simp add: trimSpace_def)
qed

lemma trimSpace_idem [simp]: "trimSpace (trimSpace s) = trimSpace s"
  by (rule trimSpace_fixed) (auto simp: trimSpace_no_lead trimSpace_no_trail)

text \<open>Printable ASCII is left alone.\<close>

lemma trimSpace_graphic:
  assumes "\<And>c. c \<in> set s \<Longrightarrow> 33 \<le> (of_char c :: nat) \<and> (of_char c :: nat) \<le> 126"
  shows "trimSpace s = s"
proof -
  have enc: "\<exists>c \<in> set e. \<not> (33 \<le> (of_char c :: nat) \<and> (of_char c :: nat) \<le> 126)" if "e \<in> set space_encodings" for e
    using that by (auto simp: space_encodings_def)
  show ?thesis
  proof (rule trimSpace_fixed)
    fix e
    assume e: "e \<in> set space_encodings"
    show "\<not> hasPrefix s e" using enc [OF e] assms by (auto simp: hasPrefix_iff)
    show "\<not> hasSuffix s e" using enc [OF e] assms by (auto simp: hasSuffix_iff)
  qed
qed

lemma splitOn_single: "sep \<notin> set s \<Longrightarrow> splitOn sep s = [s]"
  by (induction s) auto

lemma cutAt_free: "c \<in> set sep \<Longrightarrow> c \<notin> set s \<Longrightarrow> cutAt sep s = None"
proof (induction s)
  case (Cons a s)
  have "\<not> hasPrefix (a # s) sep"
  proof
    assume "hasPrefix (a # s) sep"
    then obtain r where "a # s = sep @ r" by (auto simp: hasPrefix_iff)
    then have "c \<in> set (a # s)" using Cons.prems(1) by (metis UnI1 set_append)
    then show False using Cons.prems(2) by blast
  qed
  with Cons show ?case by simp
qed auto

subsection \<open>Case folding\<close>

lemma of_char_lowerChar:
  "(of_char (lowerChar c) :: nat) =
     (if 65 \<le> (of_char c :: nat) \<and> (of_char c :: nat) \<le> 90 then of_char c + 32 else of_char c)"
  by (simp add: lowerChar_def)

lemma lowerChar_idem [simp]: "lowerChar (lowerChar c) = lowerChar c"
  by (cases "65 \<le> (of_char c :: nat) \<and> (of_char c :: nat) \<le> 90")
    (auto simp: lowerChar_def)

lemma isAscii_map_lowerChar [simp]: "isAscii s \<Longrightarrow> isAscii (map lowerChar s)"
  by (auto simp: isAscii_def list_all_iff of_char_lowerChar)

lemma toLower_ascii: "isAscii s \<Longrightarrow> toLower ul s = map lowerChar s"
  by (simp add: toLower_def)

lemma toLower_Nil [simp]: "toLower ul [] = []"
  by (simp add: toLower_def isAscii_def)

subsection \<open>Fixed-width integers\<close>

lemma length_putUint32 [simp]: "length (putUint32 v) = 4"
  by (simp add: putUint32_def)

lemma beUint32_putUint32:
  "beUint32 (ucast (drop_bit 24 v)) (ucast (drop_bit 16 v)) (ucast (drop_bit 8 v)) (ucast v) = v"
  unfolding beUint32_def
proof (rule bit_word_eqI)
  fix n :: nat
  assume "n < LENGTH(32)"
  then consider "n < 8" | "8 \<le> n \<and> n < 16" | "16 \<le> n \<and> n < 24" | "24 \<le> n \<and> n < 32"
    by fastforce
  then show "bit (ucast (ucast v :: byte) OR push_bit 8 (ucast (ucast (drop_bit 8 v) :: byte)) OR
      push_bit 16 (ucast (ucast (drop_bit 16 v) :: byte)) OR
      push_bit 24 (ucast (ucast (drop_bit 24 v) :: byte)) :: 32 word) n = bit v n"
    by cases (auto simp: bit_simps)
qed

lemma length_hexEncode [simp]: "length (hexEncode bs) = 2 * length bs"
  by (induction bs) (auto simp: hexEncode_def hexByte_def)

section \<open>Registries\<close>

text \<open>
  The contract of the maps that the program keeps behind a lock or as a \<open>sync.Map\<close>: what a
  lookup returns after a store.  Keys that are not \<open>ok\<close> are ignored by the store.
\<close>

locale registry =
  fixes put :: "'s \<Rightarrow> 'k \<Rightarrow> 'v \<Rightarrow> 's"
    and get :: "'s \<Rightarrow> 'k \<Rightarrow> 'v"
    and ok :: "'k \<Rightarrow> bool"
  assumes get_put_same: "ok k \<Longrightarrow> get (put s k v) k = v"
    and get_put_other: "k \<noteq> k' \<Longrightarrow> get (put s k v) k' = get s k'"
    and put_ignored: "\<not> ok k \<Longrightarrow> put s k v = s"
begin

lemma get_put: "get (put s k v) k' = (if ok k \<and> k = k' then v else get s k')"
  using get_put_same get_put_other put_ignored by metis

lemma put_put: "get (put (put s k v) k w) = get (put s k w)"
  by (rule ext) (auto simp: get_put)

lemma put_commute: "k \<noteq> l \<Longrightarrow> get (put (put s k v) l w) = get (put (put s l w) k v)"
  by (rule ext) (auto simp: get_put)

text \<open>After any sequence of stores, a key holds what was stored last under it.\<close>

lemma get_after_puts:
  "get (foldl (\<lambda>s kv. put s (fst kv) (snd kv)) s kvs) k =
     (if ok k then (case map_of (rev kvs) k of None \<Rightarrow> get s k | Some v \<Rightarrow> v) else get s k)"
proof (induction kvs rule: rev_induct)
  case (snoc kv kvs)
  then show ?case by (cases kv) (auto simp: get_put)
qed (simp split: option.splits)

end

section \<open>Invariants of step relations\<close>

text \<open>A step relation and a property of states that every step keeps; it then holds in all reachable states.\<close>

locale invariant_system =
  fixes step :: "'s \<Rightarrow> 's \<Rightarrow> bool"
    and inv :: "'s \<Rightarrow> bool"
  assumes preserves: "step s s' \<Longrightarrow> inv s \<Longrightarrow> inv s'"
begin

lemma reachable: "step\<^sup>*\<^sup>* s s' \<Longrightarrow> inv s \<Longrightarrow> inv s'"
  by (induction rule: rtranclp_induct) (auto intro: preserves)

end

section \<open>Refinement of an abstract specification\<close>

text \<open>
  A component executes commands on its state and answers each; its specification relates the
  abstract states before and after a command to the answer.  \<open>runAll\<close> and \<open>specRun\<close> extend both to
  sequences of commands.
\<close>

fun runAll :: "('c \<Rightarrow> 's \<Rightarrow> 'r \<times> 's) \<Rightarrow> 'c list \<Rightarrow> 's \<Rightarrow> 'r list \<times> 's" where
  "runAll exec [] s = ([], s)"
| "runAll exec (c # cs) s =
     (case exec c s of (r, s') \<Rightarrow> (case runAll exec cs s' of (rs, s'') \<Rightarrow> (r # rs, s'')))"

fun specRun :: "('c \<Rightarrow> 'a \<Rightarrow> 'r \<Rightarrow> 'a \<Rightarrow> bool) \<Rightarrow> 'c list \<Rightarrow> 'a \<Rightarrow> 'r list \<Rightarrow> 'a \<Rightarrow> bool" where
  "specRun spec [] a rs a' \<longleftrightarrow> rs = [] \<and> a' = a"
| "specRun spec (c # cs) a rs a' \<longleftrightarrow> (\<exists>r rs' b. rs = r # rs' \<and> spec c a r b \<and> specRun spec cs b rs' a')"

locale simulation =
  fixes exec :: "'c \<Rightarrow> 's \<Rightarrow> 'r \<times> 's"
    and spec :: "'c \<Rightarrow> 'a \<Rightarrow> 'r \<Rightarrow> 'a \<Rightarrow> bool"
    and abs :: "'s \<Rightarrow> 'a"
    and inv :: "'s \<Rightarrow> bool"
  assumes simulates: "inv s \<Longrightarrow> exec c s = (r, s') \<Longrightarrow> inv s' \<and> spec c (abs s) r (abs s')"
begin

lemma run_refines:
  "inv s \<Longrightarrow> runAll exec cs s = (rs, s') \<Longrightarrow> inv s' \<and> specRun spec cs (abs s) rs (abs s')"
proof (induction cs arbitrary: s rs s')
  case (Cons c cs)
  obtain r t where c: "exec c s = (r, t)" by fastforce
  obtain rs' t' where cs: "runAll exec cs t = (rs', t')" by fastforce
  from simulates [OF Cons.prems(1) c] Cons.IH [OF _ cs] show ?case using Cons.prems(2) c cs by auto
qed simp

end

end
