(* ===== verification/Protobuf.thy ===== *)
theory Protobuf
  imports Prelude
begin

text \<open>
  The hand-written protobuf codec of the Cursor bridge (\<open>src/pkg/cursor/proto.go\<close>): the
  varint and field encoders, the field parser, the encoder of
  \<open>StreamUnifiedChatWithToolsRequest\<close> and the decoders of the two responses.  The lemmas show
  that varints and fields survive a round trip, that the parser consumes exactly what the
  encoders wrote, and that truncated input is an error.
\<close>

section \<open>Varints (package encoding/binary)\<close>

lemma unat_drop_bit_7_less:
  fixes x :: "64 word"
  assumes "\<not> x < 0x80"
  shows "unat (drop_bit 7 x) < unat x"
proof -
  have "128 \<le> unat x" using assms by (simp add: word_less_nat_alt)
  then show ?thesis by (simp add: drop_bit_eq_div unat_div)
qed

function putUvarint :: "64 word \<Rightarrow> bytes" where
  "putUvarint x = (if x < 0x80 then [ucast x]
     else (ucast x OR 0x80) # putUvarint (drop_bit 7 x))"
  by pat_completeness auto
termination
  by (relation "measure unat") (auto dest: unat_drop_bit_7_less)

declare putUvarint.simps [simp del]

fun uvarintLoop :: "bytes \<Rightarrow> nat \<Rightarrow> 64 word \<Rightarrow> nat \<Rightarrow> 64 word \<times> int" where
  "uvarintLoop [] i x s = (0, 0)"
| "uvarintLoop (b # bs) i x s =
     (if i = 10 then (0, - (int i + 1))
      else if b < 0x80 then
        (if i = 9 \<and> 1 < b then (0, - (int i + 1)) else (x OR push_bit s (ucast b), int i + 1))
      else uvarintLoop bs (Suc i) (x OR push_bit s (ucast (b AND 0x7f))) (s + 7))"

text \<open>\<open>binary.Uvarint\<close>: the value and the number of bytes read, not positive on an error.\<close>

definition uvarint :: "bytes \<Rightarrow> 64 word \<times> int" where
  "uvarint buf = uvarintLoop buf 0 0 0"

section \<open>Low-level encode helpers\<close>

definition appendVarint :: "bytes \<Rightarrow> 64 word \<Rightarrow> bytes" where
  "appendVarint dst v = dst @ putUvarint v"

definition appendTag :: "bytes \<Rightarrow> nat \<Rightarrow> nat \<Rightarrow> bytes" where
  "appendTag dst fld wire = appendVarint dst (push_bit 3 (word_of_nat fld) OR word_of_nat wire)"

definition appendString :: "bytes \<Rightarrow> nat \<Rightarrow> string \<Rightarrow> bytes" where
  "appendString dst fld s =
     (if s = [] then dst
      else (let dst = appendTag dst fld 2; dst = appendVarint dst (word_of_nat (length s))
            in dst @ bytes_of s))"

definition appendInt32 :: "bytes \<Rightarrow> nat \<Rightarrow> 32 word \<Rightarrow> bytes" where
  "appendInt32 dst fld v =
     (if v = 0 then dst else appendVarint (appendTag dst fld 0) (ucast v))"

definition appendBytesField :: "bytes \<Rightarrow> nat \<Rightarrow> bytes \<Rightarrow> bytes" where
  "appendBytesField dst fld b =
     (let dst = appendTag dst fld 2; dst = appendVarint dst (word_of_nat (length b)) in dst @ b)"

text \<open>A slice that is only ever appended to is \<open>nil\<close> exactly while it is empty.\<close>

definition built :: "bytes \<Rightarrow> bytes option" where
  "built b = (if b = [] then None else Some b)"

definition appendMessage :: "bytes \<Rightarrow> nat \<Rightarrow> bytes option \<Rightarrow> bytes" where
  "appendMessage dst fld m =
     (case m of None \<Rightarrow> dst
      | Some b \<Rightarrow> (let dst = appendTag dst fld 2; dst = appendVarint dst (word_of_nat (length b))
                  in dst @ b))"

section \<open>Low-level decode helpers\<close>

record field =
  f_num :: nat
  f_wire :: nat
  f_uvar :: "64 word"
  f_raw :: bytes

datatype proto_error =
    BadTag
  | BadVarint nat
  | TruncatedFixed64 nat
  | BadLength nat
  | TruncatedBytes nat
  | TruncatedFixed32 nat
  | UnsupportedWire nat
  | NilRequest

text \<open>One round of the loop of \<open>parseFields\<close>: the field and the data left.\<close>

definition parseField :: "bytes \<Rightarrow> proto_error + (field \<times> bytes)" where
  "parseField data0 =
     (let (tag, n) = uvarint data0 in
      if n \<le> 0 then Inl BadTag
      else
        let data = drop (nat n) data0;
            f = \<lparr>f_num = unat (drop_bit 3 tag), f_wire = unat (tag AND 7), f_uvar = 0, f_raw = []\<rparr>
        in
        if f_wire f = 0 then
          (let (v, m) = uvarint data in
           if m \<le> 0 then Inl (BadVarint (f_num f))
           else Inr (f\<lparr>f_uvar := v\<rparr>, drop (nat m) data))
        else if f_wire f = 1 then
          (if length data < 8 then Inl (TruncatedFixed64 (f_num f)) else Inr (f, drop 8 data))
        else if f_wire f = 2 then
          (let (l, m) = uvarint data in
           if m \<le> 0 then Inl (BadLength (f_num f))
           else let data = drop (nat m) data in
             if length data < unat l then Inl (TruncatedBytes (f_num f))
             else Inr (f\<lparr>f_raw := take (unat l) data\<rparr>, drop (unat l) data))
        else if f_wire f = 5 then
          (if length data < 4 then Inl (TruncatedFixed32 (f_num f)) else Inr (f, drop 4 data))
        else Inl (UnsupportedWire (f_wire f)))"

lemma uvarintLoop_consumed: "uvarintLoop bs i x s = (v, n) \<Longrightarrow> n \<le> int i + int (length bs) \<and>
    (0 < n \<longrightarrow> int i < n)"
proof (induction bs i x s rule: uvarintLoop.induct)
  case (1 i x s)
  then show ?case by simp
next
  case (2 b bs i x s)
  show ?case
  proof (cases "i = 10 \<or> b < 0x80")
    case True
    with "2.prems" show ?thesis by (auto split: if_splits)
  next
    case False
    with 2 show ?thesis by auto
  qed
qed

lemma uvarint_consumed: "uvarint bs = (v, n) \<Longrightarrow> n \<le> int (length bs)"
  using uvarintLoop_consumed by (fastforce simp: uvarint_def)

lemma parseField_shrinks:
  assumes "parseField data = Inr (f, rest)"
  shows "length rest < length data"
proof -
  obtain tag n where t: "uvarint data = (tag, n)" by fastforce
  with assms have "0 < n" by (auto simp: parseField_def split: if_splits)
  moreover have "n \<le> int (length data)" using uvarint_consumed t by blast
  ultimately have "length (drop (nat n) data) < length data" by simp
  with assms t show ?thesis
    by (auto simp: parseField_def Let_def split: if_splits prod.splits)
qed

function parseFieldsLoop :: "field list \<Rightarrow> bytes \<Rightarrow> proto_error + field list" where
  "parseFieldsLoop out data =
     (if data = [] then Inr out
      else case parseField data of
        Inl e \<Rightarrow> Inl e
      | Inr (f, rest) \<Rightarrow> parseFieldsLoop (out @ [f]) rest)"
  by pat_completeness auto
termination
  by (relation "measure (\<lambda>(out, data). length data)") (auto dest: parseField_shrinks)

declare parseFieldsLoop.simps [simp del]

definition parseFields :: "bytes \<Rightarrow> proto_error + field list" where
  "parseFields data = parseFieldsLoop [] data"

section \<open>StreamUnifiedChatWithToolsRequest\<close>

record ChatMessage =
  cm_Content :: string
  cm_Role :: "32 word"
  cm_MessageID :: string
  cm_ChatModeEnum :: "32 word"
  cm_SummaryID :: string

definition encodeChatMessage :: "ChatMessage \<Rightarrow> bytes" where
  "encodeChatMessage m =
     (let b = appendString [] 1 (cm_Content m);
          b = appendInt32 b 2 (cm_Role m);
          b = appendString b 13 (cm_MessageID m);
          b = appendString b 32 (cm_SummaryID m);
          b = appendInt32 b 47 (cm_ChatModeEnum m)
      in b)"

record RequestMetadata =
  rm_OS :: string
  rm_Arch :: string
  rm_Version :: string
  rm_Path :: string
  rm_Timestamp :: string

definition encodeRequestMetadata :: "RequestMetadata option \<Rightarrow> bytes" where
  "encodeRequestMetadata om =
     (case om of None \<Rightarrow> []
      | Some m \<Rightarrow>
         (let b = appendString [] 1 (rm_OS m);
              b = appendString b 2 (rm_Arch m);
              b = appendString b 3 (rm_Version m);
              b = appendString b 4 (rm_Path m);
              b = appendString b 5 (rm_Timestamp m)
          in b))"

record MessageIDRef =
  mr_MessageID :: string
  mr_SummaryID :: string
  mr_Role :: "32 word"

definition encodeMessageIDRef :: "MessageIDRef \<Rightarrow> bytes" where
  "encodeMessageIDRef m =
     (let b = appendString [] 1 (mr_MessageID m);
          b = appendString b 2 (mr_SummaryID m);
          b = appendInt32 b 3 (mr_Role m)
      in b)"

record ChatRequest =
  cr_Messages :: "ChatMessage list"
  cr_Unknown2 :: "32 word"
  cr_Instruction :: string
  cr_Unknown4 :: "32 word"
  cr_ModelName :: string
  cr_WebTool :: string
  cr_Unknown13 :: "32 word"
  cr_Unknown19 :: "32 word"
  cr_ConversationID :: string
  cr_Metadata :: "RequestMetadata option"
  cr_Unknown27 :: "32 word"
  cr_MessageIDs :: "MessageIDRef list"
  cr_LargeContext :: "32 word"
  cr_Unknown38 :: "32 word"
  cr_ChatModeEnum :: "32 word"
  cr_Unknown47 :: string
  cr_Unknown48 :: "32 word"
  cr_Unknown49 :: "32 word"
  cr_Unknown51 :: "32 word"
  cr_Unknown53 :: "32 word"
  cr_ChatMode :: string

definition cursorSetting :: bytes where
  "cursorSetting =
     (let unknown6 = appendBytesField [] 1 [];
          unknown6 = appendBytesField unknown6 2 [];
          b = appendString [] 1 (''cursor'' @ [CHR 0x5C] @ ''aisettings'');
          b = appendBytesField b 3 [];
          b = appendMessage b 6 (built unknown6);
          b = appendInt32 b 8 1;
          b = appendInt32 b 9 1
      in b)"

fun appendMessages :: "bytes \<Rightarrow> nat \<Rightarrow> bytes list \<Rightarrow> bytes" where
  "appendMessages b fld [] = b"
| "appendMessages b fld (m # ms) = appendMessages (appendMessage b fld (built m)) fld ms"

definition encodeChatRequest :: "ChatRequest \<Rightarrow> bytes" where
  "encodeChatRequest r =
     (let b = appendMessages [] 1 (map encodeChatMessage (cr_Messages r));
          b = appendInt32 b 2 (cr_Unknown2 r);
          b = (if cr_Instruction r \<noteq> []
               then appendMessage b 3 (built (appendString [] 1 (cr_Instruction r))) else b);
          b = appendInt32 b 4 (cr_Unknown4 r);
          model = appendString [] 1 (cr_ModelName r);
          model = appendBytesField model 4 [];
          b = appendMessage b 5 (built model);
          b = appendString b 8 (cr_WebTool r);
          b = appendInt32 b 13 (cr_Unknown13 r);
          b = appendMessage b 15 (built cursorSetting);
          b = appendInt32 b 19 (cr_Unknown19 r);
          b = appendString b 23 (cr_ConversationID r);
          b = appendMessage b 26 (built (encodeRequestMetadata (cr_Metadata r)));
          b = appendInt32 b 27 (cr_Unknown27 r);
          b = appendMessages b 30 (map encodeMessageIDRef (cr_MessageIDs r));
          b = appendInt32 b 35 (cr_LargeContext r);
          b = appendInt32 b 38 (cr_Unknown38 r);
          b = appendInt32 b 46 (cr_ChatModeEnum r);
          b = appendString b 47 (cr_Unknown47 r);
          b = appendInt32 b 48 (cr_Unknown48 r);
          b = appendInt32 b 49 (cr_Unknown49 r);
          b = appendInt32 b 51 (cr_Unknown51 r);
          b = appendInt32 b 53 (cr_Unknown53 r);
          b = appendString b 54 (cr_ChatMode r)
      in b)"

definition EncodeStreamUnifiedChatRequest :: "ChatRequest option \<Rightarrow> proto_error + bytes" where
  "EncodeStreamUnifiedChatRequest orq =
     (case orq of None \<Rightarrow> Inl NilRequest
      | Some r \<Rightarrow> Inr (appendMessage [] 1 (built (encodeChatRequest r))))"

section \<open>StreamUnifiedChatWithToolsResponse and AvailableModelsResponse\<close>

record ChatResponseChunk =
  ch_Content :: string
  ch_Thinking :: string

fun thinkingFields :: "field list \<Rightarrow> ChatResponseChunk \<Rightarrow> ChatResponseChunk" where
  "thinkingFields [] out = out"
| "thinkingFields (tf # tfs) out =
     thinkingFields tfs
       (if f_num tf = 1 \<and> f_wire tf = 2 then out\<lparr>ch_Thinking := string_of (f_raw tf)\<rparr> else out)"

fun messageFields :: "field list \<Rightarrow> ChatResponseChunk \<Rightarrow> ChatResponseChunk" where
  "messageFields [] out = out"
| "messageFields (mf # mfs) out =
     messageFields mfs
       (if f_num mf = 1 \<and> f_wire mf = 2 then out\<lparr>ch_Content := string_of (f_raw mf)\<rparr>
        else if f_num mf = 25 \<and> f_wire mf = 2 then
          (case parseFields (f_raw mf) of Inl e \<Rightarrow> out | Inr tfs \<Rightarrow> thinkingFields tfs out)
        else out)"

fun responseFields :: "field list \<Rightarrow> ChatResponseChunk \<Rightarrow> proto_error + ChatResponseChunk" where
  "responseFields [] out = Inr out"
| "responseFields (f # fs) out =
     (if f_num f \<noteq> 2 \<or> f_wire f \<noteq> 2 then responseFields fs out
      else case parseFields (f_raw f) of
        Inl e \<Rightarrow> Inl e
      | Inr mfs \<Rightarrow> responseFields fs (messageFields mfs out))"

definition DecodeStreamUnifiedChatResponse :: "bytes \<Rightarrow> proto_error + ChatResponseChunk" where
  "DecodeStreamUnifiedChatResponse data =
     (case parseFields data of
        Inl e \<Rightarrow> Inl e
      | Inr fs \<Rightarrow> responseFields fs \<lparr>ch_Content = [], ch_Thinking = []\<rparr>)"

definition modelNamesOf :: "field \<Rightarrow> string list" where
  "modelNamesOf f =
     (if f_num f = 2 \<and> f_wire f = 2 then
        (case parseFields (f_raw f) of
           Inl e \<Rightarrow> []
         | Inr sub \<Rightarrow> map (\<lambda>sf. string_of (f_raw sf)) (filter (\<lambda>sf. f_num sf = 1 \<and> f_wire sf = 2) sub))
      else if f_num f = 1 \<and> f_wire f = 2 then [string_of (f_raw f)]
      else [])"

definition DecodeAvailableModels :: "bytes \<Rightarrow> proto_error + string list" where
  "DecodeAvailableModels data =
     (case parseFields data of
        Inl e \<Rightarrow> Inl e
      | Inr fs \<Rightarrow> Inr (concat (map modelNamesOf fs)))"

section \<open>Self-delimiting encodings\<close>

text \<open>
  The contract between an encoder that appends values to a byte stream and the parser that
  takes them off again one at a time.  Varints, fields and (in theory \<open>Connect\<close>) Connect frames
  meet it.
\<close>

locale prefix_codec =
  fixes enc :: "'a \<Rightarrow> bytes"
    and dec :: "bytes \<Rightarrow> 'e + ('a \<times> bytes)"
    and wf :: "'a \<Rightarrow> bool"
  assumes dec_enc: "wf a \<Longrightarrow> dec (enc a @ rest) = Inr (a, rest)"
    and enc_nonempty: "wf a \<Longrightarrow> enc a \<noteq> []"
begin

lemma enc_unique:
  assumes "wf a" "wf b" "enc a @ r = enc b @ r'"
  shows "a = b \<and> r = r'"
proof -
  have "Inr (a, r) = dec (enc b @ r')" using dec_enc [OF assms(1), of r] assms(3) by metis
  also have "\<dots> = Inr (b, r')" by (rule dec_enc [OF assms(2)])
  finally show ?thesis by simp
qed

lemma concat_enc_unique:
  "list_all wf xs \<Longrightarrow> list_all wf ys \<Longrightarrow> concat (map enc xs) = concat (map enc ys) \<Longrightarrow> xs = ys"
proof (induction xs arbitrary: ys)
  case Nil
  then show ?case using enc_nonempty by (cases ys) auto
next
  case (Cons x xs)
  then have "ys \<noteq> []" using enc_nonempty by auto
  then obtain y ys' where ys: "ys = y # ys'" by (cases ys) auto
  with Cons.prems have "x = y \<and> concat (map enc xs) = concat (map enc ys')"
    by (intro enc_unique) auto
  with Cons ys show ?case by auto
qed

text \<open>A loop that takes values off the stream until it is empty returns what was written.\<close>

lemma loop_decodes:
  assumes loop: "\<And>out data. loop out data =
      (if data = [] then Inr out
       else case dec data of Inl e \<Rightarrow> Inl e | Inr (a, rest) \<Rightarrow> loop (out @ [a]) rest)"
  shows "list_all wf xs \<Longrightarrow> loop out (concat (map enc xs) @ data) = loop (out @ xs) data"
proof (induction xs arbitrary: out)
  case Nil
  then show ?case by simp
next
  case (Cons x xs)
  then show ?case by (subst loop) (simp add: dec_enc enc_nonempty)
qed

end

section \<open>Varints survive the round trip\<close>

lemma byte_less_128: "(b :: byte) < 0x80 \<longleftrightarrow> \<not> bit b 7"
proof -
  have u: "unat b < 256" using unsigned_less [of b] by simp
  have "bit b 7 \<longleftrightarrow> bit (unat b) 7" by (simp add: bit_unsigned_iff)
  also have "\<dots> \<longleftrightarrow> odd (unat b div 128)" by (simp add: bit_iff_odd)
  also have "\<dots> \<longleftrightarrow> \<not> unat b < 128"
  proof (cases "unat b < 128")
    case False
    then have "unat b div 128 = 1" using u by (intro div_nat_eqI) auto
    with False show ?thesis by simp
  qed simp
  finally show ?thesis by (simp add: word_less_nat_alt)
qed

lemma small_bits:
  fixes v :: "64 word"
  assumes "v < 0x80"
  shows "bit v n \<Longrightarrow> n < 7"
proof -
  assume b: "bit v n"
  have "take_bit 7 v = v"
  proof -
    have "unat v < 128" using assms by (simp add: word_less_nat_alt)
    then have "take_bit 7 (unat v) = unat v" by (simp add: take_bit_nat_eq_self_iff)
    then show ?thesis by (metis unsigned_take_bit_eq word_eq_iff_unsigned)
  qed
  with b show "n < 7" by (metis bit_take_bit_iff)
qed

lemma ucast_ucast_small:
  fixes v :: "64 word"
  assumes "v < 0x80"
  shows "ucast (ucast v :: byte) = v"
  by (rule bit_word_eqI) (auto simp: bit_simps dest: small_bits [OF assms])

lemma ucast_byte_less_128: "(v :: 64 word) < 0x80 \<Longrightarrow> (ucast v :: byte) < 0x80"
  by (auto simp: byte_less_128 bit_simps dest: small_bits)

lemma cont_byte: "\<not> (ucast (v :: 64 word) OR 0x80 :: byte) < 0x80"
  by (simp add: byte_less_128 bit_or_iff)

lemma low_seven_bits:
  "bit ((ucast (v :: 64 word) OR 0x80 :: byte) AND 0x7f) k \<longleftrightarrow> k < 7 \<and> bit v k"
proof -
  have "(0x7f :: byte) = mask 7" by (simp add: mask_eq_exp_minus_1)
  then have "((ucast v OR 0x80 :: byte) AND 0x7f) = take_bit 7 (ucast v OR 0x80)"
    by (simp only: take_bit_eq_mask)
  moreover have "\<not> bit (0x80 :: byte) k" if "k < 7"
  proof -
    have "k = 0 \<or> k = 1 \<or> k = 2 \<or> k = 3 \<or> k = 4 \<or> k = 5 \<or> k = 6" using that by linarith
    then show ?thesis by auto
  qed
  ultimately show ?thesis by (auto simp only: bit_take_bit_iff bit_or_iff bit_ucast_iff) simp_all
qed

lemma varint_split:
  fixes v :: "64 word"
  shows "(x OR push_bit s (ucast ((ucast v OR 0x80 :: byte) AND 0x7f))) OR
      push_bit (s + 7) (drop_bit 7 v) = x OR push_bit s v"
proof (rule bit_word_eqI)
  fix n :: nat
  assume n: "n < LENGTH(64)"
  consider "n < s" | "s \<le> n" "n < s + 7" | "s + 7 \<le> n" by linarith
  then show "bit ((x OR push_bit s (ucast ((ucast v OR 0x80 :: byte) AND 0x7f))) OR
      push_bit (s + 7) (drop_bit 7 v)) n = bit (x OR push_bit s v) n"
  proof cases
    case 1
    then show ?thesis by (simp add: bit_simps)
  next
    case 2
    then have "n - s < 7" by linarith
    with 2 n show ?thesis by (auto simp only: bit_or_iff bit_push_bit_iff bit_ucast_iff low_seven_bits)
  next
    case 3
    then have "7 + (n - (s + 7)) = n - s" "\<not> n - s < 7" by linarith+
    with 3 n show ?thesis by (auto simp: bit_or_iff bit_push_bit_iff bit_drop_bit_eq bit_ucast_iff low_seven_bits)
  qed
qed

lemma uvarintLoop_putUvarint:
  "i \<le> 9 \<Longrightarrow> unat v < 2 ^ (64 - 7 * i) \<Longrightarrow>
   uvarintLoop (putUvarint v @ rest) i x (7 * i) =
     (x OR push_bit (7 * i) v, int i + int (length (putUvarint v)))"
proof (induction v arbitrary: i x rule: putUvarint.induct)
  case (1 v)
  show ?case
  proof (cases "v < 0x80")
    case True
    have "\<not> (i = 9 \<and> (1 :: byte) < ucast v)"
    proof
      assume a: "i = 9 \<and> (1 :: byte) < ucast v"
      with "1.prems" have "unat v < 2" by simp
      then have "unat (ucast v :: byte) < 2" by (simp add: unsigned_ucast_eq take_bit_eq_mod)
      with a show False by (simp add: word_less_nat_alt)
    qed
    with True "1.prems"(1) show ?thesis
      by (auto simp: putUvarint.simps [of v] ucast_byte_less_128 ucast_ucast_small)
  next
    case False
    then have v: "128 \<le> unat v" by (simp add: word_less_nat_alt)
    have i: "i < 9"
    proof (rule ccontr)
      assume "\<not> i < 9"
      with "1.prems"(1) have "i = 9" by simp
      with "1.prems"(2) v show False by simp
    qed
    have "unat (drop_bit 7 v) < 2 ^ (64 - 7 * Suc i)"
    proof -
      have e: "64 - 7 * i = 7 + (64 - 7 * Suc i)" using i by simp
      have "unat v < 2 ^ 7 * 2 ^ (64 - 7 * Suc i)" using "1.prems"(2) unfolding e power_add .
      then have "unat v div 2 ^ 7 < 2 ^ (64 - 7 * Suc i)" by (simp add: less_mult_imp_div_less mult.commute)
      then show ?thesis by (simp add: drop_bit_eq_div unat_div)
    qed
    with 1(1) [OF False, of "Suc i" "x OR push_bit (7 * i) (ucast ((ucast v OR 0x80 :: byte) AND 0x7f))"] i
    have "uvarintLoop (putUvarint (drop_bit 7 v) @ rest) (Suc i)
        (x OR push_bit (7 * i) (ucast ((ucast v OR 0x80 :: byte) AND 0x7f))) (7 * i + 7) =
        (x OR push_bit (7 * i) v, int (Suc i) + int (length (putUvarint (drop_bit 7 v))))"
      using varint_split [of x "7 * i" v] by (simp add: add.commute)
    with False i show ?thesis by (simp add: putUvarint.simps [of v] cont_byte)
  qed
qed

lemma uvarint_putUvarint: "uvarint (putUvarint v @ rest) = (v, int (length (putUvarint v)))"
  using uvarintLoop_putUvarint [of 0 v rest 0] unsigned_less [of v] by (simp add: uvarint_def)


lemma putUvarint_nonempty [simp]: "putUvarint v \<noteq> []"
  by (subst putUvarint.simps) simp

definition takeUvarint :: "bytes \<Rightarrow> unit + (64 word \<times> bytes)" where
  "takeUvarint bs = (let (v, n) = uvarint bs in if n \<le> 0 then Inl () else Inr (v, drop (nat n) bs))"

interpretation varints: prefix_codec putUvarint takeUvarint "\<lambda>_. True"
proof
  fix v rest
  show "takeUvarint (putUvarint v @ rest) = Inr (v, rest)"
    by (simp add: takeUvarint_def uvarint_putUvarint)
qed simp

section \<open>Fields survive the round trip\<close>

definition encField :: "field \<Rightarrow> bytes" where
  "encField f = (if f_wire f = 0 then appendVarint (appendTag [] (f_num f) 0) (f_uvar f)
     else appendBytesField [] (f_num f) (f_raw f))"

definition wfField :: "field \<Rightarrow> bool" where
  "wfField f \<longleftrightarrow> f_num f < 2 ^ 29 \<and>
     (f_wire f = 0 \<and> f_raw f = [] \<or> f_wire f = 2 \<and> f_uvar f = 0 \<and> length (f_raw f) < 2 ^ 64)"

lemma tag_roundtrip:
  assumes "n < 2 ^ 29" "w < 8"
  shows "unat (drop_bit 3 (push_bit 3 (word_of_nat n) OR word_of_nat w :: 64 word)) = n"
    and "unat ((push_bit 3 (word_of_nat n) OR word_of_nat w :: 64 word) AND 7) = w"
proof -
  let ?n = "word_of_nat n :: 64 word" and ?w = "word_of_nat w :: 64 word"
  have un: "unat ?n = n" and uw: "unat ?w = w"
    using assms by (simp_all add: unsigned_of_nat take_bit_eq_mod)
  have nb: "bit ?n k \<Longrightarrow> k < 29" for k
  proof -
    assume "bit ?n k"
    then have "bit n k" by (simp add: bit_of_nat_iff)
    moreover have "take_bit 29 n = n" using assms(1) by (simp add: take_bit_nat_eq_self_iff)
    ultimately show "k < 29" by (metis bit_take_bit_iff)
  qed
  have wb: "bit ?w k \<Longrightarrow> k < 3" for k
  proof -
    assume "bit ?w k"
    then have "bit w k" by (simp add: bit_of_nat_iff)
    moreover have "take_bit 3 w = w" using assms(2) by (simp add: take_bit_nat_eq_self_iff)
    ultimately show "k < 3" by (metis bit_take_bit_iff)
  qed
  have "drop_bit 3 (push_bit 3 ?n OR ?w) = ?n"
  proof (rule bit_word_eqI)
    fix k :: nat
    assume "k < LENGTH(64)"
    show "bit (drop_bit 3 (push_bit 3 ?n OR ?w)) k = bit ?n k"
      using nb [of k] wb [of "3 + k"] by (auto simp: bit_drop_bit_eq bit_or_iff bit_push_bit_iff)
  qed
  then show "unat (drop_bit 3 (push_bit 3 ?n OR ?w)) = n" using un by simp
  have seven: "(7 :: 64 word) = mask 3" by (simp add: mask_eq_exp_minus_1)
  have "(push_bit 3 ?n OR ?w) AND 7 = ?w"
    unfolding seven
  proof (rule bit_word_eqI)
    fix k :: nat
    assume "k < LENGTH(64)"
    show "bit ((push_bit 3 ?n OR ?w) AND mask 3) k = bit ?w k"
      using wb [of k] by (auto simp only: bit_and_iff bit_or_iff bit_push_bit_iff bit_mask_iff) simp_all
  qed
  then show "unat ((push_bit 3 ?n OR ?w) AND 7) = w" using uw by simp
qed

lemma parseField_encField:
  assumes "wfField f"
  shows "parseField (encField f @ rest) = Inr (f, rest)"
proof (cases "f_wire f = 0")
  case True
  with assms have n: "f_num f < 2 ^ 29" and r: "f_raw f = []" by (auto simp: wfField_def)
  let ?f = "\<lparr>f_num = f_num f, f_wire = 0, f_uvar = f_uvar f, f_raw = []\<rparr>"
  have f: "?f = f" using True r by (cases f) simp
  have "parseField (encField f @ rest) = Inr (?f, rest)"
    unfolding parseField_def encField_def appendTag_def appendVarint_def using True
    by (simp add: uvarint_putUvarint tag_roundtrip [OF n, of 0, simplified] Let_def)
  with f show ?thesis by simp
next
  case False
  with assms have n: "f_num f < 2 ^ 29" and w: "f_wire f = 2" and u: "f_uvar f = 0"
    and l: "length (f_raw f) < 2 ^ 64" by (auto simp: wfField_def)
  let ?f = "\<lparr>f_num = f_num f, f_wire = 2, f_uvar = 0, f_raw = f_raw f\<rparr>"
  have f: "?f = f" using w u by (cases f) simp
  have l': "unat (word_of_nat (length (f_raw f)) :: 64 word) = length (f_raw f)"
    using l by (simp add: unsigned_of_nat take_bit_eq_mod)
  have "parseField (encField f @ rest) = Inr (?f, rest)"
    unfolding parseField_def encField_def appendBytesField_def appendTag_def appendVarint_def using False
    by (simp add: uvarint_putUvarint tag_roundtrip [OF n, of 2, simplified] Let_def l')
  with f show ?thesis by simp
qed

lemma encField_nonempty [simp]: "encField f \<noteq> []"
  by (simp add: encField_def appendVarint_def appendTag_def appendBytesField_def Let_def)

interpretation wire: prefix_codec encField parseField wfField
  by standard (simp_all add: parseField_encField)

lemma parseFields_encField: "list_all wfField fs \<Longrightarrow> parseFields (concat (map encField fs)) = Inr fs"
  using wire.loop_decodes [of parseFieldsLoop fs "[]" "[]", OF parseFieldsLoop.simps]
  by (simp add: parseFields_def parseFieldsLoop.simps)

section \<open>What the encoders write, field by field\<close>

named_theorems wire_simps \<open>encoders as lists of fields\<close>

definition varintF :: "nat \<Rightarrow> 64 word \<Rightarrow> field" where
  "varintF n v = \<lparr>f_num = n, f_wire = 0, f_uvar = v, f_raw = []\<rparr>"

definition bytesF :: "nat \<Rightarrow> bytes \<Rightarrow> field" where
  "bytesF n b = \<lparr>f_num = n, f_wire = 2, f_uvar = 0, f_raw = b\<rparr>"

definition strF :: "nat \<Rightarrow> string \<Rightarrow> field list" where
  "strF n s = (if s = [] then [] else [bytesF n (bytes_of s)])"

definition intF :: "nat \<Rightarrow> 32 word \<Rightarrow> field list" where
  "intF n v = (if v = 0 then [] else [varintF n (ucast v)])"

definition msgF :: "nat \<Rightarrow> bytes \<Rightarrow> field list" where
  "msgF n m = (if m = [] then [] else [bytesF n m])"

definition encFields :: "field list \<Rightarrow> bytes" where
  "encFields fs = concat (map encField fs)"

definition chatMessageFields :: "ChatMessage \<Rightarrow> field list" where
  "chatMessageFields m =
     strF 1 (cm_Content m) @ intF 2 (cm_Role m) @ strF 13 (cm_MessageID m) @
     strF 32 (cm_SummaryID m) @ intF 47 (cm_ChatModeEnum m)"

definition messageIDRefFields :: "MessageIDRef \<Rightarrow> field list" where
  "messageIDRefFields m = strF 1 (mr_MessageID m) @ strF 2 (mr_SummaryID m) @ intF 3 (mr_Role m)"

definition requestFields :: "ChatRequest \<Rightarrow> field list" where
  "requestFields r =
     concat (map (\<lambda>m. msgF 1 (encFields (chatMessageFields m))) (cr_Messages r)) @
     intF 2 (cr_Unknown2 r) @ msgF 3 (encFields (strF 1 (cr_Instruction r))) @
     intF 4 (cr_Unknown4 r) @ [bytesF 5 (encFields (strF 1 (cr_ModelName r) @ [bytesF 4 []]))] @
     strF 8 (cr_WebTool r) @ intF 13 (cr_Unknown13 r) @ [bytesF 15 cursorSetting] @
     intF 19 (cr_Unknown19 r) @ strF 23 (cr_ConversationID r) @
     msgF 26 (encodeRequestMetadata (cr_Metadata r)) @ intF 27 (cr_Unknown27 r) @
     concat (map (\<lambda>m. msgF 30 (encFields (messageIDRefFields m))) (cr_MessageIDs r)) @
     intF 35 (cr_LargeContext r) @ intF 38 (cr_Unknown38 r) @ intF 46 (cr_ChatModeEnum r) @
     strF 47 (cr_Unknown47 r) @ intF 48 (cr_Unknown48 r) @ intF 49 (cr_Unknown49 r) @
     intF 51 (cr_Unknown51 r) @ intF 53 (cr_Unknown53 r) @ strF 54 (cr_ChatMode r)"

lemma encFields_simps [simp]:
  "encFields [] = []" "encFields (f # fs) = encField f @ encFields fs"
  "encFields (fs @ gs) = encFields fs @ encFields gs" "encFields fs = [] \<longleftrightarrow> fs = []"
  by (simp_all add: encFields_def)

lemma appendBytesField_wire [wire_simps]: "appendBytesField b n m = b @ encFields [bytesF n m]"
  by (simp add: appendBytesField_def bytesF_def encField_def appendTag_def appendVarint_def Let_def)

lemma appendString_wire [wire_simps]: "appendString b n s = b @ encFields (strF n s)"
  by (simp add: appendString_def strF_def bytesF_def encField_def appendTag_def appendVarint_def
      appendBytesField_def Let_def)

lemma appendInt32_wire [wire_simps]: "appendInt32 b n v = b @ encFields (intF n v)"
  by (simp add: appendInt32_def intF_def varintF_def encField_def appendTag_def appendVarint_def Let_def)

lemma appendMessage_wire [wire_simps]: "appendMessage b n (built m) = b @ encFields (msgF n m)"
  by (simp add: appendMessage_def built_def msgF_def bytesF_def encField_def appendTag_def
      appendVarint_def appendBytesField_def Let_def)

lemma appendMessages_wire [wire_simps]:
  "appendMessages b n ms = b @ encFields (concat (map (msgF n) ms))"
  by (induction ms arbitrary: b) (simp_all add: appendMessage_wire)

lemma encodeChatMessage_wire: "encodeChatMessage m = encFields (chatMessageFields m)"
  by (simp add: encodeChatMessage_def chatMessageFields_def Let_def wire_simps)

lemma encodeMessageIDRef_wire: "encodeMessageIDRef m = encFields (messageIDRefFields m)"
  by (simp add: encodeMessageIDRef_def messageIDRefFields_def Let_def wire_simps)

lemma cursorSetting_nonempty [simp]: "cursorSetting \<noteq> []"
  by (simp add: cursorSetting_def Let_def wire_simps)

lemma msgF_nonempty: "m \<noteq> [] \<Longrightarrow> msgF n m = [bytesF n m]"
  by (simp add: msgF_def)

lemma msgF_Nil [simp]: "msgF n [] = []"
  by (simp add: msgF_def)

lemma strF_Nil [simp]: "strF n [] = []"
  by (simp add: strF_def)

lemma encodeChatRequest_wire: "encodeChatRequest r = encFields (requestFields r)"
  by (simp add: encodeChatRequest_def requestFields_def Let_def wire_simps encodeChatMessage_wire
      encodeMessageIDRef_wire msgF_nonempty comp_def)

text \<open>Below 2 to the 64 bytes in all, every field is one the parser takes back.\<close>

definition shaped :: "field \<Rightarrow> bool" where
  "shaped f \<longleftrightarrow> f_num f < 2 ^ 29 \<and> (f_wire f = 0 \<and> f_raw f = [] \<or> f_wire f = 2 \<and> f_uvar f = 0)"

lemma length_f_raw_le: "length (f_raw f) \<le> length (encField f)" if "shaped f"
  using that by (auto simp: shaped_def encField_def appendBytesField_def Let_def)

lemma wfField_if_short:
  "list_all shaped fs \<Longrightarrow> length (encFields fs) < 2 ^ 64 \<Longrightarrow> list_all wfField fs"
proof (induction fs)
  case (Cons f fs)
  then have "length (f_raw f) < 2 ^ 64" using length_f_raw_le [of f] by simp
  with Cons show ?case by (auto simp: wfField_def shaped_def)
qed simp

lemma parseFields_encFields:
  assumes "list_all shaped fs" "length (encFields fs) < 2 ^ 64"
  shows "parseFields (encFields fs) = Inr fs"
  using parseFields_encField [OF wfField_if_short [OF assms]] by (simp add: encFields_def)

lemma shaped_simps [simp]:
  "n < 2 ^ 29 \<Longrightarrow> shaped (bytesF n b)" "n < 2 ^ 29 \<Longrightarrow> shaped (varintF n v)"
  "n < 2 ^ 29 \<Longrightarrow> list_all shaped (strF n s)" "n < 2 ^ 29 \<Longrightarrow> list_all shaped (intF n i)"
  "n < 2 ^ 29 \<Longrightarrow> list_all shaped (msgF n b)"
  by (simp_all add: shaped_def bytesF_def varintF_def strF_def intF_def msgF_def)

lemma shaped_concat [simp]:
  "n < 2 ^ 29 \<Longrightarrow> list_all shaped (concat (map (\<lambda>m. msgF n (g m)) ms))"
  by (induction ms) simp_all

lemma shaped_requestFields: "list_all shaped (requestFields r)"
  by (simp add: requestFields_def)

lemma shaped_chatMessageFields: "list_all shaped (chatMessageFields m)"
  by (simp add: chatMessageFields_def)

lemma requestFields_nonempty [simp]: "requestFields r \<noteq> []"
  by (simp add: requestFields_def)

lemma length_chatMessage_le:
  assumes "m \<in> set (cr_Messages r)"
  shows "length (encodeChatMessage m) \<le> length (encodeChatRequest r)"
proof -
  have m: "length (encodeChatMessage m) \<le>
      length (encFields (concat (map (\<lambda>m. msgF 1 (encFields (chatMessageFields m))) ms)))"
    if "m \<in> set ms" for ms
    using that
  proof (induction ms)
    case (Cons x xs)
    show ?case
    proof (cases "m = x")
      case True
      have "length (encFields (chatMessageFields m)) \<le> length (encFields (msgF 1 (encFields (chatMessageFields m))))"
        using length_f_raw_le [OF shaped_simps(1), of 1 "encFields (chatMessageFields m)"]
        by (simp add: msgF_def) (simp add: bytesF_def)
      with True show ?thesis by (simp add: encodeChatMessage_wire)
    next
      case False
      with Cons show ?thesis by simp
    qed
  qed simp
  show ?thesis
    unfolding encodeChatRequest_wire requestFields_def using m [OF assms] by simp
qed


section \<open>Truncated input\<close>

lemma uvarintLoop_incomplete:
  "list_all (\<lambda>b. \<not> b < 0x80) bs \<Longrightarrow> i + length bs \<le> 10 \<Longrightarrow> uvarintLoop bs i x s = (0, 0)"
  by (induction bs arbitrary: i x s) auto

lemma putUvarint_snoc: "\<exists>bs b. putUvarint v = bs @ [b] \<and> list_all (\<lambda>b. \<not> b < 0x80) bs"
proof (induction v rule: putUvarint.induct)
  case (1 v)
  show ?case
  proof (cases "v < 0x80")
    case True
    then show ?thesis by (auto simp: putUvarint.simps [of v])
  next
    case False
    with 1 obtain bs b where
      "putUvarint (drop_bit 7 v) = bs @ [b]" "list_all (\<lambda>b. \<not> b < 0x80) bs" by blast
    with False have "putUvarint v = ((ucast v OR 0x80) # bs) @ [b] \<and>
        list_all (\<lambda>b. \<not> b < 0x80) ((ucast v OR 0x80) # bs)"
      by (simp add: putUvarint.simps [of v] cont_byte)
    then show ?thesis by blast
  qed
qed

lemma length_putUvarint: "unat v < 2 ^ (7 * j) \<Longrightarrow> 0 < j \<Longrightarrow> length (putUvarint v) \<le> j"
proof (induction v arbitrary: j rule: putUvarint.induct)
  case (1 v)
  show ?case
  proof (cases "v < 0x80")
    case True
    with "1.prems" show ?thesis by (simp add: putUvarint.simps [of v])
  next
    case False
    then have v: "128 \<le> unat v" by (simp add: word_less_nat_alt)
    obtain j' where j: "j = Suc j'" using "1.prems"(2) by (cases j) auto
    have "unat v < 2 ^ 7 * 2 ^ (7 * j')" using "1.prems"(1) unfolding j by (simp add: power_add)
    then have d: "unat (drop_bit 7 v) < 2 ^ (7 * j')"
      by (simp add: drop_bit_eq_div unat_div less_mult_imp_div_less mult.commute)
    have "0 < j'" using v "1.prems"(1) j by (cases j') auto
    with 1(1) [OF False d] False j show ?thesis by (simp add: putUvarint.simps [of v])
  qed
qed

lemma uvarint_truncated:
  assumes "k < length (putUvarint v)"
  shows "uvarint (take k (putUvarint v)) = (0, 0)"
proof -
  obtain bs b where p: "putUvarint v = bs @ [b]" "list_all (\<lambda>b. \<not> b < 0x80) bs"
    using putUvarint_snoc by blast
  have "length (putUvarint v) \<le> 10" using length_putUvarint [of v 10] unsigned_less [of v, where 'a = nat] by simp
  with p assms have "take k (putUvarint v) = take k bs" "length (take k bs) \<le> 10" by auto
  moreover have "list_all (\<lambda>b. \<not> b < 0x80) (take k bs)" using p(2) by (auto simp: list_all_iff dest: in_set_takeD)
  ultimately show ?thesis by (simp add: uvarint_def uvarintLoop_incomplete)
qed

lemma take_append_cases:
  assumes "k < length (a @ b)"
  obtains "k < length a" "take k (a @ b) = take k a"
  | j where "k = length a + j" "j < length b" "take k (a @ b) = a @ take j b"
proof (cases "k < length a")
  case True
  then show ?thesis using that(1) by simp
next
  case False
  then have "k = length a + (k - length a)" by simp
  with assms show ?thesis using that(2) [of "k - length a"] by simp
qed

lemma parseField_truncated:
  assumes wf: "wfField f" and k: "k < length (encField f)"
  shows "\<exists>e. parseField (take k (encField f)) = Inl e"
proof -
  define tag where "tag = (push_bit 3 (word_of_nat (f_num f)) OR word_of_nat (f_wire f) :: 64 word)"
  define val where "val = (if f_wire f = 0 then f_uvar f else word_of_nat (length (f_raw f)))"
  have n: "f_num f < 2 ^ 29" and w: "f_wire f = 0 \<and> f_raw f = [] \<or> f_wire f = 2 \<and> length (f_raw f) < 2 ^ 64"
    using wf by (auto simp: wfField_def)
  have e: "encField f = putUvarint tag @ putUvarint val @ f_raw f"
    using w by (auto simp: encField_def tag_def val_def appendVarint_def appendTag_def appendBytesField_def Let_def)
  have t: "unat (tag AND 7) = f_wire f" using w tag_roundtrip(2) [OF n, of "f_wire f"] unfolding tag_def by auto
  from k consider (tag) "k < length (putUvarint tag)" "take k (encField f) = take k (putUvarint tag)"
    | (val) j where "j < length (putUvarint val)" "take k (encField f) = putUvarint tag @ take j (putUvarint val)"
    | (raw) j where "j < length (f_raw f)" "take k (encField f) = putUvarint tag @ putUvarint val @ take j (f_raw f)"
    unfolding e by (metis take_append_cases)
  then show ?thesis
  proof cases
    case tag
    then show ?thesis by (simp add: parseField_def uvarint_truncated)
  next
    case val
    then show ?thesis
      using t w by (auto simp: parseField_def Let_def uvarint_putUvarint uvarint_truncated)
  next
    case raw
    then have r: "f_wire f = 2" "length (f_raw f) < 2 ^ 64" using w by auto
    then have "unat val = length (f_raw f)" by (simp add: val_def unsigned_of_nat take_bit_eq_mod)
    with raw r t show ?thesis by (auto simp: parseField_def Let_def uvarint_putUvarint)
  qed
qed

section \<open>Bounds\<close>

lemma parseField_raw: "parseField data = Inr (f, rest) \<Longrightarrow> length (f_raw f) + length rest < length data"
proof -
  assume p: "parseField data = Inr (f, rest)"
  obtain tag n where t: "uvarint data = (tag, n)" by fastforce
  with p have "0 < n" by (auto simp: parseField_def split: if_splits)
  moreover have "n \<le> int (length data)" using uvarint_consumed t by blast
  ultimately have "length (drop (nat n) data) < length data" by simp
  with p t show ?thesis
    by (auto simp: parseField_def Let_def split: if_splits prod.splits)
qed

lemma parseFieldsLoop_raw:
  "parseFieldsLoop out data = Inr fs \<Longrightarrow>
   \<exists>gs. fs = out @ gs \<and> sum_list (map (\<lambda>f. Suc (length (f_raw f))) gs) \<le> length data"
proof (induction out data arbitrary: fs rule: parseFieldsLoop.induct)
  case (1 out data)
  show ?case
  proof (cases "data = []")
    case True
    with "1.prems" show ?thesis by (simp add: parseFieldsLoop.simps)
  next
    case False
    then obtain f rest where p: "parseField data = Inr (f, rest)"
      and l: "parseFieldsLoop (out @ [f]) rest = Inr fs"
      using "1.prems" by (auto simp: parseFieldsLoop.simps [of out data] split: sum.splits)
    from "1.IH" [OF False p refl l] obtain gs where
      gs: "fs = (out @ [f]) @ gs" "sum_list (map (\<lambda>f. Suc (length (f_raw f))) gs) \<le> length rest"
      by blast
    then have "fs = out @ (f # gs) \<and> sum_list (map (\<lambda>f. Suc (length (f_raw f))) (f # gs)) \<le> length data"
      using parseField_raw [OF p] by simp
    then show ?thesis by blast
  qed
qed

lemma length_putUvarint_le [simp]: "length (putUvarint v) \<le> 10"
  using length_putUvarint [of v 10] unsigned_less [of v, where 'a = nat] by simp

lemma length_encField_bytesF: "length (encField (bytesF n b)) \<le> 20 + length b"
  using length_putUvarint_le [of "push_bit 3 (word_of_nat n) OR 2"]
    length_putUvarint_le [of "word_of_nat (length b)"]
  by (simp add: encField_def bytesF_def appendBytesField_def appendTag_def appendVarint_def Let_def
      del: length_putUvarint_le)

lemma length_encFields_intF: "length (encFields (intF n v)) \<le> 20"
  using length_putUvarint_le [of "push_bit 3 (word_of_nat n)"] length_putUvarint_le [of "ucast v"]
  by (simp add: intF_def varintF_def encField_def appendTag_def appendVarint_def Let_def
      del: length_putUvarint_le)

lemma field_of_bytesF [simp]:
  "f_num (bytesF n b) = n" "f_wire (bytesF n b) = 2" "f_uvar (bytesF n b) = 0" "f_raw (bytesF n b) = b"
  by (simp_all add: bytesF_def)

lemma length_encFields_strF: "length (encFields (strF n s)) \<le> 20 + length s"
  using length_encField_bytesF [of n "bytes_of s"] by (simp add: strF_def)

lemma length_encFields_msgF: "length (encFields (msgF n b)) \<le> 20 + length b"
  using length_encField_bytesF [of n b] by (simp add: msgF_def)

lemma length_chatMessage:
  "length (encFields (chatMessageFields m)) \<le>
     100 + length (cm_Content m) + length (cm_MessageID m) + length (cm_SummaryID m)"
  using length_encFields_strF [of 1 "cm_Content m"] length_encFields_intF [of 2 "cm_Role m"]
    length_encFields_strF [of 13 "cm_MessageID m"] length_encFields_strF [of 32 "cm_SummaryID m"]
    length_encFields_intF [of 47 "cm_ChatModeEnum m"]
  by (simp add: chatMessageFields_def)

lemma length_messageIDRef:
  "length (encFields (messageIDRefFields m)) \<le> 60 + length (mr_MessageID m) + length (mr_SummaryID m)"
  using length_encFields_strF [of 1 "mr_MessageID m"] length_encFields_strF [of 2 "mr_SummaryID m"]
    length_encFields_intF [of 3 "mr_Role m"]
  by (simp add: messageIDRefFields_def)

lemma length_requestMetadata:
  "length (encodeRequestMetadata om) \<le> (case om of None \<Rightarrow> 0 | Some m \<Rightarrow> 100 + length (rm_OS m) +
     length (rm_Arch m) + length (rm_Version m) + length (rm_Path m) + length (rm_Timestamp m))"
proof (cases om)
  case (Some m)
  then show ?thesis
    using length_encFields_strF [of 1 "rm_OS m"] length_encFields_strF [of 2 "rm_Arch m"]
      length_encFields_strF [of 3 "rm_Version m"] length_encFields_strF [of 4 "rm_Path m"]
      length_encFields_strF [of 5 "rm_Timestamp m"]
    by (simp add: encodeRequestMetadata_def Let_def wire_simps)
qed (simp add: encodeRequestMetadata_def)

lemma length_encFields_msgs:
  assumes "\<And>m. length (g m) \<le> bound m"
  shows "length (encFields (concat (map (\<lambda>m. msgF n (g m)) ms))) \<le> sum_list (map (\<lambda>m. 20 + bound m) ms)"
proof (induction ms)
  case (Cons m ms)
  then show ?case using length_encFields_msgF [of n "g m"] assms [of m] by simp
qed simp

lemma cursorSetting_short: "length cursorSetting \<le> 300"
  unfolding cursorSetting_def Let_def wire_simps encFields_simps length_append
  using length_encFields_strF [of 1 "''cursor'' @ [CHR 0x5C] @ ''aisettings''"]
    length_encField_bytesF [of 3 "[]"] length_encField_bytesF [of 1 "[]"] length_encField_bytesF [of 2 "[]"]
    length_encFields_msgF [of 6 "([] @ encField (bytesF 1 []) @ []) @ encField (bytesF 2 []) @ []"]
    length_encFields_intF [of 8 1] length_encFields_intF [of 9 1]
  by simp

text \<open>The size of a request, in terms of the strings that go into it.\<close>

lemma length_encodeChatRequest:
  "length (encodeChatRequest r) \<le>
     1000 + length (cr_Instruction r) + length (cr_ModelName r) + length (cr_WebTool r) +
     length (cr_ConversationID r) + length (cr_Unknown47 r) + length (cr_ChatMode r) +
     length (encodeRequestMetadata (cr_Metadata r)) +
     sum_list (map (\<lambda>m. 20 + (100 + length (cm_Content m) + length (cm_MessageID m) + length (cm_SummaryID m)))
       (cr_Messages r)) +
     sum_list (map (\<lambda>m. 20 + (60 + length (mr_MessageID m) + length (mr_SummaryID m))) (cr_MessageIDs r))"
proof -
  have model: "length (encField (bytesF 5 (encFields (strF 1 (cr_ModelName r)) @ encField (bytesF 4 [])))) \<le>
      60 + length (cr_ModelName r)"
    using length_encField_bytesF [of 5 "encFields (strF 1 (cr_ModelName r)) @ encField (bytesF 4 [])"]
      length_encFields_strF [of 1 "cr_ModelName r"] length_encField_bytesF [of 4 "[]"] by simp
  have instr: "length (encFields (msgF 3 (encFields (strF 1 (cr_Instruction r))))) \<le> 40 + length (cr_Instruction r)"
    using length_encFields_msgF [of 3 "encFields (strF 1 (cr_Instruction r))"]
      length_encFields_strF [of 1 "cr_Instruction r"] by simp
  have setting: "length (encField (bytesF 15 cursorSetting)) \<le> 320"
    using length_encField_bytesF [of 15 cursorSetting] cursorSetting_short by simp
  note parts = model instr setting length_encFields_intF [of 2 "cr_Unknown2 r"]
    length_encFields_intF [of 4 "cr_Unknown4 r"] length_encFields_strF [of 8 "cr_WebTool r"]
    length_encFields_intF [of 13 "cr_Unknown13 r"] length_encFields_intF [of 19 "cr_Unknown19 r"]
    length_encFields_strF [of 23 "cr_ConversationID r"]
    length_encFields_msgF [of 26 "encodeRequestMetadata (cr_Metadata r)"]
    length_encFields_intF [of 27 "cr_Unknown27 r"] length_encFields_intF [of 35 "cr_LargeContext r"]
    length_encFields_intF [of 38 "cr_Unknown38 r"] length_encFields_intF [of 46 "cr_ChatModeEnum r"]
    length_encFields_strF [of 47 "cr_Unknown47 r"] length_encFields_intF [of 48 "cr_Unknown48 r"]
    length_encFields_intF [of 49 "cr_Unknown49 r"] length_encFields_intF [of 51 "cr_Unknown51 r"]
    length_encFields_intF [of 53 "cr_Unknown53 r"] length_encFields_strF [of 54 "cr_ChatMode r"]
    length_encFields_msgs [of "\<lambda>m. encFields (chatMessageFields m)", OF length_chatMessage, of 1 "cr_Messages r"]
    length_encFields_msgs [of "\<lambda>m. encFields (messageIDRefFields m)", OF length_messageIDRef, of 30 "cr_MessageIDs r"]
  show ?thesis
    unfolding encodeChatRequest_wire requestFields_def encFields_simps append_Nil2 length_append list.size
    using parts by linarith
qed

section \<open>Properties\<close>


lemma decode_response:
  assumes "length content + length thinking < 2 ^ 32"
  shows "DecodeStreamUnifiedChatResponse
      (encFields (msgF 2 (encFields (strF 1 content @ msgF 25 (encFields (strF 1 thinking)))))) =
    Inr \<lparr>ch_Content = content, ch_Thinking = thinking\<rparr>"
proof -
  define th where "th = encFields (strF 1 thinking)"
  define ms where "ms = strF 1 content @ msgF 25 th"
  have lt: "length th \<le> 20 + length thinking"
    using length_encFields_strF [of 1 thinking] by (simp add: th_def)
  have lm: "length (encFields ms) \<le> 60 + length content + length thinking"
    using length_encFields_strF [of 1 content] length_encFields_msgF [of 25 th] lt by (simp add: ms_def)
  have pt: "parseFields th = Inr (strF 1 thinking)"
    unfolding th_def by (rule parseFields_encFields) (use lt assms th_def in simp_all)
  have pm: "parseFields (encFields ms) = Inr ms"
    by (rule parseFields_encFields) (use lm assms in \<open>simp_all add: ms_def\<close>)
  have pr: "parseFields (encFields (msgF 2 (encFields ms))) = Inr (msgF 2 (encFields ms))"
    by (rule parseFields_encFields)
      (use lm assms length_encFields_msgF [of 2 "encFields ms"] in simp_all)
  have tf: "thinkingFields (strF 1 thinking) out = (if thinking = [] then out else out\<lparr>ch_Thinking := thinking\<rparr>)" for out
    by (simp add: strF_def bytesF_def)
  have mf: "messageFields ms \<lparr>ch_Content = [], ch_Thinking = []\<rparr> = \<lparr>ch_Content = content, ch_Thinking = thinking\<rparr>"
    using pt tf by (auto simp: ms_def strF_def msgF_def bytesF_def th_def)
  have "responseFields (msgF 2 (encFields ms)) \<lparr>ch_Content = [], ch_Thinking = []\<rparr> =
      Inr \<lparr>ch_Content = content, ch_Thinking = thinking\<rparr>"
    using pm mf by (cases "ms = []") (simp_all add: msgF_def bytesF_def)
  with pr show ?thesis
    by (simp add: DecodeStreamUnifiedChatResponse_def ms_def th_def)
qed

text \<open>
  A response chunk is decoded to the content and the thinking text that were encoded into it
  (message in field 2, content in its field 1, thinking in field 1 of its field 25), whichever of
  the two is empty.
\<close>

lemma chat_response_roundtrip:
  assumes "length content + length thinking < 2 ^ 32"
  shows "DecodeStreamUnifiedChatResponse
      (appendMessage [] 2 (built (appendMessage (appendString [] 1 content) 25
         (built (appendString [] 1 thinking))))) =
    Inr \<lparr>ch_Content = content, ch_Thinking = thinking\<rparr>"
  using decode_response [OF assms] by (simp add: wire_simps)

text \<open>
  C0: the model list decoded from an \<open>AvailableModelsResponse\<close> is the list of (non-empty) names
  that were encoded, in order.
\<close>

theorem available_models_roundtrip:
  assumes "sum_list (map (\<lambda>n. 40 + length n) names) < 2 ^ 64"
  shows "DecodeAvailableModels (appendMessages [] 2 (map (appendString [] 1) names)) =
    Inr (filter (\<lambda>n. n \<noteq> []) names)"
proof -
  let ?fs = "concat (map (\<lambda>n. msgF 2 (encFields (strF 1 n))) names)"
  have one: "length (encFields (msgF 2 (encFields (strF 1 n)))) \<le> 40 + length n" for n
    using length_encFields_msgF [of 2 "encFields (strF 1 n)"] length_encFields_strF [of 1 n] by simp
  have "length (encFields (concat (map (\<lambda>n. msgF 2 (encFields (strF 1 n))) ns)))
      \<le> sum_list (map (\<lambda>n. 40 + length n) ns)" for ns
  proof (induction ns)
    case (Cons n ns)
    then show ?case using one [of n] by simp
  qed simp
  then have p: "parseFields (encFields ?fs) = Inr ?fs"
    using assms by (intro parseFields_encFields) (auto intro: le_less_trans)
  have sub: "parseFields (encFields (strF 1 n)) = Inr (strF 1 n)" if "n \<in> set names" for n
  proof (rule parseFields_encFields)
    have "40 + length n \<le> sum_list (map (\<lambda>n. 40 + length n) names)"
      using that by (intro member_le_sum_list) auto
    then show "length (encFields (strF 1 n)) < 2 ^ 64"
      using length_encFields_strF [of 1 n] assms by linarith
  qed simp
  have "concat (map modelNamesOf (msgF 2 (encFields (strF 1 n)))) = (if n = [] then [] else [n])"
    if "n \<in> set names" for n
    using sub [OF that] by (cases "n = []") (simp_all add: msgF_def modelNamesOf_def strF_def)
  then have "concat (map modelNamesOf ?fs) = filter (\<lambda>n. n \<noteq> []) names"
    by (induction names) auto
  with p show ?thesis
    by (simp add: DecodeAvailableModels_def wire_simps comp_def)
qed

text \<open>
  A message cut off inside a field is an error: after any number of whole fields, a proper
  non-empty prefix of the next one never parses.
\<close>

lemma truncated_message_rejected:
  assumes "list_all wfField fs" "wfField f" "0 < k" "k < length (encField f)"
  shows "\<exists>e. parseFields (encFields fs @ take k (encField f)) = Inl e"
proof -
  obtain e where e: "parseField (take k (encField f)) = Inl e"
    using parseField_truncated assms(2,4) by blast
  have "parseFields (encFields fs @ take k (encField f)) = parseFieldsLoop fs (take k (encField f))"
    using wire.loop_decodes [of parseFieldsLoop fs "[]", OF parseFieldsLoop.simps assms(1)]
    by (simp add: parseFields_def encFields_def)
  also have "\<dots> = Inl e" using e assms(3) by (subst parseFieldsLoop.simps) simp
  finally show ?thesis by blast
qed

text \<open>
  C0: what the parser returns lies within the input: the payloads of the parsed fields and one
  byte of tag for each of them are together no longer than the data, so a length prefix can never
  make the parser read or allocate past its input.
\<close>

theorem parse_fields_bounded:
  assumes "parseFields data = Inr fs"
  shows "sum_list (map (\<lambda>f. Suc (length (f_raw f))) fs) \<le> length data"
  using parseFieldsLoop_raw [of "[]" data fs] assms by (simp add: parseFields_def)

section \<open>Witnesses\<close>

definition sample_message :: ChatMessage where
  "sample_message = \<lparr>cm_Content = ''hi'', cm_Role = 1, cm_MessageID = ''id'', cm_ChatModeEnum = 1,
     cm_SummaryID = []\<rparr>"

definition sample_request :: ChatRequest where
  "sample_request = \<lparr>cr_Messages = [sample_message], cr_Unknown2 = 1, cr_Instruction = ''be brief'',
     cr_Unknown4 = 1, cr_ModelName = ''m'', cr_WebTool = [], cr_Unknown13 = 1, cr_Unknown19 = 1,
     cr_ConversationID = ''c'', cr_Metadata = None, cr_Unknown27 = 0, cr_MessageIDs = [],
     cr_LargeContext = 0, cr_Unknown38 = 0, cr_ChatModeEnum = 1, cr_Unknown47 = [], cr_Unknown48 = 0,
     cr_Unknown49 = 0, cr_Unknown51 = 0, cr_Unknown53 = 1, cr_ChatMode = ''Ask''\<rparr>"

lemma sample_request_short: "length (encodeChatRequest sample_request) < 2 ^ 64"
  using length_encodeChatRequest [of sample_request]
  by (simp add: sample_request_def sample_message_def encodeRequestMetadata_def)


theorem available_models_roundtrip_witness:
  "DecodeAvailableModels (appendMessages [] 2 (map (appendString [] 1) [''m1'', [], ''m2''])) =
    Inr [''m1'', ''m2'']"
  using available_models_roundtrip [of "[''m1'', [], ''m2'']"] by simp

theorem parse_fields_bounded_witness:
  "sum_list (map (\<lambda>f. Suc (length (f_raw f))) [bytesF 1 (bytes_of ''hi'')])
    \<le> length (encFields [bytesF 1 (bytes_of ''hi'')])"
proof (rule parse_fields_bounded, rule parseFields_encFields)
  show "length (encFields [bytesF 1 (bytes_of ''hi'')]) < 2 ^ 64"
    using length_encField_bytesF [of 1 "bytes_of ''hi''"] by simp
qed simp

end
