(* ===== verification/Connect.thy ===== *)
theory Connect
  imports Protobuf
begin

text \<open>
  The Connect-RPC layer of the Cursor bridge: the request body and the frame parsers of
  \<open>src/pkg/cursor/body.go\<close>, and \<open>readFrames\<close> of \<open>src/pkg/cursor/server.go\<close>, which reads the
  same frames off a connection.  The compressor (\<open>gzip\<close>, \<open>gunzip\<close>), the JSON decoder, the
  generator of UUIDs and the formatted clock are arguments.
\<close>

section \<open>Messages\<close>

record OpenAIContent =
  oc_Type :: string
  oc_Text :: string

record MessageContent =
  mc_Text :: string
  mc_Parts :: "OpenAIContent list option"

record OpenAIMessage =
  om_Role :: string
  om_Content :: MessageContent

datatype content_error = BadJSON string | UnsupportedContent byte

fun joinTexts :: "OpenAIContent list \<Rightarrow> string \<Rightarrow> string" where
  "joinTexts [] b = b"
| "joinTexts (p # ps) b =
     (if oc_Text p = [] then joinTexts ps b
      else joinTexts ps ((if b \<noteq> [] then b @ [CHR 0x0A] else b) @ oc_Text p))"

text \<open>
  \<open>UnmarshalJSON\<close> returns the content it leaves in the receiver and its error; \<open>jstr\<close> and
  \<open>jparts\<close> are \<open>json.Unmarshal\<close> into a string and into a slice of parts.
\<close>

definition UnmarshalJSON :: "(bytes \<Rightarrow> string + string) \<Rightarrow> (bytes \<Rightarrow> string + OpenAIContent list option) \<Rightarrow>
    bytes \<Rightarrow> content_error + MessageContent" where
  "UnmarshalJSON jstr jparts data0 =
     (let data = bytes_of (trimSpace (string_of data0));
          c = \<lparr>mc_Text = [], mc_Parts = None\<rparr>
      in
      if data = [] \<or> data = bytes_of ''null'' then Inr c
      else if hd data = byte_of (CHR 0x22) then
        (case jstr data of Inl e \<Rightarrow> Inl (BadJSON e) | Inr s \<Rightarrow> Inr (c\<lparr>mc_Text := s\<rparr>))
      else if hd data = byte_of (CHR ''['') then
        (case jparts data of
           Inl e \<Rightarrow> Inl (BadJSON e)
         | Inr ps \<Rightarrow> Inr \<lparr>mc_Text = joinTexts (case ps of None \<Rightarrow> [] | Some l \<Rightarrow> l) [], mc_Parts = ps\<rparr>)
      else Inl (UnsupportedContent (hd data)))"

definition MarshalJSON :: "(string \<Rightarrow> bytes) \<Rightarrow> (OpenAIContent list \<Rightarrow> bytes) \<Rightarrow> MessageContent \<Rightarrow> bytes" where
  "MarshalJSON mstr mparts c =
     (case mc_Parts c of Some ps \<Rightarrow> mparts ps | None \<Rightarrow> mstr (mc_Text c))"

definition TextContent :: "string \<Rightarrow> MessageContent" where
  "TextContent text = \<lparr>mc_Text = text, mc_Parts = None\<rparr>"

section \<open>The request body\<close>

definition flagCompressed :: byte where "flagCompressed = 0x01"

definition flagEndStream :: byte where "flagEndStream = 0x02"

text \<open>The \<open>n\<close>-th identifier drawn while the body is built is \<open>uuid n\<close>.\<close>

fun formatMessages :: "(nat \<Rightarrow> string) \<Rightarrow> OpenAIMessage list \<Rightarrow> nat \<Rightarrow> string \<Rightarrow> ChatMessage list \<Rightarrow>
    string \<times> ChatMessage list \<times> nat" where
  "formatMessages uuid [] n instruction formatted = (instruction, formatted, n)"
| "formatMessages uuid (m # ms) n instruction formatted =
     (let text = mc_Text (om_Content m) in
      if om_Role m = ''system'' then
        formatMessages uuid ms n
          ((if instruction \<noteq> [] then instruction @ [CHR 0x0A] else instruction) @ text) formatted
      else
        let cm = \<lparr>cm_Content = text, cm_Role = 0, cm_MessageID = uuid n, cm_ChatModeEnum = 0,
                  cm_SummaryID = []\<rparr>;
            cm = (if om_Role m = ''user'' then cm\<lparr>cm_Role := 1, cm_ChatModeEnum := 1\<rparr>
                  else cm\<lparr>cm_Role := 2\<rparr>)
        in formatMessages uuid ms (Suc n) instruction (formatted @ [cm]))"

definition shellPath :: string where
  "shellPath = ''C:'' @ [CHR 0x5C] @ ''Program Files'' @ [CHR 0x5C] @ ''PowerShell'' @ [CHR 0x5C] @
     ''7'' @ [CHR 0x5C] @ ''pwsh.exe''"

definition chatRequest :: "(nat \<Rightarrow> string) \<Rightarrow> string \<Rightarrow> OpenAIMessage list \<Rightarrow> string \<Rightarrow> ChatRequest" where
  "chatRequest uuid stamp messages modelName =
     (let (instruction, formatted, n) = formatMessages uuid messages 0 [] [];
          refs = map (\<lambda>m. \<lparr>mr_MessageID = cm_MessageID m, mr_SummaryID = cm_SummaryID m,
                            mr_Role = cm_Role m\<rparr>) formatted
      in
      \<lparr>cr_Messages = formatted, cr_Unknown2 = 1, cr_Instruction = instruction, cr_Unknown4 = 1,
       cr_ModelName = modelName, cr_WebTool = [], cr_Unknown13 = 1, cr_Unknown19 = 1,
       cr_ConversationID = uuid n,
       cr_Metadata = Some \<lparr>rm_OS = ''win32'', rm_Arch = ''x64'', rm_Version = ''10.0.22631'',
         rm_Path = shellPath, rm_Timestamp = stamp\<rparr>,
       cr_Unknown27 = 0, cr_MessageIDs = refs, cr_LargeContext = 0, cr_Unknown38 = 0,
       cr_ChatModeEnum = 1, cr_Unknown47 = [], cr_Unknown48 = 0, cr_Unknown49 = 0,
       cr_Unknown51 = 0, cr_Unknown53 = 1, cr_ChatMode = ''Ask''\<rparr>)"

datatype body_error = EncodeFailed proto_error | GzipFailed string

definition GenerateChatBody :: "(bytes \<Rightarrow> string + bytes) \<Rightarrow> (nat \<Rightarrow> string) \<Rightarrow> string \<Rightarrow>
    OpenAIMessage list \<Rightarrow> string \<Rightarrow> body_error + bytes" where
  "GenerateChatBody gzip uuid stamp messages modelName =
     (let req = chatRequest uuid stamp messages modelName in
      case EncodeStreamUnifiedChatRequest (Some req) of
        Inl e \<Rightarrow> Inl (EncodeFailed e)
      | Inr payload0 \<Rightarrow>
         (case (if 3 \<le> length (cr_Messages req)
                then (case gzip payload0 of Inl e \<Rightarrow> Inl (GzipFailed e) | Inr z \<Rightarrow> Inr (0x01, z))
                else Inr (0x00, payload0)) of
            Inl e \<Rightarrow> Inl e
          | Inr (flag, payload) \<Rightarrow>
              Inr ([flag] @ putUint32 (word_of_nat (length payload)) @ payload)))"

section \<open>Errors carried by the stream\<close>

record StreamError =
  se_Code :: string
  se_Reason :: string
  se_Title :: string
  se_Detail :: string

definition reasonHint :: "string \<Rightarrow> string" where
  "reasonHint reason =
     (if reason = ''ERROR_GPT_4_VISION_PREVIEW_RATE_LIMIT''
      then ''(this bridge cannot drive Auto/composer-* models; use a named model)'' else [])"

definition StreamError_Error :: "StreamError \<Rightarrow> string" where
  "StreamError_Error e =
     (let parts = (if se_Reason e \<noteq> [] then [se_Reason e] else if se_Code e \<noteq> [] then [se_Code e] else []);
          parts = (if se_Detail e \<noteq> [] then parts @ [se_Detail e]
                   else if se_Title e \<noteq> [] then parts @ [se_Title e] else parts)
      in
      if parts = [] then ''cursor: stream failed''
      else
        let parts = (if reasonHint (se_Reason e) \<noteq> [] then parts @ [reasonHint (se_Reason e)] else parts)
        in ''cursor: '' @ join '': '' parts)"

record frameDebug =
  fd_Error :: string
  fd_Title :: string
  fd_Detail :: string

record frameError =
  fe_Code :: string
  fe_Message :: string
  fe_Details :: "frameDebug list"

text \<open>An \<open>endStreamFrame\<close> is its optional \<open>Error\<close>; \<open>js\<close> is \<open>json.Unmarshal\<close> into it.\<close>

type_synonym end_decoder = "bytes \<Rightarrow> string + frameError option"

definition parseEndStream :: "end_decoder \<Rightarrow> bytes \<Rightarrow> StreamError option" where
  "parseEndStream js payload =
     (if trimSpace (string_of payload) = [] then None
      else case js payload of
        Inl _ \<Rightarrow> Some \<lparr>se_Code = [], se_Reason = [], se_Title = [], se_Detail = string_of payload\<rparr>
      | Inr None \<Rightarrow> None
      | Inr (Some fe) \<Rightarrow>
         (let se = \<lparr>se_Code = fe_Code fe, se_Reason = [], se_Title = [], se_Detail = fe_Message fe\<rparr> in
          case fe_Details fe of
            [] \<Rightarrow> Some se
          | d # _ \<Rightarrow>
             (let se = se\<lparr>se_Reason := fd_Error d, se_Title := fd_Title d\<rparr> in
              Some (if fd_Detail d \<noteq> [] then se\<lparr>se_Detail := fd_Detail d\<rparr> else se))))"

section \<open>Frames\<close>

definition decodeFramePayload :: "(bytes \<Rightarrow> string + bytes) \<Rightarrow> byte \<Rightarrow> bytes \<Rightarrow> string + bytes" where
  "decodeFramePayload gunzip flag data =
     (if flag AND flagCompressed = 0 \<or> length data = 0 then Inr data else gunzip data)"

text \<open>The frame at the head of a chunk, when it is complete: its flag, its data, the rest.\<close>

definition takeFrame :: "bytes \<Rightarrow> unit + ((byte \<times> bytes) \<times> bytes)" where
  "takeFrame chunk =
     (case chunk of
        flag # a # b # c # d # rest \<Rightarrow>
          (let dataLen = unat (beUint32 a b c d) in
           if length rest < dataLen then Inl ()
           else Inr ((flag, take dataLen rest), drop dataLen rest))
      | _ \<Rightarrow> Inl ())"

lemma takeFrame_shrinks: "takeFrame chunk = Inr (fr, rest) \<Longrightarrow> length rest < length chunk"
  by (auto simp: takeFrame_def Let_def split: list.splits if_splits)

function parseChunkLoop :: "(bytes \<Rightarrow> string + bytes) \<Rightarrow> end_decoder \<Rightarrow> bytes \<Rightarrow> string \<Rightarrow> string \<Rightarrow>
    string \<times> string \<times> StreamError option" where
  "parseChunkLoop gunzip js chunk thinkingOut textOut =
     (case takeFrame chunk of
        Inl _ \<Rightarrow> (thinkingOut, textOut, None)
      | Inr ((flag, data), rest) \<Rightarrow>
         (case decodeFramePayload gunzip flag data of
            Inl _ \<Rightarrow> parseChunkLoop gunzip js rest thinkingOut textOut
          | Inr payload \<Rightarrow>
             if flag AND flagEndStream \<noteq> 0 then
               (case parseEndStream js payload of
                  Some serr \<Rightarrow> (thinkingOut, textOut, Some serr)
                | None \<Rightarrow> parseChunkLoop gunzip js rest thinkingOut textOut)
             else
               (case DecodeStreamUnifiedChatResponse payload of
                  Inl _ \<Rightarrow> parseChunkLoop gunzip js rest thinkingOut textOut
                | Inr resp \<Rightarrow> parseChunkLoop gunzip js rest
                    (thinkingOut @ ch_Thinking resp) (textOut @ ch_Content resp))))"
  by pat_completeness auto
termination
  by (relation "measure (\<lambda>(g, j, chunk, t, x). length chunk)") (auto dest: takeFrame_shrinks)

declare parseChunkLoop.simps [simp del]

definition ParseStreamChunk :: "(bytes \<Rightarrow> string + bytes) \<Rightarrow> end_decoder \<Rightarrow> bytes \<Rightarrow>
    string \<times> string \<times> StreamError option" where
  "ParseStreamChunk gunzip js chunk = parseChunkLoop gunzip js chunk [] []"

section \<open>Reading frames off a connection\<close>

datatype io_err = EOF | UnexpectedEOF | IOErr string

text \<open>
  A reader is the bytes it will still deliver and what it reports after them: \<open>None\<close> for the
  end of the stream, \<open>Some\<close> for an error of the connection.
\<close>

record reader =
  rd_data :: bytes
  rd_end :: "string option"

definition readFull :: "reader \<Rightarrow> nat \<Rightarrow> io_err + (bytes \<times> reader)" where
  "readFull r n =
     (if n \<le> length (rd_data r) then Inr (take n (rd_data r), r\<lparr>rd_data := drop n (rd_data r)\<rparr>)
      else case rd_end r of
        Some e \<Rightarrow> Inl (IOErr e)
      | None \<Rightarrow> Inl (if rd_data r = [] then EOF else UnexpectedEOF))"

definition maxFrameSize :: nat where "maxFrameSize = 32 * 2 ^ 20"

datatype stream_err =
    ErrStream StreamError
  | ErrIO io_err
  | FrameTooLarge nat
  | Decompress string

lemma readFull_shrinks: "readFull r n = Inr (b, r') \<Longrightarrow> length (rd_data r) = n + length (rd_data r')"
  by (auto simp: readFull_def split: if_splits option.splits)

text \<open>The result lists the calls of \<open>fn\<close> in order, and gives the error returned at the end.\<close>

function readFrames :: "(bytes \<Rightarrow> string + bytes) \<Rightarrow> end_decoder \<Rightarrow> reader \<Rightarrow>
    (string \<times> string) list \<times> stream_err option" where
  "readFrames gunzip js r =
     (case readFull r 5 of
        Inl e \<Rightarrow> ([], if e = EOF \<or> e = UnexpectedEOF then None else Some (ErrIO e))
      | Inr (header, r1) \<Rightarrow>
         (let flag = header ! 0;
              rawLen = unat (beUint32 (header ! 1) (header ! 2) (header ! 3) (header ! 4))
          in
          if maxFrameSize < rawLen then ([], Some (FrameTooLarge rawLen))
          else
           (case (if 0 < rawLen then readFull r1 rawLen else Inr ([], r1)) of
              Inl e \<Rightarrow> ([], Some (ErrIO e))
            | Inr (data, r2) \<Rightarrow>
               (case decodeFramePayload gunzip flag data of
                  Inl e \<Rightarrow> ([], Some (Decompress e))
                | Inr payload \<Rightarrow>
                   if flag AND flagEndStream \<noteq> 0 then
                     ([], map_option ErrStream (parseEndStream js payload))
                   else if length payload = 0 then readFrames gunzip js r2
                   else
                    (case DecodeStreamUnifiedChatResponse payload of
                       Inl _ \<Rightarrow> readFrames gunzip js r2
                     | Inr chunk \<Rightarrow>
                        (case readFrames gunzip js r2 of
                           (calls, err) \<Rightarrow> ((ch_Thinking chunk, ch_Content chunk) # calls, err)))))))"
  by pat_completeness auto
termination
  by (relation "measure (\<lambda>(g, j, r). length (rd_data r))")
    (auto dest!: readFull_shrinks split: if_splits)

declare readFrames.simps [simp del]

section \<open>Frames as a self-delimiting encoding\<close>

definition encFrame :: "byte \<times> bytes \<Rightarrow> bytes" where
  "encFrame fr = fst fr # putUint32 (word_of_nat (length (snd fr))) @ snd fr"

lemma encFrame_bytes:
  "encFrame (flag, p) = flag # ucast (drop_bit 24 (word_of_nat (length p) :: 32 word)) #
     ucast (drop_bit 16 (word_of_nat (length p) :: 32 word)) #
     ucast (drop_bit 8 (word_of_nat (length p) :: 32 word)) # ucast (word_of_nat (length p) :: 32 word) # p"
  by (simp add: encFrame_def putUint32_def)

lemma unat_length32: "n < 2 ^ 32 \<Longrightarrow> unat (word_of_nat n :: 32 word) = n"
  by (simp add: unsigned_of_nat take_bit_eq_mod)

lemma takeFrame_encFrame:
  "length (snd fr) < 2 ^ 32 \<Longrightarrow> takeFrame (encFrame fr @ rest) = Inr (fr, rest)"
  by (cases fr) (simp add: encFrame_bytes takeFrame_def beUint32_putUint32 unat_length32 Let_def
      del: of_nat_numeral)

interpretation frames: prefix_codec encFrame takeFrame "\<lambda>fr. length (snd fr) < 2 ^ 32"
  proof
  show "encFrame a \<noteq> []" for a by (simp add: encFrame_def)
qed (rule takeFrame_encFrame)

lemma length_encFrame [simp]: "length (encFrame fr) = 5 + length (snd fr)"
  by (simp add: encFrame_def)

lemma takeFrame_Nil [simp]: "takeFrame [] = Inl ()"
  by (simp add: takeFrame_def)

section \<open>One frame of a connection\<close>

definition source :: "bytes \<Rightarrow> string option \<Rightarrow> reader" where
  "source data t = \<lparr>rd_data = data, rd_end = t\<rparr>"

lemma readFull_header: "readFull (source (encFrame (flag, p) @ rest) t) 5 =
    Inr (flag # putUint32 (word_of_nat (length p)), source (p @ rest) t)"
  by (simp add: readFull_def source_def encFrame_def putUint32_def)

lemma header_word:
  "beUint32 ((flag # putUint32 n) ! 1) ((flag # putUint32 n) ! 2) ((flag # putUint32 n) ! 3)
     ((flag # putUint32 n) ! 4) = n"
  unfolding putUint32_def by (simp add: beUint32_putUint32)

lemma header_length:
  assumes "length p < 2 ^ 32"
  shows "unat (beUint32 ((flag # putUint32 (word_of_nat (length p))) ! 1)
      ((flag # putUint32 (word_of_nat (length p))) ! 2) ((flag # putUint32 (word_of_nat (length p))) ! 3)
      ((flag # putUint32 (word_of_nat (length p))) ! 4)) = length p"
  unfolding header_word using assms by (rule unat_length32)

text \<open>What one complete frame of at most \<open>maxFrameSize\<close> bytes does to the stream.\<close>

lemma readFrames_frame:
  assumes "length p \<le> maxFrameSize"
  shows "readFrames g js (source (encFrame (flag, p) @ rest) t) =
    (case decodeFramePayload g flag p of
       Inl e \<Rightarrow> ([], Some (Decompress e))
     | Inr payload \<Rightarrow>
        if flag AND flagEndStream \<noteq> 0 then ([], map_option ErrStream (parseEndStream js payload))
        else if payload = [] then readFrames g js (source rest t)
        else case DecodeStreamUnifiedChatResponse payload of
            Inl _ \<Rightarrow> readFrames g js (source rest t)
          | Inr chunk \<Rightarrow> apfst ((#) (ch_Thinking chunk, ch_Content chunk)) (readFrames g js (source rest t)))"
proof -
  have l: "length p < 2 ^ 32" using assms by (simp add: maxFrameSize_def)
  have d: "(if 0 < length p then readFull (source (p @ rest) t) (length p) else Inr ([], source (p @ rest) t)) =
      Inr (p, source rest t)"
    by (cases p) (simp_all add: readFull_def source_def)
  show ?thesis
    by (subst readFrames.simps, unfold readFull_header sum.case prod.case Let_def header_length [OF l] d)
      (use assms in \<open>simp add: apfst_def map_prod_def split_beta split: sum.splits\<close>)
qed

lemma parseChunkLoop_frame:
  assumes "length p < 2 ^ 32"
  shows "parseChunkLoop g js (encFrame (flag, p) @ rest) th tx =
    (case decodeFramePayload g flag p of
       Inl _ \<Rightarrow> parseChunkLoop g js rest th tx
     | Inr payload \<Rightarrow>
        if flag AND flagEndStream \<noteq> 0 then
          (case parseEndStream js payload of
             Some serr \<Rightarrow> (th, tx, Some serr)
           | None \<Rightarrow> parseChunkLoop g js rest th tx)
        else case DecodeStreamUnifiedChatResponse payload of
            Inl _ \<Rightarrow> parseChunkLoop g js rest th tx
          | Inr resp \<Rightarrow> parseChunkLoop g js rest (th @ ch_Thinking resp) (tx @ ch_Content resp))"
  using takeFrame_encFrame [of "(flag, p)" rest] assms by (subst parseChunkLoop.simps) simp

text \<open>A data frame that both readers can take in, and the calls that a run of them gives rise to.\<close>

definition dataFrame :: "(bytes \<Rightarrow> string + bytes) \<Rightarrow> byte \<times> bytes \<Rightarrow> bool" where
  "dataFrame g fr \<longleftrightarrow> length (snd fr) \<le> maxFrameSize \<and> fst fr AND flagEndStream = 0 \<and>
     (case decodeFramePayload g (fst fr) (snd fr) of Inl _ \<Rightarrow> False | Inr _ \<Rightarrow> True)"

definition frameCalls :: "(bytes \<Rightarrow> string + bytes) \<Rightarrow> byte \<times> bytes \<Rightarrow> (string \<times> string) list" where
  "frameCalls g fr =
     (case decodeFramePayload g (fst fr) (snd fr) of
        Inl _ \<Rightarrow> []
      | Inr payload \<Rightarrow>
          if payload = [] then []
          else (case DecodeStreamUnifiedChatResponse payload of
                  Inl _ \<Rightarrow> [] | Inr c \<Rightarrow> [(ch_Thinking c, ch_Content c)]))"

lemma readFrames_data:
  "list_all (dataFrame g) fs \<Longrightarrow>
   readFrames g js (source (concat (map encFrame fs) @ rest) t) =
     apfst ((@) (concat (map (frameCalls g) fs))) (readFrames g js (source rest t))"
proof (induction fs)
  case (Cons fr fs)
  obtain flag p where fr: "fr = (flag, p)" by fastforce
  with Cons.prems obtain payload where p: "decodeFramePayload g flag p = Inr payload"
    "length p \<le> maxFrameSize" "flag AND flagEndStream = 0"
    by (auto simp: dataFrame_def split: sum.splits)
  with Cons show ?case
    by (simp add: fr readFrames_frame frameCalls_def apfst_compose comp_def
        split: sum.splits)
qed (simp add: apfst_def map_prod_def split_beta)

lemma decode_empty: "DecodeStreamUnifiedChatResponse [] = Inr \<lparr>ch_Content = [], ch_Thinking = []\<rparr>"
  by (simp add: DecodeStreamUnifiedChatResponse_def parseFields_def parseFieldsLoop.simps)

lemma parseChunkLoop_data:
  "list_all (dataFrame g) fs \<Longrightarrow>
   parseChunkLoop g js (concat (map encFrame fs) @ rest) th tx =
     parseChunkLoop g js rest (th @ concat (map fst (concat (map (frameCalls g) fs))))
       (tx @ concat (map snd (concat (map (frameCalls g) fs))))"
proof (induction fs arbitrary: th tx)
  case (Cons fr fs)
  obtain flag p where fr: "fr = (flag, p)" by fastforce
  with Cons.prems obtain payload where p: "decodeFramePayload g flag p = Inr payload"
    "length p \<le> maxFrameSize" "flag AND flagEndStream = 0"
    by (auto simp: dataFrame_def split: sum.splits)
  moreover from p(2) have "length p < 2 ^ 32" by (simp add: maxFrameSize_def)
  ultimately show ?case
    using Cons by (cases "payload = []")
      (simp_all add: fr parseChunkLoop_frame frameCalls_def decode_empty split: sum.splits)
qed simp

section \<open>Properties\<close>

text \<open>
  C20: the two readers of a response agree: on a run of data frames closed by an end-of-stream
  frame, \<open>ParseStreamChunk\<close> returns the concatenation of the thinking and text parts that
  \<open>readFrames\<close> hands to its callback, and the error (or its absence) that \<open>readFrames\<close> returns;
  what follows the end frame plays no part for \<open>readFrames\<close>.
\<close>

theorem chunk_and_stream_agree:
  assumes "list_all (dataFrame g) fs" "length p \<le> maxFrameSize" "flag AND flagEndStream \<noteq> 0"
    and "decodeFramePayload g flag p = Inr payload"
  shows "readFrames g js (source (concat (map encFrame fs) @ encFrame (flag, p) @ rest) t) =
      (concat (map (frameCalls g) fs), map_option ErrStream (parseEndStream js payload)) \<and>
    ParseStreamChunk g js (concat (map encFrame fs) @ encFrame (flag, p)) =
      (concat (map fst (concat (map (frameCalls g) fs))),
       concat (map snd (concat (map (frameCalls g) fs))), parseEndStream js payload)"
proof
  show "readFrames g js (source (concat (map encFrame fs) @ encFrame (flag, p) @ rest) t) =
      (concat (map (frameCalls g) fs), map_option ErrStream (parseEndStream js payload))"
    using assms by (simp add: readFrames_data readFrames_frame)
next
  have "length p < 2 ^ 32" using assms(2) by (simp add: maxFrameSize_def)
  then show "ParseStreamChunk g js (concat (map encFrame fs) @ encFrame (flag, p)) =
      (concat (map fst (concat (map (frameCalls g) fs))),
       concat (map snd (concat (map (frameCalls g) fs))), parseEndStream js payload)"
    using parseChunkLoop_frame [of p g js flag "[]"] assms
    by (simp add: ParseStreamChunk_def parseChunkLoop_data parseChunkLoop.simps [of _ _ "[]"]
        split: option.splits)
qed

text \<open>
  C38: a connection that closes early: the complete frames before the cut are delivered, a cut
  inside the payload of a frame is reported as an error (\<open>EOF\<close> when none of the payload arrived,
  \<open>UnexpectedEOF\<close> otherwise), and a cut at a frame boundary or inside a header passes for the
  normal end of the stream.
\<close>

theorem truncated_stream:
  assumes "list_all (dataFrame g) fs" "length p \<le> maxFrameSize" "k < length (encFrame (flag, p))"
  shows "readFrames g js (source (concat (map encFrame fs) @ take k (encFrame (flag, p))) None) =
    (concat (map (frameCalls g) fs),
     if k < 5 then None else Some (ErrIO (if k = 5 then EOF else UnexpectedEOF)))"
proof (cases "k < 5")
  case True
  then have "readFrames g js (source (take k (encFrame (flag, p))) None) = ([], None)"
    by (subst readFrames.simps) (simp add: readFull_def source_def)
  with True assms(1) show ?thesis by (simp add: readFrames_data)
next
  case False
  let ?h = "flag # putUint32 (word_of_nat (length p))"
  let ?r = "source (take (k - 5) p) None"
  have l: "length p < 2 ^ 32" using assms(2) by (simp add: maxFrameSize_def)
  have s: "take k (encFrame (flag, p)) = ?h @ take (k - 5) p"
    using False by (simp add: encFrame_def take_Cons')
  have f: "readFull (source (take k (encFrame (flag, p))) None) 5 = Inr (?h, ?r)"
    by (simp add: s readFull_def source_def putUint32_def)
  have k: "k - 5 < length p" using assms(3) False by simp
  then have d: "readFull ?r (length p) = Inl (if k = 5 then EOF else UnexpectedEOF)" "0 < length p"
    using False by (auto simp: readFull_def source_def)
  have "readFrames g js (source (take k (encFrame (flag, p))) None) =
      ([], Some (ErrIO (if k = 5 then EOF else UnexpectedEOF)))"
    by (subst readFrames.simps, unfold f sum.case prod.case Let_def header_length [OF l] d)
      (use assms(2) d(2) in simp)
  with False assms(1) show ?thesis by (simp add: readFrames_data)
qed

text \<open>
  a header that announces more than \<open>maxFrameSize\<close> bytes ends the read at once: an error that
  names the size, whatever follows, after the frames that came before have been delivered.
\<close>

lemma oversized_frame_rejected:
  assumes "list_all (dataFrame g) fs" "maxFrameSize < unat n"
  shows "readFrames g js (source (concat (map encFrame fs) @ flag # putUint32 n @ rest) t) =
    (concat (map (frameCalls g) fs), Some (FrameTooLarge (unat n)))"
proof -
  let ?h = "flag # putUint32 n"
  have f: "readFull (source (flag # putUint32 n @ rest) t) 5 = Inr (?h, source rest t)"
    by (simp add: readFull_def source_def putUint32_def)
  have "readFrames g js (source (flag # putUint32 n @ rest) t) = ([], Some (FrameTooLarge (unat n)))"
    by (subst readFrames.simps, unfold f sum.case prod.case Let_def header_word) (use assms(2) in simp)
  then show ?thesis using assms(1) by (simp add: readFrames_data)
qed

section \<open>The request body\<close>

definition chats :: "OpenAIMessage list \<Rightarrow> OpenAIMessage list" where
  "chats ms = filter (\<lambda>m. om_Role m \<noteq> ''system'') ms"

lemma formatMessages_result:
  "formatMessages uuid ms n i acc = (i', out, n') \<Longrightarrow>
   n' = n + length (chats ms) \<and>
   map (\<lambda>m. (cm_Role m, cm_Content m)) out = map (\<lambda>m. (cm_Role m, cm_Content m)) acc @
     map (\<lambda>m. (if om_Role m = ''user'' then 1 else 2, mc_Text (om_Content m))) (chats ms) \<and>
   map cm_MessageID out = map cm_MessageID acc @ map uuid [n..<n + length (chats ms)]"
proof (induction uuid ms n i acc arbitrary: i' out n' rule: formatMessages.induct)
  case (2 uuid m ms n i acc)
  show ?case
  proof (cases "om_Role m = ''system''")
    case True
    then show ?thesis using 2(1) [OF refl True] "2.prems" by (simp add: Let_def chats_def)
  next
    case False
    from "2.prems" False 2(2) [OF refl False refl refl] show ?thesis
      by (cases "om_Role m = ''user''") (simp_all add: Let_def chats_def upt_conv_Cons del: upt_Suc)
  qed
qed (auto simp: chats_def)

lemma chatRequest_messages:
  shows "map (\<lambda>m. (cm_Role m, cm_Content m)) (cr_Messages (chatRequest uuid stamp ms model)) =
      map (\<lambda>m. (if om_Role m = ''user'' then 1 else 2, mc_Text (om_Content m))) (chats ms)"
    and "map cm_MessageID (cr_Messages (chatRequest uuid stamp ms model)) = map uuid [0..<length (chats ms)]"
    and "map mr_MessageID (cr_MessageIDs (chatRequest uuid stamp ms model)) = map uuid [0..<length (chats ms)]"
    and "cr_ConversationID (chatRequest uuid stamp ms model) = uuid (length (chats ms))"
proof -
  obtain i out n where f: "formatMessages uuid ms 0 [] [] = (i, out, n)" by (metis prod_cases3)
  then have c: "cr_Messages (chatRequest uuid stamp ms model) = out"
    "map mr_MessageID (cr_MessageIDs (chatRequest uuid stamp ms model)) = map cm_MessageID out"
    "cr_ConversationID (chatRequest uuid stamp ms model) = uuid n"
    by (simp_all add: chatRequest_def comp_def)
  show "map (\<lambda>m. (cm_Role m, cm_Content m)) (cr_Messages (chatRequest uuid stamp ms model)) =
      map (\<lambda>m. (if om_Role m = ''user'' then 1 else 2, mc_Text (om_Content m))) (chats ms)"
    and "map cm_MessageID (cr_Messages (chatRequest uuid stamp ms model)) = map uuid [0..<length (chats ms)]"
    and "map mr_MessageID (cr_MessageIDs (chatRequest uuid stamp ms model)) = map uuid [0..<length (chats ms)]"
    and "cr_ConversationID (chatRequest uuid stamp ms model) = uuid (length (chats ms))"
    using formatMessages_result [OF f] by (simp_all add: c)
qed

lemma chatRequest_count [simp]: "length (cr_Messages (chatRequest uuid stamp ms model)) = length (chats ms)"
  using arg_cong [OF chatRequest_messages(2), of length] by simp

text \<open>
  The body sent to Cursor is exactly one frame.  It is compressed from three conversation
  messages on, and what it holds, decompressed, is the protobuf request whose messages are the
  non-system messages in order, with role 1 for the user and 2 for anyone else.
\<close>

lemma chat_body_is_one_frame:
  assumes gz: "\<And>x z. gzip x = Inr z \<Longrightarrow> z \<noteq> [] \<and> gunzip z = Inr x"
    and body: "GenerateChatBody gzip uuid stamp ms model = Inr b"
    and short: "length b < 2 ^ 32" "length (encodeChatRequest (chatRequest uuid stamp ms model)) < 2 ^ 64"
  shows "\<exists>flag data payload.
      takeFrame b = Inr ((flag, data), []) \<and>
      flag = (if 3 \<le> length (chats ms) then flagCompressed else 0) \<and>
      decodeFramePayload gunzip flag data = Inr payload \<and>
      parseFields payload = Inr [bytesF 1 (encodeChatRequest (chatRequest uuid stamp ms model))] \<and>
      map (\<lambda>m. (cm_Role m, cm_Content m)) (cr_Messages (chatRequest uuid stamp ms model)) =
        map (\<lambda>m. (if om_Role m = ''user'' then 1 else 2, mc_Text (om_Content m))) (chats ms)"
proof -
  let ?req = "chatRequest uuid stamp ms model"
  obtain payload where p: "EncodeStreamUnifiedChatRequest (Some ?req) = Inr payload"
    by (simp add: EncodeStreamUnifiedChatRequest_def)
  have "payload = encFields [bytesF 1 (encodeChatRequest ?req)]"
    using p by (simp add: EncodeStreamUnifiedChatRequest_def wire_simps encodeChatRequest_wire msgF_nonempty)
  moreover have "wfField (bytesF 1 (encodeChatRequest ?req))" using short(2) by (simp add: wfField_def)
  ultimately have pf: "parseFields payload = Inr [bytesF 1 (encodeChatRequest ?req)]"
    using parseFields_encField [of "[bytesF 1 (encodeChatRequest ?req)]"] by (simp add: encFields_def)
  obtain flag data where d: "b = encFrame (flag, data)"
    "flag = (if 3 \<le> length (chats ms) then flagCompressed else 0)"
    "if 3 \<le> length (chats ms) then gzip payload = Inr data else data = payload"
    using body p by (auto simp: GenerateChatBody_def encFrame_def flagCompressed_def
        split: if_splits sum.splits)
  have "takeFrame b = Inr ((flag, data), [])"
    using takeFrame_encFrame [of "(flag, data)" "[]"] short(1) d(1) by simp
  moreover have "decodeFramePayload gunzip flag data = Inr payload"
    using d gz [of payload data] by (auto simp: decodeFramePayload_def flagCompressed_def split: if_splits)
  moreover have "map (\<lambda>m. (cm_Role m, cm_Content m)) (cr_Messages ?req) =
      map (\<lambda>m. (if om_Role m = ''user'' then 1 else 2, mc_Text (om_Content m))) (chats ms)"
    by (rule chatRequest_messages)
  ultimately show ?thesis using d(2) pf by blast
qed

section \<open>Witnesses\<close>

definition helloFrame :: bytes where
  "helloFrame = appendMessage [] 2 (built (appendString [] 1 ''hello''))"

lemma helloFrame_decoded:
  "DecodeStreamUnifiedChatResponse helloFrame = Inr \<lparr>ch_Content = ''hello'', ch_Thinking = []\<rparr>"
  using decode_response [of "''hello''" "[]"] by (simp add: helloFrame_def wire_simps)

lemma helloFrame_size: "0 < length helloFrame" "length helloFrame \<le> 45"
  using length_encFields_msgF [of 2 "encFields (strF 1 ''hello'')"] length_encFields_strF [of 1 "''hello''"]
  by (simp_all add: helloFrame_def wire_simps strF_def msgF_def)

lemma hello_dataFrame: "dataFrame (\<lambda>_. Inl []) (0, helloFrame)"
  "frameCalls (\<lambda>_. Inl []) (0, helloFrame) = [([], ''hello'')]"
  using helloFrame_size
  by (simp_all add: dataFrame_def frameCalls_def decodeFramePayload_def maxFrameSize_def helloFrame_decoded)

theorem chunk_and_stream_agree_witness:
  "readFrames (\<lambda>_. Inl []) (\<lambda>_. Inr None)
      (source (concat (map encFrame [(0, helloFrame)]) @ encFrame (2, bytes_of ''{}'') @ [7]) None) = ([([], ''hello'')], None) \<and>
   ParseStreamChunk (\<lambda>_. Inl []) (\<lambda>_. Inr None)
      (concat (map encFrame [(0, helloFrame)]) @ encFrame (2, bytes_of ''{}'')) = ([], ''hello'', None)"
  using chunk_and_stream_agree [of "\<lambda>_. Inl []" "[(0, helloFrame)]" "bytes_of ''{}''" 2 "bytes_of ''{}''" "\<lambda>_. Inr None" "[7]" None]
  by (simp add: hello_dataFrame decodeFramePayload_def flagEndStream_def flagCompressed_def maxFrameSize_def
      parseEndStream_def)

theorem truncated_stream_witness:
  "readFrames (\<lambda>_. Inl []) (\<lambda>_. Inr None) (source (concat (map encFrame [(0, helloFrame)]) @
      take 6 (encFrame (0, bytes_of ''abc''))) None) = ([([], ''hello'')], Some (ErrIO UnexpectedEOF))"
  using truncated_stream [of "\<lambda>_. Inl []" "[(0, helloFrame)]" "bytes_of ''abc''" 6 0 "\<lambda>_. Inr None"]
  by (simp add: hello_dataFrame maxFrameSize_def)

definition sample_chat :: "OpenAIMessage list" where
  "sample_chat = [\<lparr>om_Role = ''system'', om_Content = TextContent ''be brief''\<rparr>,
     \<lparr>om_Role = ''user'', om_Content = TextContent ''hi''\<rparr>,
     \<lparr>om_Role = ''assistant'', om_Content = TextContent ''hello''\<rparr>,
     \<lparr>om_Role = ''user'', om_Content = TextContent ''why''\<rparr>]"

definition sample_uuid :: "nat \<Rightarrow> string" where
  "sample_uuid n = [char_of (n mod 256)]"

lemma sample_chat_short:
  "length (encodeChatRequest (chatRequest sample_uuid [] sample_chat ''m'')) \<le> 3000"
  using length_encodeChatRequest [of "chatRequest sample_uuid [] sample_chat ''m''"]
    length_requestMetadata [of "cr_Metadata (chatRequest sample_uuid [] sample_chat ''m'')"]
  by (simp add: chatRequest_def sample_chat_def sample_uuid_def TextContent_def shellPath_def)

end
