(* ===== verification/Cursor_Bridge.thy ===== *)
theory Cursor_Bridge
  imports Connect
begin

text \<open>
  The OpenAI-compatible bridge to Cursor: \<open>src/pkg/cursor/server.go\<close> (token extraction, proxy
  registry, request headers, model list, streamed and collected completions),
  \<open>checksum.go\<close>, \<open>config.go\<close> and the login flow of \<open>login.go\<close>.

  What the code takes from outside is gathered in the record \<open>bridge_env\<close>: the digests, the
  compressor, the JSON decoders, the outgoing HTTP client, the clock, the random choice and the
  identifiers, which are drawn by place of use and number.  A handler returns what it writes to
  its \<open>http.ResponseWriter\<close>, in order.
\<close>

section \<open>Base64 (package encoding/base64)\<close>

definition b64char :: "string \<Rightarrow> nat \<Rightarrow> char" where
  "b64char alphabet n = alphabet ! n"

definition b64Std :: string where
  "b64Std = ''ABCDEFGHIJKLMNOPQRSTUVWXYZabcdefghijklmnopqrstuvwxyz0123456789+/''"

definition b64URL :: string where
  "b64URL = ''ABCDEFGHIJKLMNOPQRSTUVWXYZabcdefghijklmnopqrstuvwxyz0123456789-_''"

fun base64 :: "string \<Rightarrow> bool \<Rightarrow> bytes \<Rightarrow> string" where
  "base64 al pad [] = []"
| "base64 al pad [a] =
     (let v = unat a * 16 in
      [b64char al (v div 64), b64char al (v mod 64)] @ (if pad then ''=='' else []))"
| "base64 al pad [a, b] =
     (let v = (unat a * 256 + unat b) * 4 in
      [b64char al (v div 4096), b64char al (v div 64 mod 64), b64char al (v mod 64)] @
      (if pad then ''='' else []))"
| "base64 al pad (a # b # c # rest) =
     (let v = unat a * 65536 + unat b * 256 + unat c in
      [b64char al (v div 262144), b64char al (v div 4096 mod 64), b64char al (v div 64 mod 64),
       b64char al (v mod 64)] @ base64 al pad rest)"

section \<open>checksum.go\<close>

definition Hashed64Hex :: "(bytes \<Rightarrow> bytes) \<Rightarrow> string \<Rightarrow> string \<Rightarrow> string" where
  "Hashed64Hex sha256 input salt = hexEncode (sha256 (bytes_of (input @ salt)))"

text \<open>The loop of \<open>obfuscateBytes\<close> from index \<open>i\<close> on, with the running byte \<open>t\<close>.\<close>

fun obfuscateFrom :: "nat \<Rightarrow> byte \<Rightarrow> bytes \<Rightarrow> bytes" where
  "obfuscateFrom i t [] = []"
| "obfuscateFrom i t (b # bs) =
     (let c = (b XOR t) + word_of_nat (i mod 256) in c # obfuscateFrom (Suc i) c bs)"

definition obfuscateBytes :: "bytes \<Rightarrow> bytes" where
  "obfuscateBytes b = obfuscateFrom 0 165 b"

text \<open>\<open>time.Now().UnixMilli()\<close> is the argument \<open>ms\<close>; Go's integer division truncates.\<close>

definition Checksum :: "(bytes \<Rightarrow> bytes) \<Rightarrow> int \<Rightarrow> string \<Rightarrow> string" where
  "Checksum sha256 ms token =
     (let machineID = Hashed64Hex sha256 token ''machineId'';
          macMachineID = Hashed64Hex sha256 token ''macMachineId'';
          ts = (word_of_int (sgn ms * (\<bar>ms\<bar> div 1000000)) :: 32 word);
          b = [ucast (drop_bit 8 ts), ucast ts, ucast (drop_bit 24 ts), ucast (drop_bit 16 ts),
               ucast (drop_bit 8 ts), ucast ts]
      in base64 b64Std True (obfuscateBytes b) @ machineID @ ''/'' @ macMachineID)"

section \<open>config.go\<close>

definition DefaultClientVersion :: string where "DefaultClientVersion = ''3.17.8''"

record Config =
  cfg_Port :: int
  cfg_CursorClientVersion :: string
  cfg_ProxyURL :: string

definition withDefaults :: "Config \<Rightarrow> Config" where
  "withDefaults c = c\<lparr>cfg_CursorClientVersion := DefaultClientVersion\<rparr>"

definition uuidV5 :: "(bytes \<Rightarrow> bytes) \<Rightarrow> bytes \<Rightarrow> string \<Rightarrow> bytes" where
  "uuidV5 sha1 namespace name =
     (let u = take 16 (sha1 (namespace @ bytes_of name));
          u = u[6 := (u ! 6 AND 0x0f) OR 0x50];
          u = u[8 := (u ! 8 AND 0x3f) OR 0x80]
      in u)"

text \<open>\<open>UUID.String\<close> of the package google/uuid: lower-case hexadecimal, 8-4-4-4-12.\<close>

definition uuidString :: "bytes \<Rightarrow> string" where
  "uuidString u = hexEncode (take 4 u) @ ''-'' @ hexEncode (take 2 (drop 4 u)) @ ''-'' @
     hexEncode (take 2 (drop 6 u)) @ ''-'' @ hexEncode (take 2 (drop 8 u)) @ ''-'' @ hexEncode (drop 10 u)"

definition dnsNamespace :: bytes where
  "dnsNamespace = [0x6b, 0xa7, 0xb8, 0x10, 0x9d, 0xad, 0x11, 0xd1, 0x80, 0xb4, 0x00, 0xc0, 0x4f, 0xd4, 0x30, 0xc8]"

definition sessionID :: "(bytes \<Rightarrow> bytes) \<Rightarrow> string \<Rightarrow> string" where
  "sessionID sha1 token = uuidString (uuidV5 sha1 dnsNamespace token)"

record url =
  u_Scheme :: string
  u_Host :: string
  u_User :: "(string \<times> string) option"

datatype transport = Direct | HTTPProxy url | Socks5Proxy string "(string \<times> string) option"

text \<open>\<open>parseURL\<close> is \<open>url.Parse\<close> and \<open>socks5\<close> is \<open>proxy.SOCKS5\<close>, which may refuse its arguments.\<close>

definition buildHTTPClient :: "(string \<Rightarrow> string + url) \<Rightarrow> (string \<Rightarrow> (string \<times> string) option \<Rightarrow> string option) \<Rightarrow>
    string \<Rightarrow> string + transport" where
  "buildHTTPClient parseURL socks5 proxyURL =
     (if proxyURL \<noteq> [] then
        (case parseURL proxyURL of
           Inl e \<Rightarrow> Inl (''invalid proxy url: '' @ e)
         | Inr u \<Rightarrow>
             if u_Scheme u = ''http'' \<or> u_Scheme u = ''https'' then Inr (HTTPProxy u)
             else if u_Scheme u = ''socks5'' \<or> u_Scheme u = ''socks5h'' then
               (case socks5 (u_Host u) (u_User u) of
                  Some e \<Rightarrow> Inl (''socks5 proxy: '' @ e)
                | None \<Rightarrow> Inr (Socks5Proxy (u_Host u) (u_User u)))
             else Inl (''unsupported proxy scheme '' @ [CHR 0x22] @ u_Scheme u @ [CHR 0x22] @
               '' (want http, https or socks5)''))
      else Inr Direct)"

section \<open>The server and its environment\<close>

record http_request =
  hr_Method :: string
  hr_URL :: string
  hr_Header :: "(string \<times> string) list"
  hr_Body :: bytes

record http_response =
  hp_StatusCode :: int
  hp_Status :: string
  hp_Body :: reader

record chatCompletionRequest =
  cc_Model :: string
  cc_Messages :: "OpenAIMessage list"
  cc_Stream :: bool

record bridge_env =
  be_sha256 :: "bytes \<Rightarrow> bytes"
  be_sha1 :: "bytes \<Rightarrow> bytes"
  be_gzip :: "bytes \<Rightarrow> string + bytes"
  be_gunzip :: "bytes \<Rightarrow> string + bytes"
  be_endJSON :: end_decoder
  be_chatJSON :: "bytes \<Rightarrow> string + chatCompletionRequest"
  be_parseURL :: "string \<Rightarrow> string + url"
  be_socks5 :: "string \<Rightarrow> (string \<times> string) option \<Rightarrow> string option"
  be_do :: "transport \<Rightarrow> http_request \<Rightarrow> string + http_response"
  be_pick :: "nat \<Rightarrow> nat"
  be_uuid :: "string \<Rightarrow> nat \<Rightarrow> string"
  be_millis :: int
  be_stamp :: string
  be_now :: string
  be_unix :: "nat \<Rightarrow> int"

record Server =
  srv_cfg :: Config
  srv_port :: int
  srv_proxies :: "string \<Rightarrow> string option"

definition SetProxy :: "Server \<Rightarrow> string \<Rightarrow> string \<Rightarrow> Server" where
  "SetProxy s token proxyURL =
     (if token = [] then s else s\<lparr>srv_proxies := (srv_proxies s)(token \<mapsto> proxyURL)\<rparr>)"

definition ProxyFor :: "Server \<Rightarrow> string \<Rightarrow> string" where
  "ProxyFor s token = (case srv_proxies s token of None \<Rightarrow> [] | Some p \<Rightarrow> p)"

text \<open>\<open>listen\<close> is \<open>net.Listen\<close> on the loopback interface: the bound port or an error.\<close>

definition NewServer :: "(int \<Rightarrow> string + int) \<Rightarrow> Config \<Rightarrow> string + Server" where
  "NewServer listen cfg0 =
     (let cfg = withDefaults cfg0 in
      case listen (cfg_Port cfg) of
        Inl e \<Rightarrow> Inl (''cursor: listen on port '' @ itoa (cfg_Port cfg) @ '': '' @ e)
      | Inr port \<Rightarrow> Inr \<lparr>srv_cfg = cfg, srv_port = port, srv_proxies = Map.empty\<rparr>)"

definition BaseURL :: "Server \<Rightarrow> string" where
  "BaseURL s = ''http://127.0.0.1:'' @ itoa (srv_port s) @ ''/v1''"

section \<open>Tokens and headers\<close>

definition extractToken :: "bridge_env \<Rightarrow> string \<Rightarrow> string" where
  "extractToken env authorization =
     (let bearer = trimPrefix authorization ''Bearer '';
          keys = map trimSpace (splitOn CHR '','' bearer);
          token = keys ! 0;
          token = (if 1 < length keys then keys ! be_pick env (length keys) else token);
          token = (if contains token ''%3A%3A'' then snd (the (cutAt ''%3A%3A'' token))
                   else if contains token ''::'' then snd (the (cutAt ''::'' token))
                   else token)
      in trimSpace token)"

definition cursorHeaders :: "bridge_env \<Rightarrow> string \<Rightarrow> string \<Rightarrow> bool \<Rightarrow> (string \<times> string) list" where
  "cursorHeaders env checksum0 token streaming =
     (let checksum = (if checksum0 = [] then Checksum (be_sha256 env) (be_millis env) token else checksum0) in
      [(''authorization'', ''Bearer '' @ token),
       (''connect-protocol-version'', ''1''),
       (''user-agent'', ''connect-es/1.6.1''),
       (''x-cursor-checksum'', checksum),
       (''x-cursor-client-version'', DefaultClientVersion),
       (''x-cursor-config-version'', be_uuid env ''headers'' 0),
       (''x-cursor-timezone'', ''Asia/Shanghai''),
       (''x-ghost-mode'', ''true''),
       (''Host'', ''api2.cursor.sh'')] @
      (if streaming then
        [(''connect-accept-encoding'', ''gzip''),
         (''connect-content-encoding'', ''gzip''),
         (''content-type'', ''application/connect+proto''),
         (''x-amzn-trace-id'', ''Root='' @ be_uuid env ''headers'' 1),
         (''x-client-key'', Hashed64Hex (be_sha256 env) token []),
         (''x-request-id'', be_uuid env ''headers'' 2),
         (''x-session-id'', sessionID (be_sha1 env) token)]
       else
        [(''accept-encoding'', ''gzip''), (''content-type'', ''application/proto'')]))"

section \<open>Replies\<close>

record ModelResponse =
  mo_Id :: string
  mo_Created :: string
  mo_Object :: string
  mo_OwnedBy :: string

datatype reply_body =
    ErrorBody string int
  | CompletionBody string int string string
  | ModelsBody "ModelResponse list"

record sse_choice =
  sc_Role :: "string option"
  sc_Content :: "string option"
  sc_Finish :: "string option"

text \<open>
  \<open>JSONReply\<close> is \<open>writeJSON\<close>; \<open>SSEHeaders\<close> the three headers and the status 200 of a stream;
  \<open>Data\<close> one chunk (identifier, time, model, choice); the other two the remaining events.
\<close>

datatype reply =
    JSONReply int reply_body
  | SSEHeaders
  | Data string int string sse_choice
  | ErrorEvent string
  | DoneMark

definition writeError :: "int \<Rightarrow> string \<Rightarrow> reply" where
  "writeError status msg = JSONReply status (ErrorBody msg status)"

section \<open>Model list\<close>

definition readAll :: "reader \<Rightarrow> string + bytes" where
  "readAll r = (case rd_end r of None \<Rightarrow> Inr (rd_data r) | Some e \<Rightarrow> Inl e)"

definition decodeMaybeGzip :: "bridge_env \<Rightarrow> http_response \<Rightarrow> string + bytes" where
  "decodeMaybeGzip env resp =
     (case readAll (hp_Body resp) of
        Inl e \<Rightarrow> Inl e
      | Inr body \<Rightarrow>
          if 2 < length body \<and> body ! 0 = 0x1f \<and> body ! 1 = 0x8b then be_gunzip env body else Inr body)"

definition proto_error_Error :: "proto_error \<Rightarrow> string" where
  "proto_error_Error e =
     (case e of
        BadTag \<Rightarrow> ''proto: bad tag varint''
      | BadVarint n \<Rightarrow> ''proto: bad varint field '' @ itoa (int n)
      | TruncatedFixed64 n \<Rightarrow> ''proto: truncated fixed64 field '' @ itoa (int n)
      | BadLength n \<Rightarrow> ''proto: bad length field '' @ itoa (int n)
      | TruncatedBytes n \<Rightarrow> ''proto: truncated bytes field '' @ itoa (int n)
      | TruncatedFixed32 n \<Rightarrow> ''proto: truncated fixed32 field '' @ itoa (int n)
      | UnsupportedWire n \<Rightarrow> ''proto: unsupported wire type '' @ itoa (int n)
      | NilRequest \<Rightarrow> ''proto: nil request'')"

definition HandleModels :: "bridge_env \<Rightarrow> Server \<Rightarrow> string \<Rightarrow> string \<Rightarrow> string \<Rightarrow> string + ModelResponse list" where
  "HandleModels env s token checksum proxyURL0 =
     (let proxyURL = (if proxyURL0 = [] then ProxyFor s token else proxyURL0) in
      case buildHTTPClient (be_parseURL env) (be_socks5 env) proxyURL of
        Inl e \<Rightarrow> Inl e
      | Inr client \<Rightarrow>
         (case be_do env client
            \<lparr>hr_Method = ''POST'', hr_URL = ''https://api2.cursor.sh/aiserver.v1.AiService/AvailableModels'',
             hr_Header = cursorHeaders env checksum token False, hr_Body = []\<rparr> of
            Inl e \<Rightarrow> Inl e
          | Inr resp \<Rightarrow>
             (case decodeMaybeGzip env resp of
                Inl e \<Rightarrow> Inl e
              | Inr body \<Rightarrow>
                 (case DecodeAvailableModels body of
                    Inl e \<Rightarrow> Inl (proto_error_Error e)
                  | Inr names \<Rightarrow>
                      Inr (map (\<lambda>name. \<lparr>mo_Id = name, mo_Created = be_now env, mo_Object = ''model'',
                                         mo_OwnedBy = ''cursor''\<rparr>) names)))))"

definition handleModels :: "bridge_env \<Rightarrow> Server \<Rightarrow> string \<Rightarrow> string \<Rightarrow> reply list" where
  "handleModels env s authorization checksum =
     (let token = extractToken env authorization in
      case HandleModels env s token checksum (ProxyFor s token) of
        Inl e \<Rightarrow> [writeError 502 (''cursor: '' @ e)]
      | Inr names \<Rightarrow> [JSONReply 200 (ModelsBody names)])"

section \<open>Completions\<close>

text \<open>\<open>thinkingTagger\<close>: the state is the flag \<open>open\<close>.\<close>

definition tagger_close :: "bool \<Rightarrow> string \<times> bool" where
  "tagger_close op = (if \<not> op then ([], op) else ([CHR 0x0A] @ ''</thinking>'' @ [CHR 0x0A], False))"

definition tagger_next :: "bool \<Rightarrow> string \<Rightarrow> string \<Rightarrow> string \<times> bool" where
  "tagger_next op0 thinking text =
     (let (b1, op1) =
        (if thinking \<noteq> [] then
           (let (b, op) = (if \<not> op0 then (''<thinking>'' @ [CHR 0x0A], True) else ([], op0))
            in (b @ thinking, op))
         else ([], op0))
      in
      if text \<noteq> [] then (let (c, op2) = tagger_close op1 in (b1 @ c @ text, op2)) else (b1, op1))"

record stream_state =
  ss_started :: bool
  ss_out :: "reply list"

definition send :: "bridge_env \<Rightarrow> string \<Rightarrow> stream_state \<Rightarrow> sse_choice \<Rightarrow> stream_state" where
  "send env model st choice =
     (let out = (if \<not> ss_started st then ss_out st @ [SSEHeaders] else ss_out st) in
      \<lparr>ss_started = True,
       ss_out = out @ [Data (''chatcmpl-'' @ be_uuid env ''response'' 0) (be_unix env (length out)) model choice]\<rparr>)"

definition emit :: "bridge_env \<Rightarrow> string \<Rightarrow> stream_state \<Rightarrow> string \<Rightarrow> stream_state" where
  "emit env model st content =
     (if content = [] then st
      else
        let st = (if \<not> ss_started st
              then send env model st \<lparr>sc_Role = Some ''assistant'', sc_Content = Some [], sc_Finish = None\<rparr>
              else st)
        in send env model st \<lparr>sc_Role = None, sc_Content = Some content, sc_Finish = None\<rparr>)"

fun streamCalls :: "bridge_env \<Rightarrow> string \<Rightarrow> (string \<times> string) list \<Rightarrow> stream_state \<Rightarrow> bool \<Rightarrow>
    stream_state \<times> bool" where
  "streamCalls env model [] st op = (st, op)"
| "streamCalls env model ((thinking, text) # calls) st op =
     (case tagger_next op thinking text of
        (content, op) \<Rightarrow> streamCalls env model calls (emit env model st content) op)"

definition stream_err_Error :: "stream_err \<Rightarrow> string" where
  "stream_err_Error e =
     (case e of
        ErrStream se \<Rightarrow> StreamError_Error se
      | ErrIO EOF \<Rightarrow> ''EOF''
      | ErrIO UnexpectedEOF \<Rightarrow> ''unexpected EOF''
      | ErrIO (IOErr m) \<Rightarrow> m
      | FrameTooLarge n \<Rightarrow> ''cursor: frame too large: '' @ itoa (int n) @ '' bytes (max '' @
          itoa (int maxFrameSize) @ '')''
      | Decompress m \<Rightarrow> ''cursor: decompress frame: '' @ m)"

definition errorStatus :: "stream_err \<Rightarrow> int \<times> string" where
  "errorStatus e =
     (case e of
        ErrStream se \<Rightarrow>
          (if se_Code se = ''unauthenticated'' then 401
           else if se_Code se = ''permission_denied'' then 403
           else if se_Code se = ''resource_exhausted'' then 429
           else if se_Code se = ''invalid_argument'' then 400
           else if se_Code se = ''unavailable'' then 503
           else 502, StreamError_Error se)
      | _ \<Rightarrow> (502, stream_err_Error e))"

definition streamResponse :: "bridge_env \<Rightarrow> reader \<Rightarrow> string \<Rightarrow> reply list" where
  "streamResponse env body model =
     (let (calls, err) = readFrames (be_gunzip env) (be_endJSON env) body;
          (st, op) = streamCalls env model calls \<lparr>ss_started = False, ss_out = []\<rparr> False
      in
      if err \<noteq> None \<and> \<not> ss_started st then
        (let (status, msg) = errorStatus (the err) in ss_out st @ [writeError status msg])
      else
        let st = (case err of None \<Rightarrow> st
                  | Some e \<Rightarrow> st\<lparr>ss_out := ss_out st @ [ErrorEvent (stream_err_Error e)]\<rparr>);
            st = emit env model st (fst (tagger_close op));
            st = send env model st \<lparr>sc_Role = None, sc_Content = None, sc_Finish = Some ''stop''\<rparr>
        in ss_out st @ [DoneMark])"

fun collectCalls :: "(string \<times> string) list \<Rightarrow> string \<Rightarrow> bool \<Rightarrow> string \<times> bool" where
  "collectCalls [] content op = (content, op)"
| "collectCalls ((thinking, text) # calls) content op =
     (case tagger_next op thinking text of (s, op) \<Rightarrow> collectCalls calls (content @ s) op)"

definition collectResponse :: "bridge_env \<Rightarrow> reader \<Rightarrow> string \<Rightarrow> reply list" where
  "collectResponse env body model =
     (let (calls, err) = readFrames (be_gunzip env) (be_endJSON env) body;
          (content, op) = collectCalls calls [] False
      in
      case err of
        Some e \<Rightarrow> (let (status, msg) = errorStatus e in [writeError status msg])
      | None \<Rightarrow>
          [JSONReply 200 (CompletionBody (''chatcmpl-'' @ be_uuid env ''response'' 0) (be_unix env 0) model
             (content @ fst (tagger_close op)))])"

definition body_error_Error :: "body_error \<Rightarrow> string" where
  "body_error_Error e = (case e of EncodeFailed p \<Rightarrow> proto_error_Error p | GzipFailed m \<Rightarrow> m)"

definition handleChatCompletions :: "bridge_env \<Rightarrow> Server \<Rightarrow> string \<Rightarrow> string \<Rightarrow> bytes \<Rightarrow> reply list" where
  "handleChatCompletions env s authorization checksum requestBody =
     (case be_chatJSON env requestBody of
        Inl e \<Rightarrow> [writeError 400 (''invalid request body: '' @ e)]
      | Inr reqBody \<Rightarrow>
         (let token = extractToken env authorization in
          if cc_Messages reqBody = [] \<or> token = [] then
            [writeError 400 ''invalid request. Messages should be a non-empty array and authorization is required'']
          else
           (case GenerateChatBody (be_gzip env) (be_uuid env ''body'') (be_stamp env) (cc_Messages reqBody)
              (cc_Model reqBody) of
              Inl e \<Rightarrow> [writeError 500 (''cursor: '' @ body_error_Error e)]
            | Inr cursorBody \<Rightarrow>
               (case buildHTTPClient (be_parseURL env) (be_socks5 env) (ProxyFor s token) of
                  Inl _ \<Rightarrow> [writeError 500 ''internal server error'']
                | Inr client \<Rightarrow>
                   (case be_do env client
                      \<lparr>hr_Method = ''POST'',
                       hr_URL = ''https://api2.cursor.sh/aiserver.v1.ChatService/StreamUnifiedChatWithTools'',
                       hr_Header = cursorHeaders env checksum token True, hr_Body = cursorBody\<rparr> of
                      Inl e \<Rightarrow> [writeError 502 (''cursor: '' @ e)]
                    | Inr resp \<Rightarrow>
                        if hp_StatusCode resp \<noteq> 200 then
                          (let detail = take 4096 (rd_data (hp_Body resp));
                               msg = hp_Status resp;
                               msg = (if 0 < length detail then msg @ '': '' @ string_of detail else msg)
                           in [writeError (hp_StatusCode resp) (''cursor: '' @ msg)])
                        else if cc_Stream reqBody then streamResponse env (hp_Body resp) (cc_Model reqBody)
                        else collectResponse env (hp_Body resp) (cc_Model reqBody))))))"

section \<open>login.go\<close>

record LoginResult =
  lr_AccessToken :: string
  lr_AuthID :: string
  lr_Cookie :: string

record LoginFlow =
  lf_uuid :: string
  lf_verifier :: string
  lf_challenge :: string
  lf_LoginURL :: string

text \<open>\<open>random\<close> is \<open>crypto/rand.Read\<close> of 43 bytes.\<close>

definition NewLoginFlow :: "bridge_env \<Rightarrow> (string + bytes) \<Rightarrow> string \<Rightarrow> string + LoginFlow" where
  "NewLoginFlow env random proxyURL =
     (case buildHTTPClient (be_parseURL env) (be_socks5 env) proxyURL of
        Inl e \<Rightarrow> Inl e
      | Inr client \<Rightarrow>
         (case random of
            Inl e \<Rightarrow> Inl (''cursor login: generate verifier: '' @ e)
          | Inr verifierBytes \<Rightarrow>
             (let verifier = base64 b64URL False verifierBytes;
                  challenge = base64 b64URL False (be_sha256 env (bytes_of verifier));
                  id = be_uuid env ''login'' 0
              in Inr \<lparr>lf_uuid = id, lf_verifier = verifier, lf_challenge = challenge,
                   lf_LoginURL = ''https://www.cursor.com/loginDeepControl?challenge='' @ challenge @
                     ''&uuid='' @ id @ ''&mode=login''\<rparr>)))"

text \<open>
  The answer to one poll: a transport error, or a status and the decoded JSON (or the decoder's
  error).  The result \<open>Inr None\<close> is \<open>(nil, false, nil)\<close>.
\<close>

type_synonym poll_answer = "string + (int \<times> (string + (string \<times> string)))"

definition PollOnce :: "poll_answer \<Rightarrow> string + LoginResult option" where
  "PollOnce answer =
     (case answer of
        Inl e \<Rightarrow> Inl e
      | Inr (status, decoded) \<Rightarrow>
          if status \<noteq> 200 then Inr None
          else
           (case decoded of
              Inl e \<Rightarrow> Inl (''cursor login: decode poll response: '' @ e)
            | Inr (accessToken, authID) \<Rightarrow>
                if accessToken = [] then Inr None
                else Inr (Some \<lparr>lr_AccessToken = accessToken, lr_AuthID = authID,
                  lr_Cookie = (case cutAt ''|'' authID of
                     Some (_, uid) \<Rightarrow> if uid \<noteq> [] then uid @ ''%3A%3A'' @ accessToken else accessToken
                   | None \<Rightarrow> accessToken)\<rparr>)))"

text \<open>
  \<open>answers i\<close> is the answer to attempt \<open>i\<close> and \<open>cancelled i\<close> the context's error if it was
  cancelled while attempt \<open>i\<close> waited for the next one.
\<close>

fun pollLoop :: "(nat \<Rightarrow> poll_answer) \<Rightarrow> (nat \<Rightarrow> string option) \<Rightarrow> nat \<Rightarrow> nat \<Rightarrow> string + LoginResult" where
  "pollLoop answers cancelled i 0 = Inl ''cursor login: timeout waiting for authorization''"
| "pollLoop answers cancelled i (Suc left) =
     (case PollOnce (answers i) of
        Inl e \<Rightarrow> Inl e
      | Inr (Some result) \<Rightarrow> Inr result
      | Inr None \<Rightarrow>
         (case cancelled i of Some e \<Rightarrow> Inl e | None \<Rightarrow> pollLoop answers cancelled (Suc i) left))"

definition Poll :: "(nat \<Rightarrow> poll_answer) \<Rightarrow> (nat \<Rightarrow> string option) \<Rightarrow> int \<Rightarrow> string + LoginResult" where
  "Poll answers cancelled maxAttempts = pollLoop answers cancelled 0 (nat maxAttempts)"

text \<open>\<open>control\<close> is the answer of the deep-control endpoint: an error or its status.\<close>

definition ExchangeSessionToken :: "bridge_env \<Rightarrow> (string + bytes) \<Rightarrow> (LoginFlow \<Rightarrow> string \<Rightarrow> string + int) \<Rightarrow>
    (LoginFlow \<Rightarrow> nat \<Rightarrow> poll_answer) \<Rightarrow> (nat \<Rightarrow> string option) \<Rightarrow> string \<Rightarrow> string \<Rightarrow> string + LoginResult" where
  "ExchangeSessionToken env random control answers cancelled sessionToken proxyURL =
     (case NewLoginFlow env random proxyURL of
        Inl e \<Rightarrow> Inl e
      | Inr flow \<Rightarrow>
         (case control flow sessionToken of
            Inl e \<Rightarrow> Inl (''cursor login: deep control: '' @ e)
          | Inr status \<Rightarrow>
              if status \<noteq> 200 then Inl (''cursor login: deep control returned status '' @ itoa status)
              else Poll (answers flow) cancelled 20))"

section \<open>The proxy registry\<close>

interpretation proxies: registry SetProxy ProxyFor "\<lambda>token. token \<noteq> []"
  by standard (auto simp: SetProxy_def ProxyFor_def)

section \<open>Checksum\<close>

fun deobfuscateFrom :: "nat \<Rightarrow> byte \<Rightarrow> bytes \<Rightarrow> bytes" where
  "deobfuscateFrom i t [] = []"
| "deobfuscateFrom i t (c # cs) = ((c - word_of_nat (i mod 256)) XOR t) # deobfuscateFrom (Suc i) c cs"

lemma deobfuscate_obfuscate: "deobfuscateFrom i t (obfuscateFrom i t b) = b"
  by (induction i t b rule: obfuscateFrom.induct) (simp_all add: Let_def xor.assoc)

lemma length_obfuscateFrom [simp]: "length (obfuscateFrom i t b) = length b"
  by (induction i t b rule: obfuscateFrom.induct) (simp_all add: Let_def)

lemma length_uuidV5: "16 \<le> length (sha1 (ns @ bytes_of name)) \<Longrightarrow> length (uuidV5 sha1 ns name) = 16"
  by (simp add: uuidV5_def)

section \<open>Tagging\<close>

datatype segment = Think string | Spoken string

fun segments :: "(string \<times> string) list \<Rightarrow> segment list" where
  "segments [] = []"
| "segments ((thinking, text) # calls) =
     (if thinking \<noteq> [] then [Think thinking] else []) @ (if text \<noteq> [] then [Spoken text] else []) @
     segments calls"

text \<open>The specification: maximal runs of reasoning, each inside one pair of tags.\<close>

fun runs :: "segment list \<Rightarrow> segment list" where
  "runs [] = []"
| "runs (Spoken s # rest) = Spoken s # runs rest"
| "runs (Think s # rest) =
     (case runs rest of Think s' # rest' \<Rightarrow> Think (s @ s') # rest' | rest' \<Rightarrow> Think s # rest')"

definition openTag :: string where "openTag = ''<thinking>'' @ [CHR 0x0A]"

definition closeTag :: string where "closeTag = [CHR 0x0A] @ ''</thinking>'' @ [CHR 0x0A]"

fun renderRun :: "segment \<Rightarrow> string" where
  "renderRun (Spoken s) = s"
| "renderRun (Think s) = openTag @ s @ closeTag"

definition rendered :: "(string \<times> string) list \<Rightarrow> string" where
  "rendered calls = concat (map renderRun (runs (segments calls)))"

fun renderFrom :: "bool \<Rightarrow> segment list \<Rightarrow> string" where
  "renderFrom op [] = (if op then closeTag else [])"
| "renderFrom op (Think s # rest) = (if op then [] else openTag) @ s @ renderFrom True rest"
| "renderFrom op (Spoken s # rest) = (if op then closeTag else []) @ s @ renderFrom False rest"

lemma renderFrom_runs:
  "renderFrom False segs = concat (map renderRun (runs segs))"
  "renderFrom True segs =
     (case runs segs of Think s # rest \<Rightarrow> s @ closeTag @ concat (map renderRun rest)
      | rest \<Rightarrow> closeTag @ concat (map renderRun rest))"
proof (induction segs)
  case (Cons x xs)
  {
    case 1
    show ?case using Cons by (cases x) (auto split: list.splits segment.splits)
  next
    case 2
    show ?case using Cons by (cases x) (auto split: list.splits segment.splits)
  }
qed simp_all

lemma tagger_close_eq: "tagger_close op = (if op then (closeTag, False) else ([], False))"
  by (simp add: tagger_close_def closeTag_def)

lemma tagger_next_segments:
  "tagger_next op thinking text = (s, op') \<Longrightarrow>
   renderFrom op (segments ((thinking, text) # calls)) = s @ renderFrom op' (segments calls)"
  by (auto simp: tagger_next_def tagger_close_eq openTag_def split: if_splits)

lemma collectCalls_render:
  "collectCalls calls content op = (content', op') \<Longrightarrow>
   content' @ fst (tagger_close op') = content @ renderFrom op (segments calls)"
proof (induction calls content op arbitrary: content' op' rule: collectCalls.induct)
  case (1 content op)
  then show ?case by (simp add: tagger_close_eq)
next
  case (2 thinking tx calls content op)
  obtain s op1 where t: "tagger_next op thinking tx = (s, op1)" by fastforce
  with 2 show ?case by (simp add: tagger_next_segments [OF t] del: segments.simps)
qed

section \<open>Streams\<close>

definition sseContent :: "reply list \<Rightarrow> string" where
  "sseContent out = concat (map (\<lambda>r. case r of
     Data _ _ _ c \<Rightarrow> (case sc_Content c of Some s \<Rightarrow> s | None \<Rightarrow> []) | _ \<Rightarrow> []) out)"

definition isChunk :: "bridge_env \<Rightarrow> string \<Rightarrow> reply \<Rightarrow> bool" where
  "isChunk env model r =
     (case r of Data i _ m _ \<Rightarrow> i = ''chatcmpl-'' @ be_uuid env ''response'' 0 \<and> m = model | _ \<Rightarrow> False)"

text \<open>Nothing is written before the headers, which come once and first.\<close>

definition streamInv :: "bridge_env \<Rightarrow> string \<Rightarrow> stream_state \<Rightarrow> bool" where
  "streamInv env model st \<longleftrightarrow>
     (if ss_started st then ss_out st \<noteq> [] \<and> hd (ss_out st) = SSEHeaders \<and>
        list_all (isChunk env model) (tl (ss_out st))
      else ss_out st = [])"

lemma sseContent_simps [simp]:
  "sseContent [] = []" "sseContent (xs @ ys) = sseContent xs @ sseContent ys"
  "sseContent [SSEHeaders] = []" "sseContent [ErrorEvent m] = []" "sseContent [DoneMark] = []"
  "sseContent [Data i t m c] = (case sc_Content c of Some s \<Rightarrow> s | None \<Rightarrow> [])"
  by (simp_all add: sseContent_def)

lemma send_facts [simp]:
  "ss_started (send env model st c)"
  "sseContent (ss_out (send env model st c)) = sseContent (ss_out st) @
     (case sc_Content c of Some s \<Rightarrow> s | None \<Rightarrow> [])"
  by (simp_all add: send_def Let_def)

lemma send_inv [simp]: "streamInv env model st \<Longrightarrow> streamInv env model (send env model st c)"
  by (auto simp: send_def streamInv_def isChunk_def Let_def tl_append split: list.splits)

lemma emit_content [simp]: "sseContent (ss_out (emit env model st s)) = sseContent (ss_out st) @ s"
  by (simp add: emit_def Let_def)

lemma emit_inv [simp]: "streamInv env model st \<Longrightarrow> streamInv env model (emit env model st s)"
  by (simp add: emit_def Let_def)

lemma emit_started: "ss_started (emit env model st s) \<longleftrightarrow> ss_started st \<or> s \<noteq> []"
  by (simp add: emit_def Let_def)

lemma emit_Nil [simp]: "emit env model st [] = st"
  by (simp add: emit_def)

lemma streamCalls_facts:
  "streamCalls env model calls st op = (st', op') \<Longrightarrow> collectCalls calls content op = (content', op'') \<Longrightarrow>
   op'' = op' \<and> (\<exists>s. content' = content @ s \<and> sseContent (ss_out st') = sseContent (ss_out st) @ s) \<and>
   (streamInv env model st \<longrightarrow> streamInv env model st') \<and>
   (ss_started st' \<longleftrightarrow> ss_started st \<or> segments calls \<noteq> [])"
proof (induction env model calls st op arbitrary: content st' op' rule: streamCalls.induct)
  case (2 env model thinking tx calls st op)
  obtain s op1 where t: "tagger_next op thinking tx = (s, op1)" by fastforce
  have "s \<noteq> [] \<longleftrightarrow> thinking \<noteq> [] \<or> tx \<noteq> []"
    using t by (auto simp: tagger_next_def tagger_close_eq split: if_splits)
  with 2(1) [OF t [symmetric], of st' op' "content @ s"] "2.prems" t show ?case
    by (auto simp: emit_started)
qed auto

lemma emit_appends:
  assumes "ss_started st"
  shows "\<exists>xs. ss_out (emit env model st s) = ss_out st @ xs \<and> list_all (isChunk env model) xs \<and>
    sseContent xs = s \<and> ss_started (emit env model st s)"
proof (cases "s = []")
  case False
  with assms show ?thesis by (simp add: emit_def send_def isChunk_def Let_def)
qed (use assms in simp)

lemma finish_started:
  assumes "ss_started st" "streamInv env model st" "sseContent ev = []"
  shows "\<exists>a b t. ss_out (send env model (emit env model (st\<lparr>ss_out := ss_out st @ ev\<rparr>) s) c) =
      SSEHeaders # (a @ ev @ b) @ [Data (''chatcmpl-'' @ be_uuid env ''response'' 0) t model c] \<and>
    sseContent (a @ ev @ b) = sseContent (ss_out st) @ s \<and> list_all (isChunk env model) (a @ b)"
proof -
  let ?st1 = "st\<lparr>ss_out := ss_out st @ ev\<rparr>"
  obtain a where a: "ss_out st = [SSEHeaders] @ a" "list_all (isChunk env model) a"
    using assms(1,2) by (cases "ss_out st") (auto simp: streamInv_def)
  obtain b where b: "ss_out (emit env model ?st1 s) = ss_out ?st1 @ b" "list_all (isChunk env model) b"
    "sseContent b = s" "ss_started (emit env model ?st1 s)"
    using emit_appends [of ?st1 env model s] assms(1) by auto
  have "sseContent (a @ ev @ b) = sseContent (ss_out st) @ s"
    unfolding a(1) using assms(3) b(3) by (simp only: sseContent_simps append_Nil)
  moreover have "ss_out (send env model (emit env model ?st1 s) c) = SSEHeaders # (a @ ev @ b) @
      [Data (''chatcmpl-'' @ be_uuid env ''response'' 0) (be_unix env (length (ss_out (emit env model ?st1 s)))) model c]"
    using b a(1) by (simp add: send_def)
  ultimately show ?thesis using a(2) b(2) by (metis list_all_append)
qed

text \<open>The two outcomes of a streamed answer: one JSON error, or a stream of the rendered text.\<close>

definition stopChunk :: sse_choice where
  "stopChunk = \<lparr>sc_Role = None, sc_Content = None, sc_Finish = Some ''stop''\<rparr>"

definition streamEvents :: "bridge_env \<Rightarrow> string \<Rightarrow> stream_err option \<Rightarrow> string \<Rightarrow> reply list \<Rightarrow> bool" where
  "streamEvents env model err content out \<longleftrightarrow>
     (\<exists>a b t. out = SSEHeaders # (a @ (case err of None \<Rightarrow> [] | Some e \<Rightarrow> [ErrorEvent (stream_err_Error e)]) @ b) @
        [Data (''chatcmpl-'' @ be_uuid env ''response'' 0) t model stopChunk, DoneMark] \<and>
      list_all (isChunk env model) (a @ b) \<and> sseContent (a @ b) = content)"

lemma streamResponse_cases:
  assumes r: "readFrames (be_gunzip env) (be_endJSON env) body = (calls, err)"
  shows "(case (err, segments calls) of
      (Some e, []) \<Rightarrow> streamResponse env body model = [writeError (fst (errorStatus e)) (snd (errorStatus e))]
    | _ \<Rightarrow> streamEvents env model err (rendered calls) (streamResponse env body model))"
proof -
  let ?st0 = "\<lparr>ss_started = False, ss_out = []\<rparr>"
  obtain st op where s: "streamCalls env model calls ?st0 False = (st, op)" by fastforce
  obtain content op' where c: "collectCalls calls [] False = (content, op')" by fastforce
  from streamCalls_facts [OF s c] have op: "op' = op" and content: "sseContent (ss_out st) = content"
    and inv: "streamInv env model st" and started: "ss_started st \<longleftrightarrow> segments calls \<noteq> []"
    by (auto simp: streamInv_def)
  have render: "content @ fst (tagger_close op) = rendered calls"
    using collectCalls_render [OF c] op by (simp add: rendered_def renderFrom_runs)
  define ev where "ev = (case err of None \<Rightarrow> [] | Some e \<Rightarrow> [ErrorEvent (stream_err_Error e)])"
  have ev0: "sseContent ev = []" by (simp add: ev_def split: option.splits)
  have resp: "streamResponse env body model =
      ss_out (send env model (emit env model (st\<lparr>ss_out := ss_out st @ ev\<rparr>) (fst (tagger_close op))) stopChunk) @ [DoneMark]"
    if "err = None \<or> segments calls \<noteq> []"
    using that r s started by (cases err) (auto simp: streamResponse_def ev_def stopChunk_def)
  have full: "streamEvents env model err (rendered calls) (streamResponse env body model)"
    if "segments calls \<noteq> []"
  proof -
    from that obtain a b t where abt:
      "streamResponse env body model = SSEHeaders # (a @ ev @ b) @
         [Data (''chatcmpl-'' @ be_uuid env ''response'' 0) t model stopChunk, DoneMark]"
      "sseContent (a @ ev @ b) = content @ fst (tagger_close op)" "list_all (isChunk env model) (a @ b)"
      using finish_started [of st env model ev "fst (tagger_close op)" stopChunk] started inv ev0 resp content
      by auto
    then show ?thesis using render ev0 by (auto simp: streamEvents_def ev_def)
  qed
  show ?thesis
  proof (cases "segments calls = []")
    case True
    then have n: "ss_out st = []" "\<not> ss_started st" using inv started by (auto simp: streamInv_def)
    have "rendered calls = []" using True by (simp add: rendered_def)
    with render have "fst (tagger_close op) = []" "rendered calls = []" by auto
    with True n r s resp show ?thesis
      by (cases err) (auto simp: streamResponse_def split_beta streamEvents_def ev_def send_def
          intro!: exI [of _ "[]"])
  next
    case False
    then show ?thesis using full by (cases "segments calls") (auto split: option.splits)
  qed
qed

lemma collectResponse_cases:
  assumes r: "readFrames (be_gunzip env) (be_endJSON env) body = (calls, err)"
  shows "collectResponse env body model =
    (case err of
       Some e \<Rightarrow> [writeError (fst (errorStatus e)) (snd (errorStatus e))]
     | None \<Rightarrow> [JSONReply 200 (CompletionBody (''chatcmpl-'' @ be_uuid env ''response'' 0) (be_unix env 0) model
                (rendered calls))])"
proof -
  obtain content op where c: "collectCalls calls [] False = (content, op)" by fastforce
  have "content @ fst (tagger_close op) = rendered calls"
    using collectCalls_render [OF c] by (simp add: rendered_def renderFrom_runs)
  with r c show ?thesis by (cases err) (simp_all add: collectResponse_def split_beta)
qed

section \<open>Properties\<close>

text \<open>
  C6: when the upstream stream ends without an error, the streamed and the collected answer carry
  the same text: the concatenated content deltas of the event stream are the content of the
  completion object, and both are the reasoning runs, each inside one pair of thinking tags, and
  the plain text between them, in order.
\<close>

theorem stream_equals_collected:
  assumes "readFrames (be_gunzip env) (be_endJSON env) body = (calls, None)"
  shows "sseContent (streamResponse env body model) = rendered calls \<and>
    collectResponse env body model =
      [JSONReply 200 (CompletionBody (''chatcmpl-'' @ be_uuid env ''response'' 0) (be_unix env 0) model
        (rendered calls))]"
proof
  have "streamEvents env model None (rendered calls) (streamResponse env body model)"
    using streamResponse_cases [OF assms, of model] by simp
  then show "sseContent (streamResponse env body model) = rendered calls"
    by (auto simp: streamEvents_def stopChunk_def sseContent_def)
qed (use collectResponse_cases [OF assms] in simp)

text \<open>
  C37: how a failing upstream stream is reported: as the mapped HTTP error and nothing else when no
  text has been sent yet (the collected answer is the same), and otherwise by an error event
  inside the stream, after which the stream is still closed by the stop chunk and the end mark.
\<close>

theorem stream_error_reported:
  assumes "readFrames (be_gunzip env) (be_endJSON env) body = (calls, Some e)"
  shows "collectResponse env body model = [writeError (fst (errorStatus e)) (snd (errorStatus e))] \<and>
    (if segments calls = [] then streamResponse env body model = collectResponse env body model
     else streamEvents env model (Some e) (rendered calls) (streamResponse env body model))"
  using streamResponse_cases [OF assms, of model] collectResponse_cases [OF assms, of model]
  by (cases "segments calls") simp_all

definition statusLines :: "reply list \<Rightarrow> nat" where
  "statusLines out = length (filter (\<lambda>r. case r of JSONReply _ _ \<Rightarrow> True | SSEHeaders \<Rightarrow> True | _ \<Rightarrow> False) out)"

lemma chunks_no_status: "list_all (isChunk env model) xs \<Longrightarrow> statusLines xs = 0"
  by (induction xs) (auto simp: statusLines_def isChunk_def split: reply.splits)

lemma statusLines_simps [simp]:
  "statusLines (xs @ ys) = statusLines xs + statusLines ys" "statusLines [] = 0"
  "statusLines (writeError s m # ys) = Suc (statusLines ys)" "statusLines (JSONReply s b # ys) = Suc (statusLines ys)"
  "statusLines (SSEHeaders # ys) = Suc (statusLines ys)" "statusLines (Data i t m c # ys) = statusLines ys"
  "statusLines (ErrorEvent e # ys) = statusLines ys" "statusLines (DoneMark # ys) = statusLines ys"
  by (simp_all add: statusLines_def writeError_def)

lemma streamEvents_status: "streamEvents env model err content out \<Longrightarrow> statusLines out = 1"
  by (auto simp: streamEvents_def chunks_no_status split: option.splits)

lemma streamResponse_status: "statusLines (streamResponse env body model) = 1"
proof -
  obtain calls err where r: "readFrames (be_gunzip env) (be_endJSON env) body = (calls, err)" by fastforce
  show ?thesis
    using streamResponse_cases [OF r, of model] streamEvents_status
    by (auto split: option.splits list.splits)
qed

lemma collectResponse_status: "statusLines (collectResponse env body model) = 1"
proof -
  obtain calls err where r: "readFrames (be_gunzip env) (be_endJSON env) body = (calls, err)" by fastforce
  show ?thesis using collectResponse_cases [OF r, of model] by (simp split: option.splits)
qed

text \<open>
  Whatever the request and whatever the upstream does, the completion handler sends exactly one
  status line.
\<close>

lemma one_status_line: "statusLines (handleChatCompletions env s authorization checksum requestBody) = 1"
  by (simp add: handleChatCompletions_def streamResponse_status collectResponse_status Let_def
      split: sum.splits)

text \<open>
  The byte obfuscation of the checksum loses nothing: the input is recovered byte by byte, and
  with a digest of 32 bytes the header value has the fixed length of 137 characters.
\<close>

lemma checksum_shape:
  assumes "\<And>x. length (sha256 x) = 32"
  shows "deobfuscateFrom 0 165 (obfuscateBytes b) = b \<and> length (Checksum sha256 ms token) = 137"
  using assms by (simp add: obfuscateBytes_def deobfuscate_obfuscate Checksum_def Hashed64Hex_def Let_def)

lemma Hashed64Hex_length: "(\<And>x. length (sha256 x) = 32) \<Longrightarrow> length (Hashed64Hex sha256 i s) = 64"
  by (simp add: Hashed64Hex_def)

section \<open>Login\<close>

text \<open>Printable ASCII characters other than the separators of a cookie pool.\<close>

definition tokenChar :: "char \<Rightarrow> bool" where
  "tokenChar c \<longleftrightarrow> 33 \<le> (of_char c :: nat) \<and> (of_char c :: nat) \<le> 126 \<and> c \<notin> set '',%:''"

lemma cutAt_first:
  assumes "CHR ''%'' \<notin> set u"
  shows "cutAt (CHR ''%'' # sep) (u @ CHR ''%'' # sep @ r) = Some (u, r)"
  using assms by (induction u) (auto simp: hasPrefix_def)

text \<open>
  The cookie that a completed login yields is accepted by the bridge as exactly the access
  token it was made from, with or without a user identifier in front.
\<close>

lemma login_cookie_accepted:
  assumes "PollOnce (Inr (200, Inr (token, authID))) = Inr (Some result)"
    and "list_all tokenChar token" "list_all tokenChar authID"
  shows "extractToken env (''Bearer '' @ lr_Cookie result) = token"
proof -
  have tok: "CHR '','' \<notin> set token" "CHR ''%'' \<notin> set token" "CHR '':'' \<notin> set token" "trimSpace token = token"
    using assms(2) by (auto simp: list_all_iff tokenChar_def intro: trimSpace_graphic)
  consider (plain) "lr_Cookie result = token"
    | (user) a uid where "authID = a @ ''|'' @ uid" "lr_Cookie result = uid @ ''%3A%3A'' @ token"
    using assms(1) by (auto simp: PollOnce_def dest!: cutAt_Some split: if_splits option.splits)
  then show ?thesis
  proof cases
    case plain
    have "cutAt ''%3A%3A'' token = None" "cutAt ''::'' token = None"
      using tok by (auto intro!: cutAt_free)
    with plain tok show ?thesis
      by (simp add: extractToken_def splitOn_single contains_def del: append.simps)
  next
    case user
    have uid: "CHR '','' \<notin> set uid" "CHR ''%'' \<notin> set uid"
      and uid_c: "\<And>c. c \<in> set uid \<Longrightarrow> 33 \<le> (of_char c :: nat) \<and> (of_char c :: nat) \<le> 126"
      using assms(3) user(1) by (auto simp: list_all_iff tokenChar_def)
    have cookie: "trimSpace (uid @ ''%3A%3A'' @ token) = uid @ ''%3A%3A'' @ token"
    proof (rule trimSpace_graphic)
      fix c
      assume "c \<in> set (uid @ ''%3A%3A'' @ token)"
      then consider "c \<in> set uid" | "c \<in> set ''%3A''" | "c \<in> set token" by auto
      then show "33 \<le> (of_char c :: nat) \<and> (of_char c :: nat) \<le> 126"
      proof cases
        case 1
        then show ?thesis by (rule uid_c)
      next
        case 2
        then show ?thesis by auto
      next
        case 3
        then show ?thesis using assms(2) by (simp add: list_all_iff tokenChar_def)
      qed
    qed
    have "splitOn CHR '','' (uid @ ''%3A%3A'' @ token) = [uid @ ''%3A%3A'' @ token]"
      using uid tok by (intro splitOn_single) auto
    moreover have "cutAt ''%3A%3A'' (uid @ ''%3A%3A'' @ token) = Some (uid, token)"
      using cutAt_first [OF uid(2), of "''3A%3A''" token] by simp
    ultimately show ?thesis
      using user cookie tok by (simp add: extractToken_def contains_def del: append.simps)
  qed
qed

lemma pollLoop_spec:
  "pollLoop answers cancelled i n = Inr r \<longleftrightarrow>
   (\<exists>k < n. PollOnce (answers (i + k)) = Inr (Some r) \<and>
      (\<forall>j < k. PollOnce (answers (i + j)) = Inr None \<and> cancelled (i + j) = None))"
proof (induction answers cancelled i n rule: pollLoop.induct)
  case (2 answers cancelled i left)
  show ?case
  proof (cases "PollOnce (answers i) = Inr None \<and> cancelled i = None")
    case True
    with 2 have "pollLoop answers cancelled i (Suc left) = Inr r \<longleftrightarrow>
        (\<exists>k < left. PollOnce (answers (i + Suc k)) = Inr (Some r) \<and>
          (\<forall>j < k. PollOnce (answers (i + Suc j)) = Inr None \<and> cancelled (i + Suc j) = None))"
      by simp
    also have "\<dots> \<longleftrightarrow> (\<exists>k < left. PollOnce (answers (i + Suc k)) = Inr (Some r) \<and>
          (\<forall>j < Suc k. PollOnce (answers (i + j)) = Inr None \<and> cancelled (i + j) = None))"
      using True by (simp only: All_less_Suc2) simp
    also have "\<dots> \<longleftrightarrow> (\<exists>k < Suc left. PollOnce (answers (i + k)) = Inr (Some r) \<and>
          (\<forall>j < k. PollOnce (answers (i + j)) = Inr None \<and> cancelled (i + j) = None))"
      using True by (simp only: Ex_less_Suc2) simp
    finally show ?thesis .
  next
    case False
    then have "(\<forall>j < k. PollOnce (answers (i + j)) = Inr None \<and> cancelled (i + j) = None) \<longleftrightarrow> k = 0" for k
      by (cases k) (auto intro: exI [of _ 0])
    then show ?thesis using False by (auto split: sum.splits option.splits)
  qed
qed simp

text \<open>
  Polling for a login returns a result exactly when some attempt within the limit yields it
  and every earlier attempt was pending with the context still alive; it makes no attempt beyond
  the limit and reports a timeout when all of them stay pending.
\<close>

lemma poll_returns_first_success:
  "(Poll answers cancelled maxAttempts = Inr r \<longleftrightarrow>
     (\<exists>k < nat maxAttempts. PollOnce (answers k) = Inr (Some r) \<and>
        (\<forall>j < k. PollOnce (answers j) = Inr None \<and> cancelled j = None)))"
  using pollLoop_spec [of answers cancelled 0 "nat maxAttempts" r] by (simp add: Poll_def)

section \<open>Witnesses\<close>

definition sample_failure :: frameError where
  "sample_failure = \<lparr>fe_Code = ''resource_exhausted'', fe_Message = ''limit'', fe_Details = []\<rparr>"

definition sample_env :: bridge_env where
  "sample_env = \<lparr>be_sha256 = (\<lambda>_. replicate 32 0), be_sha1 = (\<lambda>_. replicate 20 0), be_gzip = (\<lambda>_. Inl []),
     be_gunzip = (\<lambda>_. Inl []), be_endJSON = (\<lambda>_. Inr (Some sample_failure)), be_chatJSON = (\<lambda>_. Inl []),
     be_parseURL = (\<lambda>_. Inl []), be_socks5 = (\<lambda>_ _. None), be_do = (\<lambda>_ _. Inl []), be_pick = (\<lambda>_. 0),
     be_uuid = (\<lambda>_ _. ''id''), be_millis = 0, be_stamp = [], be_now = [], be_unix = (\<lambda>_. 0)\<rparr>"

lemma readFrames_eof: "readFrames g js (source [] None) = ([], None)"
  by (subst readFrames.simps) (simp add: readFull_def source_def)

lemma sample_stream:
  "readFrames (be_gunzip sample_env) (be_endJSON sample_env) (source (encFrame (0, helloFrame)) None) =
     ([([], ''hello'')], None)"
  using readFrames_data [of "\<lambda>_. Inl []" "[(0, helloFrame)]" "be_endJSON sample_env" "[]" None]
  by (simp add: hello_dataFrame sample_env_def readFrames_eof)

lemma sample_failing_stream:
  "readFrames (be_gunzip sample_env) (be_endJSON sample_env)
     (source (encFrame (0, helloFrame) @ encFrame (2, bytes_of ''x'')) None) =
     ([([], ''hello'')], Some (ErrStream \<lparr>se_Code = ''resource_exhausted'', se_Reason = [], se_Title = [], se_Detail = ''limit''\<rparr>))"
proof -
  have "trimSpace ''x'' = ''x''" by (rule trimSpace_graphic) simp
  then show ?thesis
    using readFrames_data [of "\<lambda>_. Inl []" "[(0, helloFrame)]" "be_endJSON sample_env" "encFrame (2, bytes_of ''x'')" None]
      readFrames_frame [of "bytes_of ''x''" "\<lambda>_. Inl []" "be_endJSON sample_env" 2 "[]" None]
    by (simp add: hello_dataFrame sample_env_def sample_failure_def maxFrameSize_def decodeFramePayload_def
        flagEndStream_def flagCompressed_def parseEndStream_def)
qed

theorem stream_equals_collected_witness:
  "sseContent (streamResponse sample_env (source (encFrame (0, helloFrame)) None) ''m'') = ''hello'' \<and>
   collectResponse sample_env (source (encFrame (0, helloFrame)) None) ''m'' =
     [JSONReply 200 (CompletionBody ''chatcmpl-id'' 0 ''m'' ''hello'')]"
  using stream_equals_collected [OF sample_stream, of "''m''"] by (simp add: rendered_def sample_env_def)

theorem stream_error_reported_witness:
  "collectResponse sample_env (source (encFrame (0, helloFrame) @ encFrame (2, bytes_of ''x'')) None) ''m'' =
     [writeError 429 ''cursor: resource_exhausted: limit'']"
  using stream_error_reported [OF sample_failing_stream, of "''m''"]
  by (simp add: errorStatus_def StreamError_Error_def reasonHint_def)

end
