(* ===== verification/Store.thy ===== *)
theory Store
  imports Prelude
begin

text \<open>
  The data model of the server (\<open>src/internal/models\<close>) and the PostgreSQL database behind the
  repositories: one list of rows per table of \<open>src/migrations\<close>, in insertion order.

  A statement may fail for reasons outside the program (connection, constraint added by hand,
  cancelled context).  The field \<open>db_faults\<close> scripts these failures: every statement takes one
  entry, \<open>Some e\<close> makes it fail with \<open>e\<close> and leave the tables alone, \<open>None\<close> (or an exhausted
  script) lets it run.  The constraints of the schema that the program can run into (unique
  columns, the range of \<open>BIGINT\<close>) are part of the statements themselves.  \<open>db_uuid\<close> is how the
  database driver reads a string as a UUID: its canonical form, or a refusal.
\<close>

section \<open>Errors\<close>

datatype grpc_code =
    Unauthenticated | PermissionDenied | InvalidArgument | NotFound | Internal | FailedPrecondition
  | Unavailable | AlreadyExists | Unimplemented | OtherCode int

text \<open>
  \<open>Wrap op e\<close> is \<open>fmt.Errorf(op + ": %w", e)\<close>; \<open>Status\<close> is a gRPC status error.
\<close>

datatype err =
    ErrApiKeyNotFound
  | ErrNoRows
  | SQLError string
  | Plain string
  | Status grpc_code string
  | Wrap string err

section \<open>JSON values\<close>

datatype json = JNull | JBool bool | JNum string | JStr string | JArr "json list" | JObj "(string \<times> json) list"

text \<open>
  A Go map with JSON values is an association list; \<open>setKey\<close> is an assignment to a key, \<open>copyInto\<close>
  is \<open>maps.Copy\<close>, \<open>stringAt\<close> the checked assertion \<open>v, _ := m[k].(string)\<close>.
\<close>

type_synonym object = "(string \<times> json) list"

definition setKey :: "string \<Rightarrow> 'v \<Rightarrow> (string \<times> 'v) list \<Rightarrow> (string \<times> 'v) list" where
  "setKey k v m = (k, v) # filter (\<lambda>p. fst p \<noteq> k) m"

fun copyInto :: "(string \<times> 'v) list \<Rightarrow> (string \<times> 'v) list \<Rightarrow> (string \<times> 'v) list" where
  "copyInto dst [] = dst"
| "copyInto dst ((k, v) # src) = copyInto (setKey k v dst) src"

definition stringAt :: "object \<Rightarrow> string \<Rightarrow> string" where
  "stringAt m k = (case map_of m k of Some (JStr s) \<Rightarrow> s | _ \<Rightarrow> [])"

section \<open>Rows\<close>

record ApiKey =
  ak_ID :: string
  ak_Key :: string
  ak_Name :: string
  ak_QuotaSetted :: bool
  ak_QuotaTokens :: int
  ak_QuotaPeriod :: string
  ak_QuotaResetAt :: go_time
  ak_ReservedTokens :: int
  ak_RestrictedProviders :: "string list"
  ak_RestrictedModels :: "string list"
  ak_CreatedAt :: go_time
  ak_UpdatedAt :: go_time
  ak_IsDeleted :: bool
  ak_IsActive :: bool
  ak_IsAdmin :: bool

record Provider =
  pr_ID :: string
  pr_Name :: string
  pr_Type :: int
  pr_BaseUrl :: string
  pr_ClientSecret :: string
  pr_Credentials :: "(string \<times> json) list"
  pr_UseProxy :: bool
  pr_Proxy :: string
  pr_IsCloudflare :: bool
  pr_Priority :: int
  pr_Disabled :: bool
  pr_CreatedAt :: go_time
  pr_UpdatedAt :: go_time

record UsageEntry =
  ue_ID :: int
  ue_ApiTokenID :: string
  ue_Provider :: string
  ue_Latency :: int
  ue_InputTokens :: int
  ue_OutputTokens :: int
  ue_TotalTokens :: int
  ue_CachedTokens :: int
  ue_Model :: string
  ue_Reasoning :: string
  ue_Failed :: bool
  ue_Error :: string
  ue_RequestedAt :: go_time
  ue_CreatedAt :: go_time

record PushSubscription =
  ps_ID :: string
  ps_Endpoint :: string
  ps_P256dh :: string
  ps_Auth :: string
  ps_ExpirationTime :: "int option"
  ps_UserAgent :: string
  ps_Labels :: "(string \<times> string) list"
  ps_CreatedAt :: go_time
  ps_UpdatedAt :: go_time

record NotificationEvent =
  ne_ID :: int
  ne_Subject :: string
  ne_Title :: string
  ne_Body :: string
  ne_Tag :: string
  ne_ProviderID :: string
  ne_URL :: string
  ne_CreatedAt :: go_time

record VapidKeys =
  vk_PublicKey :: string
  vk_PrivateKey :: string

record db =
  db_keys :: "ApiKey list"
  db_providers :: "Provider list"
  db_usage :: "UsageEntry list"
  db_subs :: "PushSubscription list"
  db_topics :: "(string \<times> string) list"
  db_events :: "NotificationEvent list"
  db_vapid :: "VapidKeys option"
  db_nextEvent :: int
  db_nextUsage :: int
  db_faults :: "string option list"
  db_uuid :: "string \<Rightarrow> string option"

type_synonym 'a sql = "db \<Rightarrow> (err + 'a) \<times> db"

section \<open>Statements\<close>

definition stmt :: "string \<Rightarrow> 'a sql \<Rightarrow> 'a sql" where
  "stmt op f d =
     (case db_faults d of
        Some e # fs \<Rightarrow> (Inl (Wrap op (SQLError e)), d\<lparr>db_faults := fs\<rparr>)
      | None # fs \<Rightarrow> f (d\<lparr>db_faults := fs\<rparr>)
      | [] \<Rightarrow> f d)"

text \<open>A UUID argument of a statement: refused, or its canonical form.\<close>

definition withUUID :: "string \<Rightarrow> string \<Rightarrow> (string \<Rightarrow> 'a sql) \<Rightarrow> 'a sql" where
  "withUUID op s f d =
     (case db_uuid d s of
        None \<Rightarrow> (Inl (Wrap op (SQLError ''invalid uuid'')), d)
      | Some u \<Rightarrow> f u d)"

definition int64 :: "int \<Rightarrow> bool" where
  "int64 i \<longleftrightarrow> - (2 ^ 63) \<le> i \<and> i < 2 ^ 63"

text \<open>\<open>UPDATE ... WHERE\<close>: every matching row is rewritten.\<close>

definition updateWhere :: "('r \<Rightarrow> bool) \<Rightarrow> ('r \<Rightarrow> 'r) \<Rightarrow> 'r list \<Rightarrow> 'r list" where
  "updateWhere P f rows = map (\<lambda>r. if P r then f r else r) rows"

lemma map_of_setKey [simp]: "map_of (setKey k v m) = (map_of m)(k \<mapsto> v)"
proof -
  have "map_of (filter (\<lambda>p. fst p \<noteq> k) m) j = (if j = k then None else map_of m j)" for j
    by (induction m) auto
  then show ?thesis by (auto simp: setKey_def)
qed

lemma map_of_copyInto:
  "distinct (map fst src) \<Longrightarrow> map_of (copyInto dst src) j = (case map_of src j of None \<Rightarrow> map_of dst j | Some v \<Rightarrow> Some v)"
proof (induction dst src rule: copyInto.induct)
  case (2 dst k v src)
  then have "map_of src k = None" by (simp add: map_of_eq_None_iff)
  then show ?case using 2 by (auto split: option.splits)
qed simp

lemma setKey_not_Nil [simp]: "setKey k v m \<noteq> []"
  by (simp add: setKey_def)

lemma stmt_no_fault: "db_faults d = [] \<Longrightarrow> stmt op f d = f d"
  by (simp add: stmt_def)

lemma stmt_cases:
  obtains (fault) e d' where "stmt op f d = (Inl (Wrap op (SQLError e)), d')" "d' = d\<lparr>db_faults := tl (db_faults d)\<rparr>"
  | (run) d' where "stmt op f d = f d'" "d' = d\<lparr>db_faults := tl (db_faults d)\<rparr>"
proof (cases "db_faults d")
  case Nil
  then show ?thesis using run [of d] by (simp add: stmt_def)
next
  case (Cons x fs)
  then show ?thesis using fault run by (cases x) (simp_all add: stmt_def)
qed

lemma length_updateWhere [simp]: "length (updateWhere P f rows) = length rows"
  by (simp add: updateWhere_def)

lemma updateWhere_Nil [simp]: "updateWhere P f [] = []"
  by (simp add: updateWhere_def)

lemma updateWhere_Cons [simp]: "updateWhere P f (r # rows) = (if P r then f r else r) # updateWhere P f rows"
  by (simp add: updateWhere_def)

lemma updateWhere_none: "\<not> list_ex P rows \<Longrightarrow> updateWhere P f rows = rows"
  by (induction rows) auto

lemma map_updateWhere: "(\<And>r. g (f r) = g r) \<Longrightarrow> map g (updateWhere P f rows) = map g rows"
  by (simp add: updateWhere_def)

lemma list_all_updateWhere: "list_all Q (updateWhere P f rows) \<longleftrightarrow> list_all (\<lambda>r. Q (if P r then f r else r)) rows"
  by (induction rows) auto

text \<open>Tables addressed by a unique column.\<close>

lemma find_updateWhere:
  assumes "\<And>r. key (f r) = key r"
  shows "find (\<lambda>r. key r = k) (updateWhere P f rows) =
    map_option (\<lambda>r. if P r then f r else r) (find (\<lambda>r. key r = k) rows)"
  using assms by (induction rows) auto

end
