(* ===== verification/Api_Key.thy ===== *)
theory Api_Key
  imports Store
begin

text \<open>
  API keys: quota periods (\<open>src/internal/models/apikey.go\<close>), the key repository
  (\<open>src/internal/adapter/postgres/apikey_repo/apikey_repo.go\<close>), the login of
  \<open>user_repo.go\<close>, and the helpers on quotas and string lists of
  \<open>src/internal/driver/server/utils.go\<close>.  The clock is the argument \<open>now\<close>; calls of
  \<open>time.Now\<close> within one operation are taken as simultaneous.
\<close>

section \<open>Quota periods\<close>

definition ToDuration :: "string \<Rightarrow> go_duration" where
  "ToDuration q =
     (if q = ''forever'' then hour * 24 * 365 * 10
      else if q = ''month'' then hour * 24 * 30
      else if q = ''week'' then hour * 24 * 7
      else if q = ''day'' then hour * 24
      else if q = ''hour'' then hour
      else if q = ''minute'' then minute
      else 0)"

text \<open>The protobuf enum \<open>QuotaResetStrategy\<close>; \<open>Unknown\<close> stands for numbers it does not name.\<close>

datatype QuotaResetStrategy = FOREVER | MINUTES | HOURLY | DAILY | WEEKLY | MONTHLY | Unknown int

fun ProtoToQuotaPeriod :: "QuotaResetStrategy \<Rightarrow> string" where
  "ProtoToQuotaPeriod FOREVER = ''forever''"
| "ProtoToQuotaPeriod MONTHLY = ''month''"
| "ProtoToQuotaPeriod WEEKLY = ''week''"
| "ProtoToQuotaPeriod DAILY = ''day''"
| "ProtoToQuotaPeriod HOURLY = ''hour''"
| "ProtoToQuotaPeriod MINUTES = ''minute''"
| "ProtoToQuotaPeriod (Unknown _) = ''forever''"

definition QuotaToProto :: "string \<Rightarrow> QuotaResetStrategy" where
  "QuotaToProto q =
     (if q = ''forever'' then FOREVER
      else if q = ''month'' then MONTHLY
      else if q = ''week'' then WEEKLY
      else if q = ''day'' then DAILY
      else if q = ''hour'' then HOURLY
      else if q = ''minute'' then MINUTES
      else FOREVER)"

definition quotaResetStrategy :: "string \<Rightarrow> QuotaResetStrategy" where
  "quotaResetStrategy period =
     (if period = ''minute'' then MINUTES
      else if period = ''hour'' then HOURLY
      else if period = ''day'' then DAILY
      else if period = ''week'' then WEEKLY
      else if period = ''month'' then MONTHLY
      else FOREVER)"

fun quotaPeriod :: "QuotaResetStrategy \<Rightarrow> err + (string \<times> go_duration)" where
  "quotaPeriod MINUTES = Inr (''minute'', minute)"
| "quotaPeriod HOURLY = Inr (''hour'', hour)"
| "quotaPeriod DAILY = Inr (''day'', 24 * hour)"
| "quotaPeriod WEEKLY = Inr (''week'', 7 * 24 * hour)"
| "quotaPeriod MONTHLY = Inr (''month'', 30 * 24 * hour)"
| "quotaPeriod FOREVER = Inr (''forever'', 0)"
| "quotaPeriod (Unknown _) = Inl (Status InvalidArgument ''unsupported quota_reset_strategy'')"

section \<open>Lists of strings\<close>

definition removeString :: "string list \<Rightarrow> string \<Rightarrow> string list" where
  "removeString values target = filter (\<lambda>value. value \<noteq> target) values"

fun uniqueStrings :: "(string \<Rightarrow> string) \<Rightarrow> string list \<Rightarrow> string list \<Rightarrow> string list" where
  "uniqueStrings ul seen [] = []"
| "uniqueStrings ul seen (v # vs) =
     (let value = trimSpace v; key = toLower ul value in
      if value = [] then uniqueStrings ul seen vs
      else if key \<in> set seen then uniqueStrings ul seen vs
      else value # uniqueStrings ul (key # seen) vs)"

definition normalizedUniqueStrings :: "(string \<Rightarrow> string) \<Rightarrow> string list \<Rightarrow> string list" where
  "normalizedUniqueStrings ul values = uniqueStrings ul [] values"

section \<open>The repository\<close>

definition generateToken :: "(string + bytes) \<Rightarrow> err + string" where
  "generateToken random =
     (case random of
        Inl e \<Rightarrow> Inl (Wrap ''postgres.apikey_repo.generateToken'' (Plain e))
      | Inr b \<Rightarrow>
         (let s = hexEncode b in
          Inr (''sk-'' @ take 16 s @ ''-'' @ take 6 (drop 16 s) @ ''-'' @ take 8 (drop 22 s))))"

definition AddApiKeyQuotaUsage :: "go_time \<Rightarrow> string \<Rightarrow> int \<Rightarrow> unit sql" where
  "AddApiKeyQuotaUsage now keyID tokens d =
     (if tokens = 0 then (Inr (), d)
      else
       (let op = ''postgres.apikey_repo.AddApiKeyQuotaUsage'' in
        stmt op (withUUID op keyID (\<lambda>u d.
          if list_all (\<lambda>k. ak_ID k = u \<longrightarrow> int64 (ak_QuotaTokens k + tokens)) (db_keys d)
          then (Inr (), d\<lparr>db_keys := updateWhere (\<lambda>k. ak_ID k = u)
                 (\<lambda>k. k\<lparr>ak_QuotaTokens := ak_QuotaTokens k + tokens, ak_UpdatedAt := now\<rparr>) (db_keys d)\<rparr>)
          else (Inl (Wrap op (SQLError ''bigint out of range'')), d))) d))"

definition CreateApiKeyRow :: "go_time \<Rightarrow> (string + bytes) \<Rightarrow> (string + string) \<Rightarrow> string \<Rightarrow> bool \<Rightarrow> ApiKey sql" where
  "CreateApiKeyRow now random newUUID name is_admin d =
     (let op = ''postgres.apikey_repo.CreateApiKey'' in
      case generateToken random of
        Inl e \<Rightarrow> (Inl (Wrap op e), d)
      | Inr token \<Rightarrow>
         (case newUUID of
            Inl e \<Rightarrow> (Inl (Wrap op (Plain e)), d)
          | Inr uid \<Rightarrow>
              stmt op (\<lambda>d.
                if list_ex (\<lambda>k. ak_ID k = uid \<or> ak_Key k = token) (db_keys d)
                then (Inl (Wrap op (SQLError ''duplicate key value'')), d)
                else
                 (Inr \<lparr>ak_ID = uid, ak_Key = token, ak_Name = name, ak_QuotaSetted = False, ak_QuotaTokens = 0,
                       ak_QuotaPeriod = [], ak_QuotaResetAt = 0, ak_ReservedTokens = 0,
                       ak_RestrictedProviders = [], ak_RestrictedModels = [], ak_CreatedAt = now,
                       ak_UpdatedAt = now, ak_IsDeleted = False, ak_IsActive = False, ak_IsAdmin = False\<rparr>,
                  d\<lparr>db_keys := db_keys d @
                     [\<lparr>ak_ID = uid, ak_Key = token, ak_Name = name, ak_QuotaSetted = False, ak_QuotaTokens = 0,
                       ak_QuotaPeriod = ''forever'', ak_QuotaResetAt = now, ak_ReservedTokens = 0,
                       ak_RestrictedProviders = [], ak_RestrictedModels = [], ak_CreatedAt = now,
                       ak_UpdatedAt = now, ak_IsDeleted = False, ak_IsActive = True, ak_IsAdmin = is_admin\<rparr>]\<rparr>)) d))"

definition RecreateApiKeyRow :: "go_time \<Rightarrow> (string + bytes) \<Rightarrow> string \<Rightarrow> string sql" where
  "RecreateApiKeyRow now random keyID d =
     (let op = ''postgres.apikey_repo.RecreateApiKey'' in
      case generateToken random of
        Inl e \<Rightarrow> (Inl (Wrap op e), d)
      | Inr newKey \<Rightarrow>
          stmt op (withUUID op keyID (\<lambda>u d.
            if list_ex (\<lambda>k. ak_ID k = u) (db_keys d) \<and> list_ex (\<lambda>k. ak_Key k = newKey \<and> ak_ID k \<noteq> u) (db_keys d)
            then (Inl (Wrap op (SQLError ''duplicate key value'')), d)
            else (Inr newKey, d\<lparr>db_keys := updateWhere (\<lambda>k. ak_ID k = u)
                   (\<lambda>k. k\<lparr>ak_Key := newKey, ak_UpdatedAt := now\<rparr>) (db_keys d)\<rparr>))) d)"

definition GetApiKeyByID :: "string \<Rightarrow> ApiKey sql" where
  "GetApiKeyByID keyID =
     (let op = ''postgres.apikey_repo.GetApiKeyByID'' in
      stmt op (withUUID op keyID (\<lambda>u d.
        (case find (\<lambda>k. ak_ID k = u) (db_keys d) of
           None \<Rightarrow> Inl (Wrap op ErrNoRows) | Some k \<Rightarrow> Inr k, d))))"

definition GetApiKeyByKey :: "string \<Rightarrow> ApiKey sql" where
  "GetApiKeyByKey key =
     stmt ''postgres.apikey_repo.GetApiKeyByKey'' (\<lambda>d.
       (case find (\<lambda>k. ak_Key k = key) (db_keys d) of
          None \<Rightarrow> Inl ErrApiKeyNotFound | Some k \<Rightarrow> Inr k, d))"

text \<open>The first component of the result is the key as the caller's pointer sees it afterwards.\<close>

definition rolledOver :: "go_time \<Rightarrow> ApiKey \<Rightarrow> ApiKey" where
  "rolledOver now apiKey =
     (if ak_QuotaSetted apiKey \<and> ak_QuotaResetAt apiKey < now
      then apiKey\<lparr>ak_QuotaResetAt := ak_QuotaResetAt apiKey + ToDuration (ak_QuotaPeriod apiKey),
                  ak_QuotaTokens := 0\<rparr>
      else apiKey)"

definition UpdateApiKeyQuota :: "go_time \<Rightarrow> ApiKey \<Rightarrow> unit sql" where
  "UpdateApiKeyQuota now apiKey0 =
     (let op = ''postgres.apikey_repo.UpdateApiKeyQuota''; apiKey = rolledOver now apiKey0 in
      stmt op (withUUID op (ak_ID apiKey) (\<lambda>u d.
        (Inr (), d\<lparr>db_keys := updateWhere (\<lambda>k. ak_ID k = u)
           (\<lambda>k. k\<lparr>ak_QuotaTokens := ak_QuotaTokens apiKey, ak_QuotaPeriod := ak_QuotaPeriod apiKey,
                   ak_QuotaResetAt := ak_QuotaResetAt apiKey, ak_ReservedTokens := ak_ReservedTokens apiKey,
                   ak_UpdatedAt := now\<rparr>) (db_keys d)\<rparr>))))"

definition UpdateApiKey :: "go_time \<Rightarrow> ApiKey \<Rightarrow> unit sql" where
  "UpdateApiKey now apiKey =
     (let op = ''postgres.apikey_repo.UpdateApiKey'' in
      stmt op (withUUID op (ak_ID apiKey) (\<lambda>u d.
        if \<not> list_ex (\<lambda>k. ak_ID k = u \<and> \<not> ak_IsDeleted k) (db_keys d)
        then (Inl (Wrap op (Plain ''api key not found'')), d)
        else (Inr (), d\<lparr>db_keys := updateWhere (\<lambda>k. ak_ID k = u \<and> \<not> ak_IsDeleted k)
           (\<lambda>k. k\<lparr>ak_Name := ak_Name apiKey, ak_IsActive := ak_IsActive apiKey, ak_IsAdmin := ak_IsAdmin apiKey,
                   ak_QuotaSetted := ak_QuotaSetted apiKey, ak_QuotaPeriod := ak_QuotaPeriod apiKey,
                   ak_QuotaResetAt := ak_QuotaResetAt apiKey, ak_ReservedTokens := ak_ReservedTokens apiKey,
                   ak_RestrictedProviders := ak_RestrictedProviders apiKey,
                   ak_RestrictedModels := ak_RestrictedModels apiKey, ak_UpdatedAt := now\<rparr>) (db_keys d)\<rparr>))))"

definition GetApiKeys :: "ApiKey list sql" where
  "GetApiKeys =
     stmt ''postgres.apikey_repo.GetApiKeys'' (\<lambda>d. (Inr (filter (\<lambda>k. \<not> ak_IsDeleted k) (db_keys d)), d))"

definition DeleteApiKeyRow :: "string \<Rightarrow> unit sql" where
  "DeleteApiKeyRow keyID =
     (let op = ''postgres.apikey_repo.DeleteApiKey'' in
      stmt op (withUUID op keyID (\<lambda>u d.
        (Inr (), d\<lparr>db_keys := updateWhere (\<lambda>k. ak_ID k = u) (\<lambda>k. k\<lparr>ak_IsDeleted := True\<rparr>) (db_keys d)\<rparr>))))"

section \<open>Login\<close>

text \<open>\<open>Inr None\<close> is the master password: no key and no error.\<close>

definition LoginUser :: "string \<Rightarrow> string \<Rightarrow> ApiKey option sql" where
  "LoginUser initialPassword password d =
     (if password \<noteq> initialPassword then
        (case GetApiKeyByKey password d of
           (Inr key, d) \<Rightarrow>
             (if ak_IsActive key \<and> \<not> ak_IsDeleted key then Inr (Some key) else Inl (Plain ''invalid password''), d)
         | (Inl _, d) \<Rightarrow> (Inl (Plain ''invalid password''), d))
      else (Inr None, d))"

section \<open>The quota cron\<close>

text \<open>The job \<open>quota_resetter\<close> of \<open>src/internal/app/app.go\<close>; failures of single keys are logged.\<close>

fun resetKeys :: "go_time \<Rightarrow> ApiKey list \<Rightarrow> db \<Rightarrow> db" where
  "resetKeys now [] d = d"
| "resetKeys now (key # keys) d =
     resetKeys now keys (if ak_QuotaResetAt key < now then snd (UpdateApiKeyQuota now key d) else d)"

definition quota_resetter :: "go_time \<Rightarrow> unit sql" where
  "quota_resetter now d =
     (case GetApiKeys d of
        (Inl e, d) \<Rightarrow> (Inl e, d)
      | (Inr apiKeys, d) \<Rightarrow> (Inr (), resetKeys now apiKeys d))"

section \<open>Lemmas on statements over the key table\<close>

named_theorems key_ops \<open>the operations of the key repository\<close>

lemmas key_op_defs = AddApiKeyQuotaUsage_def CreateApiKeyRow_def RecreateApiKeyRow_def GetApiKeyByID_def
  GetApiKeyByKey_def UpdateApiKeyQuota_def UpdateApiKey_def GetApiKeys_def DeleteApiKeyRow_def

lemma db_keys_simps [simp]:
  "db_keys (d\<lparr>db_faults := fs\<rparr>) = db_keys d" "db_uuid (d\<lparr>db_faults := fs\<rparr>) = db_uuid d"
  by simp_all

text \<open>
  Every statement of the repository either leaves the key table alone, appends a row, or rewrites
  rows in place without touching their identifiers.
\<close>

definition periods :: "string list" where
  "periods = [''forever'', ''month'', ''week'', ''day'', ''hour'', ''minute'']"

definition keysWF :: "db \<Rightarrow> bool" where
  "keysWF d \<longleftrightarrow> distinct (map ak_ID (db_keys d)) \<and> distinct (map ak_Key (db_keys d)) \<and>
     list_all (\<lambda>k. int64 (ak_QuotaTokens k) \<and> ak_QuotaPeriod k \<in> set periods) (db_keys d)"

text \<open>What later states keep of a row: it stays under its identifier, and stays deleted.\<close>

definition keepsRows :: "db \<Rightarrow> db \<Rightarrow> bool" where
  "keepsRows d d' \<longleftrightarrow> (\<forall>k \<in> set (db_keys d). \<exists>k' \<in> set (db_keys d').
      ak_ID k' = ak_ID k \<and> (ak_IsDeleted k \<longrightarrow> ak_IsDeleted k'))"

lemma keepsRows_refl [simp]: "keepsRows d d"
  by (auto simp: keepsRows_def)

lemma keepsRows_trans: "keepsRows a b \<Longrightarrow> keepsRows b c \<Longrightarrow> keepsRows a c"
  unfolding keepsRows_def by metis

lemma keepsRows_same: "db_keys d' = db_keys d \<Longrightarrow> keepsRows d d'"
  by (auto simp: keepsRows_def)

lemma keepsRows_update:
  assumes "db_keys d' = updateWhere P f (db_keys d)"
    and "\<And>k. ak_ID (f k) = ak_ID k" "\<And>k. ak_IsDeleted k \<Longrightarrow> ak_IsDeleted (f k)"
  shows "keepsRows d d'"
  unfolding keepsRows_def
proof
  fix k assume "k \<in> set (db_keys d)"
  then have "(if P k then f k else k) \<in> set (db_keys d')" using assms(1) by (auto simp: updateWhere_def)
  then show "\<exists>k' \<in> set (db_keys d'). ak_ID k' = ak_ID k \<and> (ak_IsDeleted k \<longrightarrow> ak_IsDeleted k')"
    using assms(2,3) by (intro bexI [of _ "if P k then f k else k"]) auto
qed

lemma keysWF_same: "db_keys d' = db_keys d \<Longrightarrow> keysWF d \<Longrightarrow> keysWF d'"
  by (simp add: keysWF_def)

lemma keysWF_update:
  assumes "db_keys d' = updateWhere P f (db_keys d)" "keysWF d"
    and "\<And>k. ak_ID (f k) = ak_ID k" "\<And>k. ak_Key (f k) = ak_Key k"
    and "\<And>k. k \<in> set (db_keys d) \<Longrightarrow> P k \<Longrightarrow> int64 (ak_QuotaTokens (f k)) \<and> ak_QuotaPeriod (f k) \<in> set periods"
  shows "keysWF d'"
  using assms by (simp add: keysWF_def map_updateWhere list_all_updateWhere) (simp add: list_all_iff)

lemma distinct_map_key_update:
  assumes "distinct (map ak_ID rows)" "distinct (map ak_Key rows)"
    and "\<not> list_ex (\<lambda>k. ak_Key k = new \<and> ak_ID k \<noteq> u) rows"
  shows "distinct (map ak_Key (updateWhere (\<lambda>k. ak_ID k = u) (\<lambda>k. k\<lparr>ak_Key := new, ak_UpdatedAt := t\<rparr>) rows))"
  using assms
proof (induction rows)
  case (Cons r rows)
  show ?case
  proof (cases "ak_ID r = u")
    case True
    then have "\<not> list_ex (\<lambda>k. ak_ID k = u) rows" using Cons.prems(1) by (induction rows) auto
    then have "updateWhere (\<lambda>k. ak_ID k = u) (\<lambda>k. k\<lparr>ak_Key := new, ak_UpdatedAt := t\<rparr>) rows = rows"
      by (rule updateWhere_none)
    moreover have "new \<notin> ak_Key ` set rows"
      using True Cons.prems(1,3) by (auto simp: list_ex_iff) (metis imageI)
    ultimately show ?thesis using True Cons.prems(2) by simp
  next
    case False
    have "ak_Key r \<noteq> new" using False Cons.prems(3) by (auto simp: list_ex_iff)
    moreover have "ak_Key r \<notin> ak_Key ` set rows" using Cons.prems(2) by simp
    ultimately have "ak_Key r \<notin> set (map ak_Key (updateWhere (\<lambda>k. ak_ID k = u)
        (\<lambda>k. k\<lparr>ak_Key := new, ak_UpdatedAt := t\<rparr>) rows))"
      by (auto simp: updateWhere_def split: if_splits)
    with False Cons show ?thesis by simp
  qed
qed simp

section \<open>The key table over time\<close>

text \<open>
  One step is one call of a repository operation, in any order and with any arguments.  The keys
  handed to \<open>UpdateApiKey\<close> and \<open>UpdateApiKeyQuota\<close> carry a period and a token count that the
  program can hold.
\<close>

definition validKey :: "ApiKey \<Rightarrow> bool" where
  "validKey k \<longleftrightarrow> int64 (ak_QuotaTokens k) \<and> ak_QuotaPeriod k \<in> set periods"

inductive keyStep :: "db \<Rightarrow> db \<Rightarrow> bool" where
  usage: "keyStep d (snd (AddApiKeyQuotaUsage now i tokens d))"
| create: "keyStep d (snd (CreateApiKeyRow now random uuid name adm d))"
| recreate: "keyStep d (snd (RecreateApiKeyRow now random i d))"
| getID: "keyStep d (snd (GetApiKeyByID i d))"
| getKey: "keyStep d (snd (GetApiKeyByKey key d))"
| quota: "validKey k \<Longrightarrow> keyStep d (snd (UpdateApiKeyQuota now k d))"
| update: "validKey k \<Longrightarrow> keyStep d (snd (UpdateApiKey now k d))"
| list: "keyStep d (snd (GetApiKeys d))"
| delete: "keyStep d (snd (DeleteApiKeyRow i d))"

inductive_cases keyStepE: "keyStep d d'"

definition keyTableOK :: "db \<Rightarrow> db \<Rightarrow> bool" where
  "keyTableOK d d' \<longleftrightarrow> (keysWF d \<longrightarrow> keysWF d') \<and> keepsRows d d'"

lemma keyTableOK_same: "db_keys d' = db_keys d \<Longrightarrow> keyTableOK d d'"
  by (simp add: keyTableOK_def keysWF_same keepsRows_same)

lemma stmt_keyTable:
  assumes "\<And>d. keyTableOK d (snd (f d))"
  shows "keyTableOK d (snd (stmt op f d))"
proof (cases rule: stmt_cases [of op f d])
  case (fault e d')
  then show ?thesis by (simp add: keyTableOK_same)
next
  case (run d')
  then have k: "db_keys d' = db_keys d" by simp
  have "keyTableOK d' (snd (f d'))" by (rule assms)
  then show ?thesis unfolding run(1) using k by (simp add: keyTableOK_def keysWF_def keepsRows_def)
qed

lemma withUUID_keyTable:
  assumes "\<And>u. keyTableOK d (snd (f u d))"
  shows "keyTableOK d (snd (withUUID op s f d))"
  using assms by (auto simp: withUUID_def keyTableOK_same split: option.splits)

lemma update_keyTable:
  assumes "\<And>k. ak_ID (f k) = ak_ID k" "\<And>k. ak_Key (f k) = ak_Key k"
    and "\<And>k. ak_IsDeleted k \<Longrightarrow> ak_IsDeleted (f k)"
    and "\<And>k. keysWF d \<Longrightarrow> k \<in> set (db_keys d) \<Longrightarrow> P k \<Longrightarrow>
      int64 (ak_QuotaTokens (f k)) \<and> ak_QuotaPeriod (f k) \<in> set periods"
  shows "keyTableOK d (d\<lparr>db_keys := updateWhere P f (db_keys d)\<rparr>)"
proof -
  let ?d = "d\<lparr>db_keys := updateWhere P f (db_keys d)\<rparr>"
  have u: "db_keys ?d = updateWhere P f (db_keys d)" by simp
  show ?thesis
    unfolding keyTableOK_def
    using keysWF_update [OF u _ assms(1,2,4)] keepsRows_update [OF u assms(1,3)] by blast
qed

lemma rolledOver_simps [simp]:
  "ak_ID (rolledOver now k) = ak_ID k" "ak_QuotaPeriod (rolledOver now k) = ak_QuotaPeriod k"
  "validKey k \<Longrightarrow> validKey (rolledOver now k)"
  by (simp_all add: rolledOver_def validKey_def int64_def)

lemma keysWF_rows: "keysWF d \<Longrightarrow> k \<in> set (db_keys d) \<Longrightarrow> int64 (ak_QuotaTokens k) \<and> ak_QuotaPeriod k \<in> set periods"
  by (auto simp: keysWF_def list_all_iff)

lemmas keysWF_rowI = keysWF_rows [THEN conjunct1] keysWF_rows [THEN conjunct2]

lemma usage_keyTable: "keyTableOK d (snd (AddApiKeyQuotaUsage now i tokens d))"
proof -
  have "keyTableOK d (d\<lparr>db_keys := updateWhere (\<lambda>k. ak_ID k = u)
      (\<lambda>k. k\<lparr>ak_QuotaTokens := ak_QuotaTokens k + tokens, ak_UpdatedAt := now\<rparr>) (db_keys d)\<rparr>)"
    if "list_all (\<lambda>k. ak_ID k = u \<longrightarrow> int64 (ak_QuotaTokens k + tokens)) (db_keys d)" for d u
    using that by (intro update_keyTable) (auto simp: list_all_iff intro: keysWF_rowI)
  then show ?thesis
    unfolding AddApiKeyQuotaUsage_def Let_def
    by (auto simp: keyTableOK_same intro!: stmt_keyTable withUUID_keyTable)
qed

lemma insert_keyTable:
  assumes "\<not> list_ex (\<lambda>k. ak_ID k = ak_ID r \<or> ak_Key k = ak_Key r) (db_keys d)" "validKey r"
  shows "keyTableOK d (d\<lparr>db_keys := db_keys d @ [r]\<rparr>)"
  using assms by (auto simp: keyTableOK_def keysWF_def keepsRows_def list_ex_iff validKey_def)

lemma create_keyTable: "keyTableOK d (snd (CreateApiKeyRow now random uuid name adm d))"
  unfolding CreateApiKeyRow_def Let_def
  by (auto simp: keyTableOK_same validKey_def int64_def periods_def
      intro!: stmt_keyTable insert_keyTable split: sum.splits)

lemma recreate_keyTable: "keyTableOK d (snd (RecreateApiKeyRow now random i d))"
proof -
  have upd: "keyTableOK d (d\<lparr>db_keys := updateWhere (\<lambda>k. ak_ID k = u)
      (\<lambda>k. k\<lparr>ak_Key := new, ak_UpdatedAt := now\<rparr>) (db_keys d)\<rparr>)"
    if "\<not> (list_ex (\<lambda>k. ak_ID k = u) (db_keys d) \<and> list_ex (\<lambda>k. ak_Key k = new \<and> ak_ID k \<noteq> u) (db_keys d))" for d u new
  proof -
    let ?f = "\<lambda>k. k\<lparr>ak_Key := new, ak_UpdatedAt := now\<rparr>"
    let ?d = "d\<lparr>db_keys := updateWhere (\<lambda>k. ak_ID k = u) ?f (db_keys d)\<rparr>"
    have "keysWF ?d" if wf: "keysWF d"
    proof (cases "list_ex (\<lambda>k. ak_ID k = u) (db_keys d)")
      case True
      then have "distinct (map ak_Key (db_keys ?d))"
        using distinct_map_key_update [of "db_keys d" new u now] wf
          \<open>\<not> (list_ex _ _ \<and> list_ex _ _)\<close> by (simp add: keysWF_def)
      moreover have "map ak_ID (db_keys ?d) = map ak_ID (db_keys d)" by (simp add: map_updateWhere)
      ultimately show ?thesis using wf by (simp add: keysWF_def list_all_updateWhere)
    next
      case False
      then show ?thesis using wf by (simp add: keysWF_def updateWhere_none)
    qed
    then show ?thesis by (auto simp: keyTableOK_def intro!: keepsRows_update)
  qed
  show ?thesis
    unfolding RecreateApiKeyRow_def Let_def
    by (auto simp: keyTableOK_same intro!: stmt_keyTable withUUID_keyTable upd split: sum.splits)
qed

lemma get_keyTable:
  "keyTableOK d (snd (GetApiKeyByID i d))" "keyTableOK d (snd (GetApiKeyByKey key d))" "keyTableOK d (snd (GetApiKeys d))"
  by (auto simp: GetApiKeyByID_def GetApiKeyByKey_def GetApiKeys_def Let_def keyTableOK_same
      intro!: stmt_keyTable withUUID_keyTable)

lemma quota_keyTable: "validKey k \<Longrightarrow> keyTableOK d (snd (UpdateApiKeyQuota now k d))"
  unfolding UpdateApiKeyQuota_def Let_def
  using rolledOver_simps(3) [of k now]
  by (auto simp: validKey_def intro!: stmt_keyTable withUUID_keyTable update_keyTable)

lemma update_key_keyTable: "validKey k \<Longrightarrow> keyTableOK d (snd (UpdateApiKey now k d))"
  unfolding UpdateApiKey_def Let_def
  by (auto simp: validKey_def keyTableOK_same intro!: stmt_keyTable withUUID_keyTable update_keyTable)
    (simp_all add: keysWF_rows)

lemma delete_keyTable: "keyTableOK d (snd (DeleteApiKeyRow i d))"
  unfolding DeleteApiKeyRow_def Let_def
  by (auto intro!: stmt_keyTable withUUID_keyTable update_keyTable)
    (simp_all add: keysWF_rows)

lemma keyStep_OK: "keyStep d d' \<Longrightarrow> keyTableOK d d'"
  by (erule keyStepE) (simp_all add: usage_keyTable create_keyTable recreate_keyTable get_keyTable quota_keyTable
      update_key_keyTable delete_keyTable)

interpretation key_table: invariant_system keyStep "keyTableOK d" for d
proof
  fix s s'
  assume "keyStep s s'" "keyTableOK d s"
  then show "keyTableOK d s'" using keyStep_OK [of s s'] by (auto simp: keyTableOK_def intro: keepsRows_trans)
qed

lemma keySteps_OK: "keyStep\<^sup>*\<^sup>* d d' \<Longrightarrow> keyTableOK d d'"
  by (erule key_table.reachable) (rule keyTableOK_same [OF refl])

section \<open>Login\<close>

lemma LoginUser_cases:
  assumes "LoginUser pw password d = (r, d')"
  shows "db_keys d' = db_keys d \<and>
    (case r of
       Inr None \<Rightarrow> password = pw
     | Inr (Some k) \<Rightarrow> password \<noteq> pw \<and> k \<in> set (db_keys d) \<and> ak_Key k = password \<and> ak_IsActive k \<and> \<not> ak_IsDeleted k
     | Inl e \<Rightarrow> password \<noteq> pw \<and> e = Plain ''invalid password'')"
proof (cases "password = pw")
  case False
  show ?thesis
  proof (cases rule: stmt_cases [of "''postgres.apikey_repo.GetApiKeyByKey''"
        "\<lambda>d. (case find (\<lambda>k. ak_Key k = password) (db_keys d) of None \<Rightarrow> Inl ErrApiKeyNotFound | Some k \<Rightarrow> Inr k, d)" d])
    case (fault e d'')
    with False assms show ?thesis by (auto simp: LoginUser_def GetApiKeyByKey_def)
  next
    case (run d'')
    with False assms show ?thesis
      by (auto simp: LoginUser_def GetApiKeyByKey_def find_Some_iff split: option.splits if_splits)
  qed
qed (use assms in \<open>auto simp: LoginUser_def\<close>)

lemma unique_row:
  "distinct (map f rows) \<Longrightarrow> a \<in> set rows \<Longrightarrow> b \<in> set rows \<Longrightarrow> f a = f b \<Longrightarrow> a = b"
  by (meson distinct_map inj_onD)

section \<open>Tokens\<close>

lemma hexDigit_inj: "a < 16 \<Longrightarrow> b < 16 \<Longrightarrow> hexDigit a = hexDigit b \<Longrightarrow> a = b"
  by (auto simp: hexDigit_def dest!: arg_cong [of _ _ "of_char :: char \<Rightarrow> nat"] split: if_splits)

lemma hexByte_inj: "hexByte a = hexByte b \<Longrightarrow> a = b"
proof -
  assume h: "hexByte a = hexByte b"
  have l: "unat a < 256" "unat b < 256" using unsigned_less [of a] unsigned_less [of b] by simp_all
  from h have "unat a div 16 = unat b div 16" "unat a mod 16 = unat b mod 16"
    using l by (auto simp: hexByte_def intro!: hexDigit_inj)
  then have "unat a = unat b" by (metis div_mult_mod_eq)
  then show "a = b" by (rule unsigned_word_eqI)
qed

lemma hexEncode_inj: "hexEncode a = hexEncode b \<Longrightarrow> a = b"
proof (induction a arbitrary: b)
  case Nil
  then show ?case by (cases b) (auto simp: hexEncode_def hexByte_def)
next
  case (Cons x xs)
  then obtain y ys where b: "b = y # ys" by (cases b) (auto simp: hexEncode_def hexByte_def)
  with Cons.prems have "hexByte x @ hexEncode xs = hexByte y @ hexEncode ys" by (simp add: hexEncode_def)
  then have "hexByte x = hexByte y" "hexEncode xs = hexEncode ys" by (auto simp: hexByte_def)
  then show ?case using Cons.IH b hexByte_inj by blast
qed

lemma generateToken_parts:
  assumes "length b = 15"
  shows "\<exists>x y z. hexEncode b = x @ y @ z \<and> length x = 16 \<and> length y = 6 \<and> length z = 8 \<and>
    generateToken (Inr b) = Inr (''sk-'' @ x @ ''-'' @ y @ ''-'' @ z)"
proof -
  let ?s = "hexEncode b"
  have l: "length ?s = 30" using assms by simp
  have "drop 16 ?s = take 6 (drop 16 ?s) @ drop 22 ?s"
    using append_take_drop_id [of 6 "drop 16 ?s"] by simp
  then have "?s = take 16 ?s @ take 6 (drop 16 ?s) @ drop 22 ?s"
    using append_take_drop_id [of 16 ?s] by simp
  moreover have "take 8 (drop 22 ?s) = drop 22 ?s" using l by simp
  ultimately show ?thesis using l
    by (intro exI [of _ "take 16 ?s"] exI [of _ "take 6 (drop 16 ?s)"] exI [of _ "drop 22 ?s"])
      (simp add: generateToken_def Let_def)
qed

section \<open>Usage accounting\<close>

text \<open>Working off queued usage in order, as \<open>ProcessQueue\<close> does.\<close>

fun applyUsage :: "go_time \<Rightarrow> (string \<times> int) list \<Rightarrow> db \<Rightarrow> db" where
  "applyUsage now [] d = d"
| "applyUsage now ((i, t) # us) d = applyUsage now us (snd (AddApiKeyQuotaUsage now i t d))"

definition tokensFor :: "string \<Rightarrow> (string \<times> int) list \<Rightarrow> int" where
  "tokensFor i us = sum_list (map snd (filter (\<lambda>u. fst u = i) us))"

definition quotaOf :: "string \<Rightarrow> db \<Rightarrow> int list" where
  "quotaOf i d = map ak_QuotaTokens (filter (\<lambda>k. ak_ID k = i) (db_keys d))"

lemma quotaOf_updateWhere:
  "quotaOf i (d\<lparr>db_keys := updateWhere (\<lambda>k. ak_ID k = u)
     (\<lambda>k. k\<lparr>ak_QuotaTokens := ak_QuotaTokens k + t, ak_UpdatedAt := now\<rparr>) (db_keys d)\<rparr>) =
   (if i = u then map (\<lambda>q. q + t) (quotaOf i d) else quotaOf i d)"
proof -
  have "map ak_QuotaTokens (filter (\<lambda>k. ak_ID k = i) (updateWhere (\<lambda>k. ak_ID k = u)
      (\<lambda>k. k\<lparr>ak_QuotaTokens := ak_QuotaTokens k + t, ak_UpdatedAt := now\<rparr>) rows)) =
      (if i = u then map (\<lambda>q. q + t) (map ak_QuotaTokens (filter (\<lambda>k. ak_ID k = i) rows))
       else map ak_QuotaTokens (filter (\<lambda>k. ak_ID k = i) rows))" for rows :: "ApiKey list"
    by (induction rows) auto
  then show ?thesis by (simp add: quotaOf_def)
qed

lemma AddApiKeyQuotaUsage_effect:
  assumes "db_faults d = []" "db_uuid d u = Some u" "\<And>q. q \<in> set (quotaOf u d) \<Longrightarrow> int64 (q + t)"
  shows "quotaOf i (snd (AddApiKeyQuotaUsage now u t d)) = (if i = u then map (\<lambda>q. q + t) (quotaOf i d) else quotaOf i d) \<and>
    db_faults (snd (AddApiKeyQuotaUsage now u t d)) = [] \<and> db_uuid (snd (AddApiKeyQuotaUsage now u t d)) = db_uuid d"
proof (cases "t = 0")
  case False
  have "list_all (\<lambda>k. ak_ID k = u \<longrightarrow> int64 (ak_QuotaTokens k + t)) (db_keys d)"
    using assms(3) by (auto simp: quotaOf_def list_all_iff)
  with False assms(1,2) show ?thesis
    by (simp add: AddApiKeyQuotaUsage_def Let_def stmt_no_fault withUUID_def quotaOf_updateWhere)
qed (use assms in \<open>simp add: AddApiKeyQuotaUsage_def\<close>)

lemma applyUsage_quota:
  assumes "db_faults d = []" "\<And>u. u \<in> fst ` set us \<Longrightarrow> db_uuid d u = Some u"
    and "\<And>u. u \<in> set us \<Longrightarrow> 0 \<le> snd u"
    and "\<And>i q. q \<in> set (quotaOf i d) \<Longrightarrow> 0 \<le> q \<and> q + sum_list (map snd us) < 2 ^ 63"
  shows "quotaOf i (applyUsage now us d) = map (\<lambda>q. q + tokensFor i us) (quotaOf i d)"
  using assms
proof (induction us arbitrary: d)
  case (Cons ut us)
  obtain u t where ut: "ut = (u, t)" by fastforce
  let ?d = "snd (AddApiKeyQuotaUsage now u t d)"
  have "0 \<le> x" if "x \<in> set (map snd us)" for x
  proof -
    from that obtain v where "v \<in> set us" "x = snd v" by auto
    with Cons.prems(3) [of v] show ?thesis by simp
  qed
  then have "0 \<le> sum_list (map snd us)" by (rule sum_list_nonneg)
  then have t: "0 \<le> t" "0 \<le> sum_list (map snd us)"
    using Cons.prems(3) [of ut] ut by simp_all
  have "int64 (q + t)" if "q \<in> set (quotaOf u d)" for q
    using Cons.prems(4) [OF that] t ut by (simp add: int64_def)
  then have e: "quotaOf i ?d = (if i = u then map (\<lambda>q. q + t) (quotaOf i d) else quotaOf i d)"
      "db_faults ?d = []" "db_uuid ?d = db_uuid d" for i
    using AddApiKeyQuotaUsage_effect [of d u t i now] Cons.prems(1,2) ut by auto
  have "quotaOf i (applyUsage now us ?d) = map (\<lambda>q. q + tokensFor i us) (quotaOf i ?d)"
  proof (rule Cons.IH)
    fix j q
    assume "q \<in> set (quotaOf j ?d)"
    then have "\<exists>p \<in> set (quotaOf j d). q = p \<or> q = p + t" by (auto simp: e split: if_splits)
    then show "0 \<le> q \<and> q + sum_list (map snd us) < 2 ^ 63"
      using Cons.prems(4) t ut by fastforce
  qed (use Cons.prems e in auto)
  then show ?case by (auto simp: ut e tokensFor_def)
qed (simp add: tokensFor_def)

section \<open>Periodic resets\<close>

lemma ToDuration_pos: "q \<in> set periods \<Longrightarrow> minute \<le> ToDuration q"
  by (auto simp: periods_def ToDuration_def go_time)

lemma rolledOver_iterate:
  assumes "ak_QuotaSetted k" "ak_QuotaPeriod k \<in> set periods"
  shows "let k' = (rolledOver now ^^ n) k; dur = ToDuration (ak_QuotaPeriod k) in
    ak_QuotaSetted k' \<and> ak_QuotaPeriod k' = ak_QuotaPeriod k \<and>
    ak_QuotaResetAt k \<le> ak_QuotaResetAt k' \<and>
    (ak_QuotaResetAt k' < now \<longrightarrow> ak_QuotaResetAt k' = ak_QuotaResetAt k + int n * dur) \<and>
    (ak_QuotaResetAt k < now \<longrightarrow> ak_QuotaResetAt k' < now + dur)"
proof (induction n)
  case 0
  then show ?case using assms ToDuration_pos [OF assms(2)] by (simp add: Let_def go_time)
next
  case (Suc n)
  have "0 < ToDuration (ak_QuotaPeriod k)" using ToDuration_pos [OF assms(2)] by (simp add: go_time)
  with Suc show ?case
    by (auto simp: Let_def rolledOver_def algebra_simps)
qed

section \<open>Properties\<close>

text \<open>
  C8: whatever sequence of repository operations runs, the key table stays well formed
  (identifiers and secrets unique, consumed tokens within 64 bits, periods among the six known
  ones), no row disappears, and a row that is deleted stays deleted; so a deleted key never logs
  in again, whatever its secret is changed to.
\<close>

theorem deleted_key_never_logs_in:
  assumes "keysWF d" "keyStep\<^sup>*\<^sup>* d d'" "k \<in> set (db_keys d)" "ak_IsDeleted k"
  shows "keysWF d' \<and> (\<forall>pw password k' d''. LoginUser pw password d' = (Inr (Some k'), d'') \<longrightarrow> ak_ID k' \<noteq> ak_ID k)"
proof (intro conjI allI impI)
  have ok: "keyTableOK d d'" by (rule keySteps_OK [OF assms(2)])
  then show wf: "keysWF d'" using assms(1) by (simp add: keyTableOK_def)
  fix pw password k' d''
  assume "LoginUser pw password d' = (Inr (Some k'), d'')"
  from LoginUser_cases [OF this] have k': "k' \<in> set (db_keys d')" "\<not> ak_IsDeleted k'" by auto
  obtain j where j: "j \<in> set (db_keys d')" "ak_ID j = ak_ID k" "ak_IsDeleted j"
    using ok assms(3,4) by (auto simp: keyTableOK_def keepsRows_def)
  show "ak_ID k' \<noteq> ak_ID k"
  proof
    assume "ak_ID k' = ak_ID k"
    then have "k' = j" using unique_row [of ak_ID "db_keys d'" k' j] wf k'(1) j by (simp add: keysWF_def)
    then show False using k'(2) j(3) by simp
  qed
qed

text \<open>
  Queued usage adds up: working off any list of usage records leaves every key with its
  earlier consumption plus the tokens recorded for it, so the order in which concurrent requests
  are accounted for makes no difference.
\<close>

lemma usage_adds_up:
  assumes "db_faults d = []" "\<And>u. u \<in> fst ` set us \<Longrightarrow> db_uuid d u = Some u"
    and "\<And>u. u \<in> set us \<Longrightarrow> 0 \<le> snd u"
    and "\<And>i q. q \<in> set (quotaOf i d) \<Longrightarrow> 0 \<le> q \<and> q + sum_list (map snd us) < 2 ^ 63"
    and "mset us' = mset us"
  shows "quotaOf i (applyUsage now us d) = map (\<lambda>q. q + tokensFor i us) (quotaOf i d) \<and>
    quotaOf i (applyUsage now us' d) = quotaOf i (applyUsage now us d)"
proof -
  have perm: "sum_list (map snd (filter P us')) = sum_list (map snd (filter P us))" for P
  proof -
    have "mset (map snd (filter P us')) = mset (map snd (filter P us))" using assms(5) by (simp add: mset_filter)
    then show ?thesis by (metis sum_mset_sum_list)
  qed
  have s: "set us' = set us" using assms(5) by (rule mset_eq_setD)
  have sum: "sum_list (map snd us') = sum_list (map snd us)" using perm [of "\<lambda>_. True"] by simp
  have "tokensFor i us' = tokensFor i us" unfolding tokensFor_def by (rule perm)
  moreover have "quotaOf i (applyUsage now us' d) = map (\<lambda>q. q + tokensFor i us') (quotaOf i d)"
    using assms(1-4) s sum by (intro applyUsage_quota) auto
  ultimately show ?thesis using applyUsage_quota [OF assms(1-4)] by simp
qed

text \<open>
  An overdue periodic quota catches up: each run of the reset moves the reset time on by
  exactly one period and clears the consumption, and once as many runs have happened as periods
  were missed the reset time is no longer in the past, but less than one period ahead.
\<close>

lemma overdue_quota_catches_up:
  assumes "ak_QuotaSetted k" "ak_QuotaPeriod k \<in> set periods" "ak_QuotaResetAt k < now"
    and "now - ak_QuotaResetAt k \<le> int n * ToDuration (ak_QuotaPeriod k)"
  shows "now \<le> ak_QuotaResetAt ((rolledOver now ^^ n) k) \<and>
    ak_QuotaResetAt ((rolledOver now ^^ n) k) < now + ToDuration (ak_QuotaPeriod k) \<and>
    ak_QuotaTokens (rolledOver now k) = 0 \<and>
    ak_QuotaResetAt (rolledOver now k) = ak_QuotaResetAt k + ToDuration (ak_QuotaPeriod k)"
  using rolledOver_iterate [OF assms(1,2), where now = now and n = n] assms by (auto simp: Let_def rolledOver_def)

text \<open>
  a generated token is \<open>sk-\<close> followed by groups of 16, 6 and 8 hexadecimal digits, 35
  characters in all, and different random bytes give different tokens.
\<close>

lemma generated_tokens_distinct:
  assumes "length a = 15" "length b = 15"
  shows "\<exists>t u. generateToken (Inr a) = Inr t \<and> generateToken (Inr b) = Inr u \<and> length t = 35 \<and>
    hasPrefix t ''sk-'' \<and> (t = u \<longleftrightarrow> a = b)"
proof -
  obtain x y z where a: "hexEncode a = x @ y @ z" "length x = 16" "length y = 6" "length z = 8"
    "generateToken (Inr a) = Inr (''sk-'' @ x @ ''-'' @ y @ ''-'' @ z)"
    using generateToken_parts [OF assms(1)] by blast
  obtain x' y' z' where b: "hexEncode b = x' @ y' @ z'" "length x' = 16" "length y' = 6" "length z' = 8"
    "generateToken (Inr b) = Inr (''sk-'' @ x' @ ''-'' @ y' @ ''-'' @ z')"
    using generateToken_parts [OF assms(2)] by blast
  have "(''sk-'' @ x @ ''-'' @ y @ ''-'' @ z = ''sk-'' @ x' @ ''-'' @ y' @ ''-'' @ z') \<longleftrightarrow> a = b"
    using a(1-4) b(1-4) hexEncode_inj [of a b] by auto
  then show ?thesis using a b by (simp add: hasPrefix_def)
qed

text \<open>
  The two representations of a quota period are inverse to each other, the conversions of the
  model and of the server agree, and the duration the server works with is the model's, except
  that a quota without a period has none.
\<close>

lemma quota_period_roundtrip:
  assumes "quotaPeriod s = Inr (p, dur)"
  shows "p \<in> set periods \<and> quotaResetStrategy p = s \<and> QuotaToProto p = s \<and> ProtoToQuotaPeriod s = p \<and>
    dur = (if p = ''forever'' then 0 else ToDuration p)"
  using assms by (cases s) (auto simp: periods_def quotaResetStrategy_def QuotaToProto_def ToDuration_def go_time)

text \<open>
  C35: the minute job writes back what it read: for a key without a quota whose reset time is past,
  tokens recorded between the read and the write are lost, although usage is queued as increments
  so that writers do not overwrite each other.
\<close>

theorem reset_job_loses_usage:
  assumes "db_keys d = [k]" "db_faults d = []" "db_uuid d (ak_ID k) = Some (ak_ID k)"
    and "\<not> ak_QuotaSetted k" "ak_QuotaResetAt k < now" "int64 (ak_QuotaTokens k + t)"
  shows "fst (GetApiKeys d) = Inr (if ak_IsDeleted k then [] else [k]) \<and>
    quotaOf (ak_ID k) (snd (AddApiKeyQuotaUsage now (ak_ID k) t d)) = [ak_QuotaTokens k + t] \<and>
    quotaOf (ak_ID k) (resetKeys now [k] (snd (AddApiKeyQuotaUsage now (ak_ID k) t d))) = [ak_QuotaTokens k]"
proof -
  have q: "quotaOf (ak_ID k) d = [ak_QuotaTokens k]" using assms(1) by (simp add: quotaOf_def)
  have "quotaOf (ak_ID k) (snd (AddApiKeyQuotaUsage now (ak_ID k) t d)) = [ak_QuotaTokens k + t]"
    using AddApiKeyQuotaUsage_effect [of d "ak_ID k" t "ak_ID k" now] assms q by simp
  moreover have "db_keys (snd (AddApiKeyQuotaUsage now (ak_ID k) t d)) \<in> {[k], [k\<lparr>ak_QuotaTokens := ak_QuotaTokens k + t, ak_UpdatedAt := now\<rparr>]}"
    "db_faults (snd (AddApiKeyQuotaUsage now (ak_ID k) t d)) = []"
    "db_uuid (snd (AddApiKeyQuotaUsage now (ak_ID k) t d)) = db_uuid d"
    using assms by (auto simp: AddApiKeyQuotaUsage_def Let_def stmt_no_fault withUUID_def)
  ultimately show ?thesis
    using assms
    by (auto simp: GetApiKeys_def stmt_no_fault UpdateApiKeyQuota_def rolledOver_def Let_def withUUID_def quotaOf_def)
qed

section \<open>Witnesses\<close>

definition sample_key :: ApiKey where
  "sample_key = \<lparr>ak_ID = ''k1'', ak_Key = ''sk-1'', ak_Name = ''one'', ak_QuotaSetted = True, ak_QuotaTokens = 5,
     ak_QuotaPeriod = ''day'', ak_QuotaResetAt = 0, ak_ReservedTokens = 100, ak_RestrictedProviders = [],
     ak_RestrictedModels = [], ak_CreatedAt = 0, ak_UpdatedAt = 0, ak_IsDeleted = False, ak_IsActive = True,
     ak_IsAdmin = False\<rparr>"

definition sample_db :: db where
  "sample_db = \<lparr>db_keys = [sample_key, sample_key\<lparr>ak_ID := ''k2'', ak_Key := ''sk-2'', ak_IsDeleted := True\<rparr>],
     db_providers = [], db_usage = [], db_subs = [], db_topics = [], db_events = [], db_vapid = None,
     db_nextEvent = 1, db_nextUsage = 1, db_faults = [], db_uuid = Some\<rparr>"

lemma sample_db_wf: "keysWF sample_db"
  by (simp add: keysWF_def sample_db_def sample_key_def int64_def periods_def)

theorem deleted_key_never_logs_in_witness:
  "keysWF (snd (RecreateApiKeyRow 1 (Inr (replicate 15 0)) ''k2'' sample_db)) \<and>
   \<not> (\<exists>pw password k' d''. LoginUser pw password (snd (RecreateApiKeyRow 1 (Inr (replicate 15 0)) ''k2'' sample_db)) =
      (Inr (Some k'), d'') \<and> ak_ID k' = ''k2'')"
proof -
  have step: "keyStep\<^sup>*\<^sup>* sample_db (snd (RecreateApiKeyRow 1 (Inr (replicate 15 0)) ''k2'' sample_db))"
    using keyStep.recreate by blast
  have row: "sample_key\<lparr>ak_ID := ''k2'', ak_Key := ''sk-2'', ak_IsDeleted := True\<rparr> \<in> set (db_keys sample_db)"
    by (simp add: sample_db_def)
  show ?thesis using deleted_key_never_logs_in [OF sample_db_wf step row] by fastforce
qed

theorem reset_job_loses_usage_witness:
  "quotaOf ''k1'' (resetKeys 1 [sample_key\<lparr>ak_QuotaSetted := False\<rparr>]
      (snd (AddApiKeyQuotaUsage 1 ''k1'' 7 (sample_db\<lparr>db_keys := [sample_key\<lparr>ak_QuotaSetted := False\<rparr>]\<rparr>)))) = [5]"
  using reset_job_loses_usage [of "sample_db\<lparr>db_keys := [sample_key\<lparr>ak_QuotaSetted := False\<rparr>]\<rparr>"
      "sample_key\<lparr>ak_QuotaSetted := False\<rparr>" 1 7]
  by (simp add: sample_db_def sample_key_def int64_def)

end
