(* ===== verification/Glob.thy ===== *)
theory Glob
  imports Prelude
begin

text \<open>
  \<open>path.Match\<close> of the Go standard library, which decides whether a restriction of an API key
  covers a model or a provider (called from \<open>src/internal/app/cliproxyapi/access_policy.go\<close>):
  shell patterns over byte strings, with character classes over UTF-8 code points.  A malformed
  pattern is the error \<open>ErrBadPattern\<close>, here \<open>None\<close>.
\<close>

section \<open>Package unicode/utf8\<close>

definition contByte :: "nat \<Rightarrow> bool" where
  "contByte b \<longleftrightarrow> 0x80 \<le> b \<and> b \<le> 0xBF"

definition runeError :: nat where "runeError = 0xFFFD"

text \<open>The code point at the start of a string and its width; \<open>(runeError, 1)\<close> if it is malformed.\<close>

definition decodeRune :: "string \<Rightarrow> nat \<times> nat" where
  "decodeRune s =
     (case map of_char s of
        [] \<Rightarrow> (runeError, 0)
      | b0 # rest \<Rightarrow>
          if b0 < 0x80 then (b0, 1)
          else if 0xC2 \<le> b0 \<and> b0 \<le> 0xDF then
            (case rest of
               b1 # _ \<Rightarrow> if contByte b1 then ((b0 - 0xC0) * 64 + (b1 - 0x80), 2) else (runeError, 1)
             | _ \<Rightarrow> (runeError, 1))
          else if 0xE0 \<le> b0 \<and> b0 \<le> 0xEF then
            (case rest of
               b1 # b2 # _ \<Rightarrow>
                 if contByte b1 \<and> contByte b2 \<and> (b0 = 0xE0 \<longrightarrow> 0xA0 \<le> b1) \<and> (b0 = 0xED \<longrightarrow> b1 \<le> 0x9F)
                 then ((b0 - 0xE0) * 4096 + (b1 - 0x80) * 64 + (b2 - 0x80), 3) else (runeError, 1)
             | _ \<Rightarrow> (runeError, 1))
          else if 0xF0 \<le> b0 \<and> b0 \<le> 0xF4 then
            (case rest of
               b1 # b2 # b3 # _ \<Rightarrow>
                 if contByte b1 \<and> contByte b2 \<and> contByte b3 \<and> (b0 = 0xF0 \<longrightarrow> 0x90 \<le> b1) \<and> (b0 = 0xF4 \<longrightarrow> b1 \<le> 0x8F)
                 then ((b0 - 0xF0) * 262144 + (b1 - 0x80) * 4096 + (b2 - 0x80) * 64 + (b3 - 0x80), 4)
                 else (runeError, 1)
             | _ \<Rightarrow> (runeError, 1))
          else (runeError, 1))"

lemma decodeRune_width: "s \<noteq> [] \<Longrightarrow> 0 < snd (decodeRune s)"
  by (cases s) (auto simp: decodeRune_def split: list.splits)

section \<open>Package path\<close>

definition backslash :: char where "backslash = CHR 0x5C"

text \<open>\<open>getEsc\<close>: a possibly escaped character of a class, and the pattern after it.\<close>

definition getEsc :: "string \<Rightarrow> (nat \<times> string) option" where
  "getEsc chunk0 =
     (if chunk0 = [] \<or> hd chunk0 = CHR ''-'' \<or> hd chunk0 = CHR '']'' then None
      else
        let chunk = (if hd chunk0 = backslash then tl chunk0 else chunk0) in
        if chunk = [] then None
        else case decodeRune chunk of
          (r, n) \<Rightarrow>
            if r = runeError \<and> n = 1 then None
            else if drop n chunk = [] then None
            else Some (r, drop n chunk))"

lemma getEsc_shrinks: "getEsc chunk = Some (r, rest) \<Longrightarrow> length rest < length chunk \<and> rest \<noteq> []"
proof -
  assume g: "getEsc chunk = Some (r, rest)"
  let ?c = "if hd chunk = backslash then tl chunk else chunk"
  obtain n where n: "decodeRune ?c = (r, n)" "rest = drop n ?c" "rest \<noteq> []" "?c \<noteq> []" "chunk \<noteq> []"
    using g by (auto simp: getEsc_def Let_def split: if_splits prod.splits)
  then have "0 < n" using decodeRune_width [of ?c] by simp
  then have "length rest < length ?c" using n(2,4) by simp
  then show ?thesis using n(3) by (auto split: if_splits)
qed

text \<open>
  The ranges of a class: whether one of them holds the code point \<open>r\<close>, and the pattern after the
  closing bracket.
\<close>

function classLoop :: "nat \<Rightarrow> nat \<Rightarrow> bool \<Rightarrow> string \<Rightarrow> (bool \<times> string) option" where
  "classLoop r nrange mat chunk =
     (if chunk \<noteq> [] \<and> hd chunk = CHR '']'' \<and> 0 < nrange then Some (mat, tl chunk)
      else
        case getEsc chunk of
          None \<Rightarrow> None
        | Some (lo, chunk1) \<Rightarrow>
           (case (if hd chunk1 = CHR ''-'' then getEsc (tl chunk1) else Some (lo, chunk1)) of
              None \<Rightarrow> None
            | Some (hi, chunk2) \<Rightarrow>
                classLoop r (Suc nrange) (mat \<or> (lo \<le> r \<and> r \<le> hi)) chunk2))"
  by pat_completeness auto
termination
  by (relation "measure (\<lambda>(r, n, m, chunk). length chunk)")
    (auto dest!: getEsc_shrinks split: if_splits)

declare classLoop.simps [simp del]

lemma classLoop_shrinks: "classLoop r n m chunk = Some (m', rest) \<Longrightarrow> length rest < length chunk"
proof (induction r n m chunk rule: classLoop.induct)
  case (1 r nrange mat chunk)
  show ?case
  proof (cases "chunk \<noteq> [] \<and> hd chunk = CHR '']'' \<and> 0 < nrange")
    case True
    with "1.prems" show ?thesis by (auto simp: classLoop.simps [of r nrange mat chunk])
  next
    case False
    with "1.prems" obtain lo chunk1 hi chunk2 where
      c: "getEsc chunk = Some (lo, chunk1)"
        "(if hd chunk1 = CHR ''-'' then getEsc (tl chunk1) else Some (lo, chunk1)) = Some (hi, chunk2)"
        "classLoop r (Suc nrange) (mat \<or> (lo \<le> r \<and> r \<le> hi)) chunk2 = Some (m', rest)"
      by (subst (asm) classLoop.simps) (auto split: option.splits prod.splits simp del: if_split_asm)
    have "length chunk2 \<le> length chunk1" "length chunk1 < length chunk"
      using c(1,2) by (auto dest!: getEsc_shrinks split: if_splits)
    then show ?thesis using "1.IH" [OF False c(1) refl c(2) refl c(3)] by simp
  qed
qed

text \<open>
  \<open>matchChunk\<close>: \<open>None\<close> for a bad pattern, \<open>Some None\<close> for no match, \<open>Some (Some rest)\<close> for a match
  with the rest of the name.  The argument \<open>s\<close> is \<open>None\<close> once the match has failed; the pattern is
  then only checked.
\<close>

function matchChunk :: "string \<Rightarrow> string option \<Rightarrow> string option option" where
  "matchChunk chunk s0 =
     (if chunk = [] then Some s0
      else
        let s = (if s0 = Some [] then None else s0) in
        if hd chunk = CHR ''['' then
          (let (r, s1) = (case s of None \<Rightarrow> (0, None)
                          | Some t \<Rightarrow> (case decodeRune t of (r, n) \<Rightarrow> (r, Some (drop n t))));
               chunk1 = tl chunk;
               negated = (chunk1 \<noteq> [] \<and> hd chunk1 = CHR 0x5E);
               chunk2 = (if negated then tl chunk1 else chunk1)
           in case classLoop r 0 False chunk2 of
                None \<Rightarrow> None
              | Some (mat, chunk3) \<Rightarrow> matchChunk chunk3 (if mat = negated then None else s1))
        else if hd chunk = CHR ''?'' then
          matchChunk (tl chunk)
            (case s of None \<Rightarrow> None
             | Some t \<Rightarrow> if hd t = CHR ''/'' then None else Some (drop (snd (decodeRune t)) t))
        else
          let chunk1 = (if hd chunk = backslash then tl chunk else chunk) in
          if chunk1 = [] then None
          else matchChunk (tl chunk1)
            (case s of None \<Rightarrow> None | Some t \<Rightarrow> if hd chunk1 \<noteq> hd t then None else Some (tl t)))"
  by pat_completeness auto
termination
proof (relation "measure (\<lambda>(chunk, s). length chunk)", goal_cases)
  case (2 chunk s0 s x r s1 chunk1 negated chunk2 a mat chunk3)
  then have "length chunk3 < length chunk2" by (auto dest: classLoop_shrinks)
  moreover have "length chunk2 < length chunk" using 2 by (auto simp: diff_Suc less_diff_conv split: if_splits nat.splits)
  ultimately show ?case by simp
qed (auto split: if_splits simp: less_Suc_eq_le)

declare matchChunk.simps [simp del]

fun scanLen :: "bool \<Rightarrow> string \<Rightarrow> nat" where
  "scanLen inrange [] = 0"
| "scanLen inrange (c # cs) =
     (if c = backslash then (case cs of [] \<Rightarrow> 1 | d # ds \<Rightarrow> 2 + scanLen inrange ds)
      else if c = CHR ''['' then Suc (scanLen True cs)
      else if c = CHR '']'' then Suc (scanLen False cs)
      else if c = CHR ''*'' \<and> \<not> inrange then 0
      else Suc (scanLen inrange cs))"

definition scanChunk :: "string \<Rightarrow> bool \<times> string \<times> string" where
  "scanChunk pattern =
     (let star = (pattern \<noteq> [] \<and> hd pattern = CHR ''*'');
          p = dropWhile (\<lambda>c. c = CHR ''*'') pattern;
          i = scanLen False p
      in (star, take i p, drop i p))"

text \<open>Matches of the chunk at later positions: the rest of the name, skipping no slash.\<close>

fun skipMatch :: "string \<Rightarrow> bool \<Rightarrow> string \<Rightarrow> string option option" where
  "skipMatch chunk fin [] = Some None"
| "skipMatch chunk fin (c # cs) =
     (if c = CHR ''/'' then Some None
      else case matchChunk chunk (Some cs) of
        None \<Rightarrow> None
      | Some (Some t) \<Rightarrow> if fin \<and> t \<noteq> [] then skipMatch chunk fin cs else Some (Some t)
      | Some None \<Rightarrow> skipMatch chunk fin cs)"

lemma scanChunk_shrinks:
  assumes "scanChunk pattern = (star, chunk, rest)" "pattern \<noteq> []"
  shows "length rest < length pattern"
proof -
  let ?p = "dropWhile (\<lambda>c. c = CHR ''*'') pattern"
  have r: "rest = drop (scanLen False ?p) ?p" using assms(1) by (simp add: scanChunk_def Let_def)
  show ?thesis
  proof (cases "hd pattern = CHR ''*''")
    case True
    then have "length ?p < length pattern" using assms(2) by (cases pattern) (auto simp: le_imp_less_Suc length_dropWhile_le)
    then show ?thesis using r by simp
  next
    case False
    then have "?p = pattern" using assms(2) by (cases pattern) auto
    moreover have "0 < scanLen False pattern" using False assms(2) by (cases pattern) (auto split: list.splits)
    ultimately show ?thesis using r assms(2) by simp
  qed
qed

text \<open>The check of the remaining pattern before reporting that there is no match.\<close>

function restValid :: "string \<Rightarrow> bool" where
  "restValid pattern =
     (if pattern = [] then True
      else case scanChunk pattern of
        (star, chunk, rest) \<Rightarrow> if matchChunk chunk (Some []) = None then False else restValid rest)"
  by pat_completeness auto
termination
  by (relation "measure length") (auto dest: scanChunk_shrinks [OF sym])

declare restValid.simps [simp del]

function Match :: "string \<Rightarrow> string \<Rightarrow> bool option" where
  "Match pattern name =
     (if pattern = [] then Some (name = [])
      else case scanChunk pattern of
        (star, chunk, rest) \<Rightarrow>
          if star \<and> chunk = [] then Some (CHR ''/'' \<notin> set name)
          else
            let fail = (if restValid rest then Some False else None) in
            case matchChunk chunk (Some name) of
              None \<Rightarrow> None
            | Some (Some t) \<Rightarrow>
                if t = [] \<or> rest \<noteq> [] then Match rest t
                else if star then
                  (case skipMatch chunk (rest = []) name of
                     None \<Rightarrow> None | Some (Some t') \<Rightarrow> Match rest t' | Some None \<Rightarrow> fail)
                else fail
            | Some None \<Rightarrow>
                if star then
                  (case skipMatch chunk (rest = []) name of
                     None \<Rightarrow> None | Some (Some t') \<Rightarrow> Match rest t' | Some None \<Rightarrow> fail)
                else fail)"
  by pat_completeness auto
termination
  by (relation "measure (\<lambda>(pattern, name). length pattern)") (auto dest: scanChunk_shrinks [OF sym])

declare Match.simps [simp del]

section \<open>Literal patterns\<close>

definition plainChar :: "char \<Rightarrow> bool" where
  "plainChar c \<longleftrightarrow> c \<noteq> CHR ''*'' \<and> c \<noteq> CHR ''?'' \<and> c \<noteq> CHR ''['' \<and> c \<noteq> backslash"

lemma matchChunk_failed_plain: "list_all plainChar p \<Longrightarrow> matchChunk p None = Some None"
proof (induction p)
  case (Cons c p)
  then show ?case by (subst matchChunk.simps) (auto simp: plainChar_def)
qed (simp add: matchChunk.simps)

lemma matchChunk_plain:
  "list_all plainChar p \<Longrightarrow> matchChunk p (Some s) = Some (cutPrefix s p)"
proof (induction p arbitrary: s)
  case Nil
  then show ?case by (simp add: matchChunk.simps cutPrefix_def)
next
  case (Cons c p)
  then have c: "plainChar c" "list_all plainChar p" by simp_all
  show ?case
  proof (cases s)
    case Nil
    then show ?thesis using c matchChunk_failed_plain [OF c(2)]
      by (subst matchChunk.simps) (simp add: plainChar_def cutPrefix_def hasPrefix_def)
  next
    case (Cons d t)
    then show ?thesis using c matchChunk_failed_plain [OF c(2)] Cons.IH [OF c(2), of t]
      by (subst matchChunk.simps) (simp add: plainChar_def cutPrefix_def hasPrefix_def)
  qed
qed

lemma scanLen_plain:
  "list_all plainChar p \<Longrightarrow> scanLen inrange (p @ q) = length p + scanLen (inrange \<and> CHR '']'' \<notin> set p) q"
  by (induction p arbitrary: inrange) (auto simp: plainChar_def)

lemma scanChunk_plain:
  assumes "list_all plainChar p" "p \<noteq> []"
  shows "scanChunk p = (False, p, [])" "scanChunk (p @ ''*'') = (False, p, ''*'')"
proof -
  have h: "hd p \<noteq> CHR ''*''" using assms by (cases p) (auto simp: plainChar_def)
  then have d: "dropWhile (\<lambda>c. c = CHR ''*'') (p @ q) = p @ q" for q using assms(2) by (cases p) auto
  show "scanChunk p = (False, p, [])"
    using scanLen_plain [OF assms(1), of False "[]"] d [of "[]"] h by (simp add: scanChunk_def Let_def)
  show "scanChunk (p @ ''*'') = (False, p, ''*'')"
    using scanLen_plain [OF assms(1), of False "''*''"] d [of "''*''"] h assms(2) by (simp add: scanChunk_def Let_def backslash_def)
qed

lemma restValid_Nil [simp]: "restValid []"
  by (simp add: restValid.simps)

lemma Match_star: "Match ''*'' s = Some (CHR ''/'' \<notin> set s)"
  by (subst Match.simps) (simp add: scanChunk_def)

lemma restValid_star [simp]: "restValid ''*''"
  by (subst restValid.simps) (simp add: scanChunk_def matchChunk.simps)

lemma Match_literal: "list_all plainChar p \<Longrightarrow> Match p s = Some (p = s)"
proof (cases "p = []")
  case True
  then show ?thesis by (auto simp: Match.simps)
next
  case False
  assume p: "list_all plainChar p"
  show ?thesis
    by (subst Match.simps)
      (auto simp: False scanChunk_plain(1) [OF p False] matchChunk_plain [OF p] cutPrefix_def hasPrefix_iff
        Match.simps [of "[]"] Let_def split: option.splits)
qed

lemma Match_prefix_star:
  assumes "list_all plainChar p" "p \<noteq> []"
  shows "Match (p @ ''*'') s = Some (\<exists>r. s = p @ r \<and> CHR ''/'' \<notin> set r)"
  using assms
  by (subst Match.simps)
    (auto simp: scanChunk_plain(2) [OF assms] matchChunk_plain [OF assms(1)] cutPrefix_def hasPrefix_iff Match_star Let_def
      split: option.splits)

end
