(* ===== verification/Provider_Repo.thy ===== *)
theory Provider_Repo
  imports Store
begin

text \<open>
  The repository of providers (\<open>src/internal/adapter/postgres/provider_repo\<close>): the table
  \<open>providers\<close> of the store and one operation per method.  \<open>uuid.NewString\<close> and the clock are
  arguments.  \<open>SELECT\<close> without an order returns the rows in the order of the table.
\<close>

section \<open>Operations\<close>

definition GetProvider :: "string \<Rightarrow> Provider sql" where
  "GetProvider providerID =
     (let op = ''postgres.provider_repo.GetProvider'' in
      stmt op (withUUID op providerID (\<lambda>u d.
        (case find (\<lambda>p. pr_ID p = u) (db_providers d) of
           None \<Rightarrow> Inl (Wrap op ErrNoRows) | Some p \<Rightarrow> Inr p, d))))"

definition GetProviders :: "Provider list sql" where
  "GetProviders = stmt ''postgres.provider_repo.GetProviders'' (\<lambda>d. (Inr (db_providers d), d))"

definition GetProviderById :: "string \<Rightarrow> Provider sql" where
  "GetProviderById providerID =
     (let op = ''postgres.provider_repo.GetProvider'' in
      stmt op (withUUID op providerID (\<lambda>u d.
        (case find (\<lambda>p. pr_ID p = u) (db_providers d) of
           None \<Rightarrow> Inl (Wrap op ErrNoRows) | Some p \<Rightarrow> Inr p, d))))"

definition UpdateProxyRow :: "string \<Rightarrow> string \<Rightarrow> bool \<Rightarrow> bool \<Rightarrow> unit sql" where
  "UpdateProxyRow providerID proxy use_proxy is_cloudflare =
     (let op = ''postgres.provider_repo.UpdateProxy'' in
      stmt op (withUUID op providerID (\<lambda>u d.
        (Inr (), d\<lparr>db_providers := updateWhere (\<lambda>p. pr_ID p = u)
           (\<lambda>p. p\<lparr>pr_Proxy := proxy, pr_UseProxy := use_proxy, pr_IsCloudflare := is_cloudflare\<rparr>)
           (db_providers d)\<rparr>))))"

text \<open>The columns an insert leaves out take the defaults of the schema: no credentials, not disabled.\<close>

definition CreateProviderRow :: "go_time \<Rightarrow> string \<Rightarrow> string \<Rightarrow> int \<Rightarrow> string \<Rightarrow> string \<Rightarrow> bool \<Rightarrow> string \<Rightarrow> bool \<Rightarrow>
    int \<Rightarrow> Provider sql" where
  "CreateProviderRow now newID name providerType clientID clientSecret useProxy proxy isCloudflare priority d =
     (let op = ''postgres.provider_repo.CreateProvider'' in
      case stmt op (\<lambda>d.
          if list_ex (\<lambda>p. pr_ID p = newID) (db_providers d)
          then (Inl (Wrap op (SQLError ''duplicate key value'')), d)
          else (Inr (), d\<lparr>db_providers := db_providers d @
            [\<lparr>pr_ID = newID, pr_Name = name, pr_Type = providerType, pr_BaseUrl = clientID,
              pr_ClientSecret = clientSecret, pr_Credentials = [], pr_UseProxy = useProxy, pr_Proxy = proxy,
              pr_IsCloudflare = isCloudflare, pr_Priority = priority, pr_Disabled = False,
              pr_CreatedAt = now, pr_UpdatedAt = now\<rparr>]\<rparr>)) d of
        (Inl e, d) \<Rightarrow> (Inl e, d)
      | (Inr _, d) \<Rightarrow> GetProvider newID d)"

definition UpdateProviderRow :: "go_time \<Rightarrow> string \<Rightarrow> string \<Rightarrow> int \<Rightarrow> string \<Rightarrow> string \<Rightarrow> bool \<Rightarrow> string \<Rightarrow> bool \<Rightarrow>
    int \<Rightarrow> bool \<Rightarrow> Provider sql" where
  "UpdateProviderRow now providerID name providerType clientID clientSecret useProxy proxy isCloudflare priority disabled d =
     (let op = ''postgres.provider_repo.UpdateProvider'' in
      case stmt op (withUUID op providerID (\<lambda>u d.
          (Inr (), d\<lparr>db_providers := updateWhere (\<lambda>p. pr_ID p = u)
             (\<lambda>p. p\<lparr>pr_Name := name, pr_Type := providerType, pr_BaseUrl := clientID, pr_ClientSecret := clientSecret,
                     pr_UseProxy := useProxy, pr_Proxy := proxy, pr_IsCloudflare := isCloudflare,
                     pr_Priority := priority, pr_Disabled := disabled, pr_UpdatedAt := now\<rparr>) (db_providers d)\<rparr>))) d of
        (Inl e, d) \<Rightarrow> (Inl e, d)
      | (Inr _, d) \<Rightarrow> GetProviderById providerID d)"

definition UpdateProviderCredentials :: "go_time \<Rightarrow> string \<Rightarrow> string \<Rightarrow> object \<Rightarrow> Provider sql" where
  "UpdateProviderCredentials now providerID clientSecret credentials d =
     (let op = ''postgres.provider_repo.UpdateProviderCredentials'' in
      case stmt op (withUUID op providerID (\<lambda>u d.
          (Inr (), d\<lparr>db_providers := updateWhere (\<lambda>p. pr_ID p = u)
             (\<lambda>p. p\<lparr>pr_ClientSecret := clientSecret, pr_Credentials := credentials, pr_UpdatedAt := now\<rparr>)
             (db_providers d)\<rparr>))) d of
        (Inl e, d) \<Rightarrow> (Inl e, d)
      | (Inr _, d) \<Rightarrow> GetProvider providerID d)"

definition DeleteProviderRow :: "string \<Rightarrow> unit sql" where
  "DeleteProviderRow providerID =
     (let op = ''postgres.provider_repo.DeleteProvider'' in
      stmt op (withUUID op providerID (\<lambda>u d.
        (Inr (), d\<lparr>db_providers := filter (\<lambda>p. pr_ID p \<noteq> u) (db_providers d)\<rparr>))))"

section \<open>Lemmas\<close>

lemma GetProvider_no_fault: "db_faults d = [] \<Longrightarrow> snd (GetProvider i d) = d"
  by (simp add: GetProvider_def stmt_no_fault withUUID_def Let_def split: option.splits)

lemma GetProvider_keeps: "db_providers (snd (GetProvider i d)) = db_providers d" "db_uuid (snd (GetProvider i d)) = db_uuid d"
  "db_faults (snd (GetProvider i d)) = tl (db_faults d)"
  by (auto simp: GetProvider_def Let_def stmt_def withUUID_def split: list.splits option.splits)

end
