(* ===== verification/Access_Policy.thy ===== *)
theory Access_Policy
  imports Glob Provider_Repo
begin

text \<open>
  Per-key restrictions (\<open>src/internal/app/cliproxyapi/access_policy.go\<close>): the store of policies,
  which remembers for each key which providers and models it may not use, and the selector that
  CLIProxyAPI calls to choose a credential for a request.

  From outside come the digest, the Unicode case table \<open>ul\<close>, CLIProxyAPI's \<open>CallerScope\<close>, the UUID
  parser and the selector that the restricted one delegates to.
\<close>

section \<open>Restrictions\<close>

definition normalizeRestriction :: "(string \<Rightarrow> string) \<Rightarrow> string \<Rightarrow> string" where
  "normalizeRestriction ul value = toLower ul (trimSpace value)"

fun uniqueRestrictions :: "(string \<Rightarrow> string) \<Rightarrow> string list \<Rightarrow> string list \<Rightarrow> string list" where
  "uniqueRestrictions ul seen [] = []"
| "uniqueRestrictions ul seen (v # vs) =
     (let value = normalizeRestriction ul v in
      if value = [] then uniqueRestrictions ul seen vs
      else if value \<in> set seen then uniqueRestrictions ul seen vs
      else value # uniqueRestrictions ul (value # seen) vs)"

definition normalizeRestrictions :: "(string \<Rightarrow> string) \<Rightarrow> string list \<Rightarrow> string list" where
  "normalizeRestrictions ul values = uniqueRestrictions ul [] values"

definition variantsOf :: "string \<Rightarrow> string list" where
  "variantsOf value = value # (case cutPrefix value ''models/'' of None \<Rightarrow> [] | Some w \<Rightarrow> [w])"

text \<open>One restriction against one variant; a malformed pattern counts as a match.\<close>

definition covers :: "string \<Rightarrow> string \<Rightarrow> bool" where
  "covers restriction variant =
     (case Match restriction variant of None \<Rightarrow> True | Some matched \<Rightarrow> matched \<or> restriction = variant)"

definition restrictedMatch :: "(string \<Rightarrow> string) \<Rightarrow> string list \<Rightarrow> string \<Rightarrow> bool" where
  "restrictedMatch ul restrictions value0 =
     (let value = normalizeRestriction ul value0 in
      if value = [] then False
      else list_ex (\<lambda>restriction. list_ex (covers restriction) (variantsOf value)) restrictions)"

definition typeCovers :: "string \<Rightarrow> string \<Rightarrow> bool" where
  "typeCovers restriction provider =
     (if restriction = ''openai'' then provider = ''openai'' \<or> provider = ''codex''
      else if restriction = ''anthropic'' then provider = ''anthropic'' \<or> provider = ''claude''
      else if restriction = ''grok'' then provider = ''grok'' \<or> provider = ''xai''
      else if restriction = ''kimi'' \<or> restriction = ''moonshot'' then
        provider = ''kimi'' \<or> provider = ''moonshot'' \<or> provider = ''openai-compatible-kimi''
      else if restriction = ''antigravity'' then provider = ''antigravity'' \<or> provider = ''gemini''
      else if restriction = ''opencode-zen'' \<or> restriction = ''opencode_zen'' \<or> restriction = ''zen'' then
        contains provider ''opencode'' \<and> contains provider ''zen''
      else if restriction = ''opencode-go'' \<or> restriction = ''opencode_go'' \<or> restriction = ''go'' then
        contains provider ''opencode'' \<and> (hasSuffix provider ''-go'' \<or> hasSuffix provider ''_go'')
      else False)"

definition providerTypeRestricted :: "(string \<Rightarrow> string) \<Rightarrow> string list \<Rightarrow> string \<Rightarrow> bool" where
  "providerTypeRestricted ul restrictions provider0 =
     (let provider = normalizeRestriction ul provider0 in
      list_ex (\<lambda>restriction. typeCovers restriction provider) restrictions)"

definition credentialFingerprint :: "(bytes \<Rightarrow> bytes) \<Rightarrow> string list \<Rightarrow> string" where
  "credentialFingerprint sha256 values =
     hexEncode (sha256 (bytes_of (concat (map (\<lambda>value. CHR 0x00 # trimSpace value) values))))"

section \<open>The store of policies\<close>

record accessPolicy =
  ap_restrictedProviders :: "string list"
  ap_restrictedModels :: "string list"

record AccessPolicyStore =
  st_policies :: "string \<Rightarrow> accessPolicy option"
  st_fingerprints :: "string \<Rightarrow> string option"
  st_resolvedAt :: "string \<Rightarrow> go_time option"
  st_hasRepo :: bool

definition providerFingerprintTTL :: go_duration where
  "providerFingerprintTTL = 30 * second"

record policy_env =
  pe_sha256 :: "bytes \<Rightarrow> bytes"
  pe_ul :: "string \<Rightarrow> string"
  pe_callerScope :: "string \<Rightarrow> string"
  pe_isUUID :: "string \<Rightarrow> bool"

definition NewAccessPolicyStore :: "bool \<Rightarrow> AccessPolicyStore" where
  "NewAccessPolicyStore hasRepo =
     \<lparr>st_policies = Map.empty, st_fingerprints = Map.empty, st_resolvedAt = Map.empty, st_hasRepo = hasRepo\<rparr>"

fun resolveLoop :: "policy_env \<Rightarrow> go_time \<Rightarrow> string list \<Rightarrow> AccessPolicyStore \<Rightarrow> db \<Rightarrow> AccessPolicyStore \<times> db" where
  "resolveLoop env now [] s d = (s, d)"
| "resolveLoop env now (providerID # rest) s d =
     (if \<not> pe_isUUID env providerID then resolveLoop env now rest s d
      else if (case st_resolvedAt s providerID of Some t \<Rightarrow> now - t < providerFingerprintTTL | None \<Rightarrow> False)
      then resolveLoop env now rest s d
      else
       (let s = s\<lparr>st_resolvedAt := (st_resolvedAt s)(providerID \<mapsto> now)\<rparr> in
        case GetProvider providerID d of
          (Inl _, d) \<Rightarrow>
            resolveLoop env now rest (s\<lparr>st_fingerprints := (st_fingerprints s)(providerID := None)\<rparr>) d
        | (Inr provider, d) \<Rightarrow>
            if hasPrefix (pr_ClientSecret provider) ''oauth:'' then
              resolveLoop env now rest (s\<lparr>st_fingerprints := (st_fingerprints s)(providerID := None)\<rparr>) d
            else
              resolveLoop env now rest
                (s\<lparr>st_fingerprints := (st_fingerprints s)(providerID \<mapsto>
                     credentialFingerprint (pe_sha256 env) [pr_ClientSecret provider, pr_BaseUrl provider])\<rparr>) d))"

definition resolveProviderFingerprints :: "policy_env \<Rightarrow> go_time \<Rightarrow> string list \<Rightarrow> AccessPolicyStore \<Rightarrow> db \<Rightarrow>
    AccessPolicyStore \<times> db" where
  "resolveProviderFingerprints env now providerIDs s d =
     (if \<not> st_hasRepo s then (s, d) else resolveLoop env now providerIDs s d)"

definition SetPolicy :: "policy_env \<Rightarrow> go_time \<Rightarrow> string \<Rightarrow> string list \<Rightarrow> string list \<Rightarrow> AccessPolicyStore \<Rightarrow> db \<Rightarrow>
    AccessPolicyStore \<times> db" where
  "SetPolicy env now apiKeyID providers models s d =
     (let scope = pe_callerScope env apiKeyID in
      if scope = [] then (s, d)
      else
        let policy = \<lparr>ap_restrictedProviders = normalizeRestrictions (pe_ul env) providers,
                      ap_restrictedModels = normalizeRestrictions (pe_ul env) models\<rparr>;
            (s, d) = resolveProviderFingerprints env now (ap_restrictedProviders policy) s d
        in
        if ap_restrictedProviders policy = [] \<and> ap_restrictedModels policy = []
        then (s\<lparr>st_policies := (st_policies s)(scope := None)\<rparr>, d)
        else (s\<lparr>st_policies := (st_policies s)(scope \<mapsto> policy)\<rparr>, d))"

definition getPolicy :: "AccessPolicyStore \<Rightarrow> string \<Rightarrow> accessPolicy option" where
  "getPolicy s scope = (if trimSpace scope = [] then None else st_policies s (trimSpace scope))"

section \<open>The selector\<close>

text \<open>
  A credential of CLIProxyAPI (\<open>coreauth.Auth\<close>) and the options of a request, reduced to what the
  selector reads; values of the metadata that are not strings are absent.
\<close>

record Auth =
  au_ID :: string
  au_Provider :: string
  au_Metadata :: "string \<Rightarrow> string option"
  au_Attributes :: "string \<Rightarrow> string option"

type_synonym metadata = "string \<Rightarrow> string option"

definition metadataString :: "metadata \<Rightarrow> string \<Rightarrow> string" where
  "metadataString metadata key = (case metadata key of None \<Rightarrow> [] | Some value \<Rightarrow> trimSpace value)"

definition attribute :: "Auth \<Rightarrow> string \<Rightarrow> string" where
  "attribute candidate key = (case au_Attributes candidate key of None \<Rightarrow> [] | Some v \<Rightarrow> trimSpace v)"

definition providerRestricted :: "policy_env \<Rightarrow> AccessPolicyStore \<Rightarrow> string list \<Rightarrow> Auth \<Rightarrow> bool" where
  "providerRestricted env s restrictions candidate =
     (if restrictedMatch (pe_ul env) restrictions (au_ID candidate) \<or>
         restrictedMatch (pe_ul env) restrictions (au_Provider candidate) then True
      else if providerTypeRestricted (pe_ul env) restrictions (au_Provider candidate) then True
      else if restrictedMatch (pe_ul env) restrictions (metadataString (au_Metadata candidate) ''provider_id'') then True
      else
        let apiKey = metadataString (au_Metadata candidate) ''api_key'';
            apiKey = (if apiKey = [] then attribute candidate ''api_key'' else apiKey)
        in
        if apiKey = [] then False
        else
          let fingerprint = credentialFingerprint (pe_sha256 env) [apiKey, attribute candidate ''base_url''] in
          list_ex (\<lambda>restriction. st_fingerprints s restriction = Some fingerprint) restrictions)"

datatype pick_error = ForbiddenModel string | ForbiddenProvider | Upstream string

text \<open>
  The keys of the request's options are CLIProxyAPI's constants \<open>CallerScopeMetadataKey\<close> and
  \<open>RequestedModelMetadataKey\<close>, arguments here, as is the selector \<open>next\<close>.
\<close>

record selector_env =
  se_scopeKey :: string
  se_modelKey :: string
  se_next :: "string \<Rightarrow> string \<Rightarrow> metadata \<Rightarrow> Auth option list \<Rightarrow> string + Auth"

definition callNext :: "selector_env \<Rightarrow> string \<Rightarrow> string \<Rightarrow> metadata \<Rightarrow> Auth option list \<Rightarrow> pick_error + Auth" where
  "callNext sel provider model opts auths =
     (case se_next sel provider model opts auths of Inl e \<Rightarrow> Inl (Upstream e) | Inr a \<Rightarrow> Inr a)"

definition Pick :: "policy_env \<Rightarrow> selector_env \<Rightarrow> AccessPolicyStore \<Rightarrow> string \<Rightarrow> string \<Rightarrow> metadata \<Rightarrow>
    Auth option list \<Rightarrow> pick_error + Auth" where
  "Pick env sel s provider model opts auths =
     (case getPolicy s (metadataString opts (se_scopeKey sel)) of
        None \<Rightarrow> callNext sel provider model opts auths
      | Some policy \<Rightarrow>
         (let requestedModel = metadataString opts (se_modelKey sel) in
          if restrictedMatch (pe_ul env) (ap_restrictedModels policy) model \<or>
             restrictedMatch (pe_ul env) (ap_restrictedModels policy) requestedModel
          then
            (let blockedModel = trimSpace requestedModel;
                 blockedModel = (if blockedModel = [] then trimSpace model else blockedModel)
             in Inl (ForbiddenModel blockedModel))
          else
            let allowed = filter (\<lambda>c. case c of None \<Rightarrow> False
                            | Some a \<Rightarrow> \<not> providerRestricted env s (ap_restrictedProviders policy) a) auths
            in
            if length allowed = 0 \<and> 0 < length auths
            then Inl ForbiddenProvider
            else callNext sel provider model opts allowed))"

section \<open>Restrictions\<close>



lemma uniqueRestrictions_set:
  "set (uniqueRestrictions ul seen vs) = {normalizeRestriction ul v | v. v \<in> set vs} - {[]} - set seen"
  by (induction ul seen vs rule: uniqueRestrictions.induct) (auto simp: Let_def)

lemma uniqueRestrictions_distinct: "distinct (uniqueRestrictions ul seen vs)"
  by (induction ul seen vs rule: uniqueRestrictions.induct) (auto simp: Let_def uniqueRestrictions_set)

lemma normalizeRestrictions_set:
  "set (normalizeRestrictions ul vs) = {normalizeRestriction ul v | v. v \<in> set vs} - {[]}"
  by (simp add: normalizeRestrictions_def uniqueRestrictions_set)

lemma covers_literal: "list_all plainChar r \<Longrightarrow> covers r v \<longleftrightarrow> r = v"
  by (simp add: covers_def Match_literal)

lemma restrictedMatch_member:
  "r \<in> set restrictions \<Longrightarrow> covers r (normalizeRestriction ul v) \<Longrightarrow> normalizeRestriction ul v \<noteq> [] \<Longrightarrow>
   restrictedMatch ul restrictions v"
  by (auto simp: restrictedMatch_def Let_def variantsOf_def list_ex_iff intro!: bexI [of _ r])

lemma covers_refl [simp]: "covers v v"
  by (simp add: covers_def split: option.splits)

section \<open>The store\<close>

lemma resolveLoop_policies [simp]: "st_policies (fst (resolveLoop env now ids s d)) = st_policies s"
  by (induction env now ids s d rule: resolveLoop.induct)
    (auto simp: Let_def split: option.splits sum.splits prod.splits)

lemma resolve_policies [simp]: "st_policies (fst (resolveProviderFingerprints env now ids s d)) = st_policies s"
  by (simp add: resolveProviderFingerprints_def)

definition policyOf :: "policy_env \<Rightarrow> string list \<Rightarrow> string list \<Rightarrow> accessPolicy option" where
  "policyOf env providers models =
     (if normalizeRestrictions (pe_ul env) providers = [] \<and> normalizeRestrictions (pe_ul env) models = [] then None
      else Some \<lparr>ap_restrictedProviders = normalizeRestrictions (pe_ul env) providers,
                 ap_restrictedModels = normalizeRestrictions (pe_ul env) models\<rparr>)"

lemma SetPolicy_policies:
  "st_policies (fst (SetPolicy env now i providers models s d)) =
     (if pe_callerScope env i = [] then st_policies s
      else (st_policies s)(pe_callerScope env i := policyOf env providers models))"
proof -
  obtain s1 d1 where r: "resolveProviderFingerprints env now (normalizeRestrictions (pe_ul env) providers) s d = (s1, d1)"
    by fastforce
  then have "st_policies s1 = st_policies s"
    using resolve_policies [of env now "normalizeRestrictions (pe_ul env) providers" s d] by simp
  with r show ?thesis by (simp add: SetPolicy_def policyOf_def Let_def)
qed

definition recentlyResolved :: "go_time \<Rightarrow> AccessPolicyStore \<Rightarrow> string \<Rightarrow> bool" where
  "recentlyResolved now s i =
     (case st_resolvedAt s i of Some t \<Rightarrow> now - t < providerFingerprintTTL | None \<Rightarrow> False)"

definition lookedUp :: "policy_env \<Rightarrow> string \<Rightarrow> db \<Rightarrow> string option" where
  "lookedUp env i d =
     (case fst (GetProvider i d) of
        Inl _ \<Rightarrow> None
      | Inr p \<Rightarrow> if hasPrefix (pr_ClientSecret p) ''oauth:'' then None
          else Some (credentialFingerprint (pe_sha256 env) [pr_ClientSecret p, pr_BaseUrl p]))"

lemma resolveLoop_step:
  "resolveLoop env now (i # rest) s d =
     (if pe_isUUID env i \<and> \<not> recentlyResolved now s i
      then resolveLoop env now rest
        (s\<lparr>st_resolvedAt := (st_resolvedAt s)(i \<mapsto> now),
           st_fingerprints := (st_fingerprints s)(i := lookedUp env i d)\<rparr>) (snd (GetProvider i d))
      else resolveLoop env now rest s d)"
  by (cases "GetProvider i d")
    (auto simp: recentlyResolved_def lookedUp_def Let_def split: option.splits sum.splits)

declare resolveLoop.simps(2) [simp del]

lemma resolveLoop_recent:
  "list_all (\<lambda>i. pe_isUUID env i \<longrightarrow> recentlyResolved now s i) ids \<Longrightarrow> resolveLoop env now ids s d = (s, d)"
  by (induction ids) (auto simp: resolveLoop_step)

lemma resolveLoop_recent_kept:
  "recentlyResolved now s i \<Longrightarrow> st_fingerprints (fst (resolveLoop env now ids s d)) i = st_fingerprints s i"
proof (induction ids arbitrary: s d)
  case (Cons j rest)
  show ?case
  proof (cases "pe_isUUID env j \<and> \<not> recentlyResolved now s j")
    case True
    then have "i \<noteq> j" using Cons.prems by auto
    then show ?thesis
      using True Cons.prems Cons.IH [of "s\<lparr>st_resolvedAt := (st_resolvedAt s)(j \<mapsto> now),
          st_fingerprints := (st_fingerprints s)(j := lookedUp env j d)\<rparr>" "snd (GetProvider j d)"]
      by (simp add: resolveLoop_step recentlyResolved_def)
  qed (use Cons in \<open>auto simp: resolveLoop_step\<close>)
qed simp

text \<open>A provider that is due is looked up, and the result of the lookup is what the store keeps.\<close>

lemma resolveLoop_due:
  assumes "i \<in> set ids" "pe_isUUID env i" "\<not> recentlyResolved now s i" "db_faults d = []"
  shows "st_fingerprints (fst (resolveLoop env now ids s d)) i = lookedUp env i d"
  using assms
proof (induction ids arbitrary: s)
  case (Cons j rest)
  show ?case
  proof (cases "j = i")
    case True
    let ?s = "s\<lparr>st_resolvedAt := (st_resolvedAt s)(i \<mapsto> now),
      st_fingerprints := (st_fingerprints s)(i := lookedUp env i d)\<rparr>"
    have "recentlyResolved now ?s i" by (simp add: recentlyResolved_def providerFingerprintTTL_def go_time)
    then show ?thesis using True Cons.prems resolveLoop_recent_kept [of now ?s i env rest d]
      by (simp add: resolveLoop_step GetProvider_no_fault)
  next
    case False
    then show ?thesis using Cons by (auto simp: resolveLoop_step GetProvider_no_fault recentlyResolved_def)
  qed
qed simp

section \<open>The selector\<close>


lemma Pick_chosen:
  assumes "Pick env sel s provider model opts auths = Inr a"
    and "getPolicy s (metadataString opts (se_scopeKey sel)) = Some policy"
    and "\<And>as a. se_next sel provider model opts as = Inr a \<Longrightarrow> Some a \<in> set as"
  shows "Some a \<in> set auths \<and> \<not> providerRestricted env s (ap_restrictedProviders policy) a \<and>
    \<not> restrictedMatch (pe_ul env) (ap_restrictedModels policy) model \<and>
    \<not> restrictedMatch (pe_ul env) (ap_restrictedModels policy) (metadataString opts (se_modelKey sel))"
proof -
  let ?ok = "\<lambda>c. case c of None \<Rightarrow> False | Some a \<Rightarrow> \<not> providerRestricted env s (ap_restrictedProviders policy) a"
  have "se_next sel provider model opts (filter ?ok auths) = Inr a"
    using assms(1,2) by (auto simp: Pick_def callNext_def Let_def split: if_splits sum.splits)
  from assms(3) [OF this] have "Some a \<in> set auths" "?ok (Some a)" by auto
  then show ?thesis using assms(1,2) by (auto simp: Pick_def Let_def split: if_splits)
qed

lemma getPolicy_SetPolicy:
  assumes "pe_callerScope env i \<noteq> []" "trimSpace (pe_callerScope env i) = pe_callerScope env i"
  shows "getPolicy (fst (SetPolicy env now i providers models s d)) (pe_callerScope env i) = policyOf env providers models"
  using assms by (simp add: getPolicy_def SetPolicy_policies)

lemma Pick_respects_policy:
  assumes "\<And>as a. se_next sel provider model opts as = Inr a \<Longrightarrow> Some a \<in> set as"
    and "getPolicy s (metadataString opts (se_scopeKey sel)) = policyOf env providers models"
    and "Pick env sel s provider model opts auths = Inr a"
  shows "Some a \<in> set auths \<and>
    (\<forall>r \<in> set providers. normalizeRestriction (pe_ul env) r \<noteq> [] \<longrightarrow>
       normalizeRestriction (pe_ul env) r \<notin>
         normalizeRestriction (pe_ul env) ` {au_ID a, au_Provider a, metadataString (au_Metadata a) ''provider_id''}) \<and>
    (\<forall>r \<in> set models. normalizeRestriction (pe_ul env) r \<noteq> [] \<longrightarrow>
       normalizeRestriction (pe_ul env) r \<notin>
         normalizeRestriction (pe_ul env) ` {model, metadataString opts (se_modelKey sel)})"
proof (cases "policyOf env providers models")
  case None
  then have "normalizeRestrictions (pe_ul env) providers = []" "normalizeRestrictions (pe_ul env) models = []"
    by (auto simp: policyOf_def split: if_splits)
  then have "normalizeRestriction (pe_ul env) r = []" if "r \<in> set providers \<or> r \<in> set models" for r
    using that normalizeRestrictions_set [of "pe_ul env" providers] normalizeRestrictions_set [of "pe_ul env" models] by auto
  moreover have "se_next sel provider model opts auths = Inr a"
    using assms(2,3) None by (auto simp: Pick_def callNext_def split: sum.splits)
  ultimately show ?thesis using assms(1) by blast
next
  case (Some policy)
  let ?n = "normalizeRestriction (pe_ul env)"
  have "getPolicy s (metadataString opts (se_scopeKey sel)) = Some policy" using assms(2) Some by simp
  note c = Pick_chosen [OF assms(3) this assms(1)]
  have P: "set (ap_restrictedProviders policy) = ?n ` set providers - {[]}"
    and M: "set (ap_restrictedModels policy) = ?n ` set models - {[]}"
    using Some normalizeRestrictions_set [of "pe_ul env"] by (auto simp: policyOf_def split: if_splits)
  have no: "?n r \<noteq> ?n v" if "\<not> restrictedMatch (pe_ul env) restrictions v" "set restrictions = ?n ` set rs - {[]}"
      "r \<in> set rs" "?n r \<noteq> []" for restrictions v rs r
  proof
    assume eq: "?n r = ?n v"
    have "?n r \<in> set restrictions" using that(2-4) by simp
    then have "restrictedMatch (pe_ul env) restrictions v"
      using that(4) unfolding eq by (intro restrictedMatch_member [of "?n v"]) simp_all
    then show False using that(1) by blast
  qed
  have "\<not> restrictedMatch (pe_ul env) (ap_restrictedProviders policy) v"
    if "v \<in> {au_ID a, au_Provider a, metadataString (au_Metadata a) ''provider_id''}" for v
    using c that by (auto simp: providerRestricted_def split: if_splits)
  then have prov: "?n r \<notin> ?n ` {au_ID a, au_Provider a, metadataString (au_Metadata a) ''provider_id''}"
    if "r \<in> set providers" "?n r \<noteq> []" for r
    using no [OF _ P that] by blast
  have mod: "?n r \<notin> ?n ` {model, metadataString opts (se_modelKey sel)}" if "r \<in> set models" "?n r \<noteq> []" for r
    using no [OF _ M that] c by blast
  show ?thesis using c prov mod by blast
qed

section \<open>Properties\<close>


text \<open>
  a literal restriction (one without pattern characters) covers exactly itself, up to letter
  case, surrounding blanks and the prefix \<open>models/\<close>; a restriction whose pattern is malformed
  covers every value, so it cannot open access by accident.
\<close>

lemma restriction_coverage:
  assumes "normalizeRestriction ul v \<noteq> []" "r \<in> set restrictions"
  shows "(Match r (normalizeRestriction ul v) = None \<longrightarrow> restrictedMatch ul restrictions v) \<and>
    (list_all (list_all plainChar) restrictions \<longrightarrow>
      restrictedMatch ul restrictions v =
        (normalizeRestriction ul v \<in> set restrictions \<or>
         (\<exists>w. normalizeRestriction ul v = ''models/'' @ w \<and> w \<in> set restrictions)))"
proof (intro conjI impI)
  assume "Match r (normalizeRestriction ul v) = None"
  then show "restrictedMatch ul restrictions v"
    using assms by (intro restrictedMatch_member [of r]) (auto simp: covers_def)
next
  assume lit: "list_all (list_all plainChar) restrictions"
  have "list_ex (\<lambda>r. list_ex (covers r) vs) restrictions = (\<exists>r \<in> set restrictions. r \<in> set vs)" for vs
    using lit by (auto simp: list_ex_iff list_all_iff covers_literal)
  then have "restrictedMatch ul restrictions v = (\<exists>r \<in> set restrictions. r \<in> set (variantsOf (normalizeRestriction ul v)))"
    using assms(1) by (simp add: restrictedMatch_def Let_def)
  moreover have "x \<in> set (variantsOf n) \<longleftrightarrow> x = n \<or> n = ''models/'' @ x" for x n
    unfolding variantsOf_def using cutPrefix_Some_iff [of n "''models/''"]
    by (cases "cutPrefix n ''models/''") auto
  ultimately show "restrictedMatch ul restrictions v =
        (normalizeRestriction ul v \<in> set restrictions \<or>
         (\<exists>w. normalizeRestriction ul v = ''models/'' @ w \<and> w \<in> set restrictions))"
    by blast
qed

text \<open>
  Restricting an API-key provider by its id also blocks the credential built from its secret:
  after the restriction has been recorded (and the provider's record was due for a lookup), a
  credential that carries the provider's secret and base URL counts as restricted whatever its own
  name is.
\<close>

lemma provider_secret_blocked:
  assumes "pe_isUUID env (normalizeRestriction (pe_ul env) i)" "normalizeRestriction (pe_ul env) i = i" "i \<noteq> []"
    and "i \<in> set providers" "pe_callerScope env keyID \<noteq> []" "st_hasRepo s" "\<not> recentlyResolved now s i"
    and "db_faults d = []" "db_uuid d i = Some i" "find (\<lambda>p. pr_ID p = i) (db_providers d) = Some p"
    and "\<not> hasPrefix (pr_ClientSecret p) ''oauth:''"
    and "metadataString (au_Metadata a) ''api_key'' = trimSpace (pr_ClientSecret p)" "trimSpace (pr_ClientSecret p) \<noteq> []"
    and "attribute a ''base_url'' = trimSpace (pr_BaseUrl p)"
  shows "providerRestricted env (fst (SetPolicy env now keyID providers models s d))
    (normalizeRestrictions (pe_ul env) providers) a"
proof -
  let ?ps = "normalizeRestrictions (pe_ul env) providers"
  let ?fp = "credentialFingerprint (pe_sha256 env) [pr_ClientSecret p, pr_BaseUrl p]"
  have i: "i \<in> set ?ps" using assms(2-4) normalizeRestrictions_set [of "pe_ul env" providers] by force
  have "lookedUp env i d = Some ?fp"
    using assms(8-11) by (simp add: lookedUp_def GetProvider_def stmt_no_fault withUUID_def Let_def)
  then have "st_fingerprints (fst (resolveProviderFingerprints env now ?ps s d)) i = Some ?fp"
    using resolveLoop_due [OF i _ assms(7,8)] assms(1,2,6) by (simp add: resolveProviderFingerprints_def)
  then have fp: "st_fingerprints (fst (SetPolicy env now keyID providers models s d)) i = Some ?fp"
    using assms(5) by (auto simp: SetPolicy_def Let_def split: prod.splits)
  have "credentialFingerprint (pe_sha256 env) [trimSpace (pr_ClientSecret p), trimSpace (pr_BaseUrl p)] = ?fp"
    by (simp add: credentialFingerprint_def)
  then show ?thesis
    using fp i assms(12-14) by (auto simp: providerRestricted_def Let_def list_ex_iff)
qed

section \<open>Witnesses\<close>

definition sample_policy_env :: policy_env where
  "sample_policy_env = \<lparr>pe_sha256 = (\<lambda>b. b), pe_ul = (\<lambda>s. s), pe_callerScope = (\<lambda>i. i), pe_isUUID = (\<lambda>_. True)\<rparr>"

definition sample_auth :: "string \<Rightarrow> Auth" where
  "sample_auth i = \<lparr>au_ID = i, au_Provider = ''claude'', au_Metadata = [''api_key'' \<mapsto> ''sec''],
     au_Attributes = [''base_url'' \<mapsto> ''u'']\<rparr>"

definition sample_selector :: selector_env where
  "sample_selector = \<lparr>se_scopeKey = ''scope'', se_modelKey = ''model'',
     se_next = (\<lambda>_ _ _ as. case as of Some a # _ \<Rightarrow> Inr a | _ \<Rightarrow> Inl ''none'')\<rparr>"

lemma sample_trim: "trimSpace ''k1'' = ''k1''" "trimSpace ''p1'' = ''p1''" "trimSpace ''p2'' = ''p2''"
  "trimSpace ''claude'' = ''claude''" "trimSpace ''m'' = ''m''" "trimSpace ''sec'' = ''sec''" "trimSpace ''u'' = ''u''"
  "trimSpace ''opus'' = ''opus''"
  by (rule trimSpace_graphic; auto)+

lemma sample_norm: "normalizeRestriction ul ''p1'' = ''p1''" "normalizeRestriction ul ''p2'' = ''p2''"
  "normalizeRestriction ul ''claude'' = ''claude''" "normalizeRestriction ul ''m'' = ''m''"
  "normalizeRestriction ul ''opus'' = ''opus''" "normalizeRestriction ul [] = []"
  by (simp_all add: normalizeRestriction_def sample_trim toLower_def isAscii_def lowerChar_def)

definition policy_provider :: Provider where
  "policy_provider = \<lparr>pr_ID = ''p1'', pr_Name = ''one'', pr_Type = 1, pr_BaseUrl = ''u'', pr_ClientSecret = ''sec'',
     pr_Credentials = [], pr_UseProxy = False, pr_Proxy = [], pr_IsCloudflare = False, pr_Priority = 0,
     pr_Disabled = False, pr_CreatedAt = 0, pr_UpdatedAt = 0\<rparr>"

definition policy_db :: db where
  "policy_db = \<lparr>db_keys = [], db_providers = [policy_provider], db_usage = [], db_subs = [], db_topics = [],
     db_events = [], db_vapid = None, db_nextEvent = 1, db_nextUsage = 1, db_faults = [], db_uuid = Some\<rparr>"

definition sample_store :: AccessPolicyStore where
  "sample_store = fst (SetPolicy sample_policy_env 0 ''k1'' [''p1''] [''opus''] (NewAccessPolicyStore False) policy_db)"

lemma sample_store_eq: "st_policies sample_store ''k1'' = Some \<lparr>ap_restrictedProviders = [''p1''], ap_restrictedModels = [''opus'']\<rparr>"
  unfolding sample_store_def SetPolicy_policies
  by (simp add: sample_policy_env_def policyOf_def normalizeRestrictions_def sample_norm)

lemma sample_store_fingerprints: "st_fingerprints sample_store i = None"
  by (simp add: sample_store_def SetPolicy_def sample_policy_env_def NewAccessPolicyStore_def
      resolveProviderFingerprints_def Let_def)

lemma sample_covers: "covers ''p1'' v \<longleftrightarrow> v = ''p1''" "covers ''opus'' v \<longleftrightarrow> v = ''opus''"
  using covers_literal [of "''p1''" v] covers_literal [of "''opus''" v] by (auto simp: plainChar_def backslash_def)

lemma sample_pick:
  "Pick sample_policy_env sample_selector sample_store ''claude'' ''m'' [''scope'' \<mapsto> ''k1'']
     [Some (sample_auth ''p1''), None, Some (sample_auth ''p2'')] = Inr (sample_auth ''p2'')"
  by (simp add: Pick_def getPolicy_def metadataString_def sample_selector_def sample_trim sample_store_eq
      sample_policy_env_def restrictedMatch_def sample_norm variantsOf_def cutPrefix_def hasPrefix_def sample_covers
      providerRestricted_def providerTypeRestricted_def typeCovers_def sample_auth_def callNext_def attribute_def
      sample_store_fingerprints Let_def)


end
