(* ===== verification/Error_Log.thy ===== *)
theory Error_Log
  imports Store "HOL-Library.List_Lexorder" "HOL-Library.Char_ord"
begin

text \<open>
  The request error logs shown to administrators (\<open>src/internal/driver/server/errors.go\<close>): the
  parser of a log file, and the redaction of credentials in its headers.  The timestamp parser is
  the argument \<open>ptime\<close>.
\<close>

definition newline :: char where "newline = CHR 0x0A"

text \<open>\<open>strings.Index(line, ":")\<close>, as the text before and after the colon.\<close>

definition cutColon :: "string \<Rightarrow> (string \<times> string) option" where
  "cutColon line = cutAt '':'' line"

definition sensitiveHeaders :: "string list" where
  "sensitiveHeaders = [''authorization'', ''proxy-authorization'', ''x-api-key'', ''api-key'', ''cookie'',
     ''set-cookie'', ''x-cursor-checksum'']"

definition redactHeader :: "(string \<Rightarrow> string) \<Rightarrow> string \<Rightarrow> string" where
  "redactHeader ul line =
     (case cutColon line of
        None \<Rightarrow> line
      | Some (before, _) \<Rightarrow>
         (let name = trimSpace before in
          if toLower ul name \<notin> set sensitiveHeaders then line else name @ '': [REDACTED]''))"

definition isSectionLine :: "string \<Rightarrow> bool" where
  "isSectionLine trimmed \<longleftrightarrow> hasPrefix trimmed ''=== '' \<and> hasSuffix trimmed '' ===''"

text \<open>
  \<open>trimmed[4 : len(trimmed)-4]\<close>; a marker shorter than eight bytes makes the slice bounds cross,
  which panics: \<open>None\<close>.
\<close>

definition sectionName :: "string \<Rightarrow> string option" where
  "sectionName trimmed =
     (if length trimmed < 8 then None
      else Some (trimSpace (take (length trimmed - 8) (drop 4 trimmed))))"

definition storeSection :: "string \<Rightarrow> string list \<Rightarrow> (string \<Rightarrow> string option) \<Rightarrow> string \<Rightarrow> string option" where
  "storeSection current lines sections =
     (if current \<noteq> [] then sections(current \<mapsto> join [newline] lines) else sections)"

fun sectionLoop :: "string list \<Rightarrow> string \<Rightarrow> string list \<Rightarrow> (string \<Rightarrow> string option) \<Rightarrow>
    (string \<Rightarrow> string option) option" where
  "sectionLoop [] current lines sections = Some (storeSection current lines sections)"
| "sectionLoop (line # rest) current lines sections =
     (let trimmed = trimSpace line in
      if isSectionLine trimmed then
        (case sectionName trimmed of
           None \<Rightarrow> None
         | Some name \<Rightarrow> sectionLoop rest name [] (storeSection current lines sections))
      else sectionLoop rest current (lines @ [line]) sections)"

definition splitSections :: "string \<Rightarrow> (string \<Rightarrow> string option) option" where
  "splitSections content = sectionLoop (splitOn newline content) [] [] Map.empty"

fun keyValueLoop :: "string list \<Rightarrow> (string \<Rightarrow> string option) \<Rightarrow> (string \<Rightarrow> string option)" where
  "keyValueLoop [] result = result"
| "keyValueLoop (l # rest) result =
     (let line = trimSpace l in
      if line = [] then keyValueLoop rest result
      else case cutColon line of
        None \<Rightarrow> keyValueLoop rest result
      | Some (k, v) \<Rightarrow> keyValueLoop rest (result(trimSpace k \<mapsto> trimSpace v)))"

definition parseKeyValue :: "string \<Rightarrow> (string \<Rightarrow> string option)" where
  "parseKeyValue content = keyValueLoop (splitOn newline content) Map.empty"

text \<open>A missing key of a Go map of strings reads as the empty string.\<close>

definition mapString :: "(string \<Rightarrow> string option) \<Rightarrow> string \<Rightarrow> string" where
  "mapString m k = (case m k of None \<Rightarrow> [] | Some v \<Rightarrow> v)"

definition extractResponseBody :: "string \<Rightarrow> string" where
  "extractResponseBody content =
     trimSpace (join [newline] (tl (dropWhile (\<lambda>line. trimSpace line \<noteq> []) (splitOn newline content))))"

text \<open>\<open>strconv.Atoi\<close> with its error dropped: zero on a syntax error, saturated out of range.\<close>

definition digitsVal :: "string \<Rightarrow> int option" where
  "digitsVal s =
     (if s \<noteq> [] \<and> list_all (\<lambda>c. 48 \<le> (of_char c :: nat) \<and> (of_char c :: nat) \<le> 57) s
      then Some (foldl (\<lambda>n c. n * 10 + int (of_char c - 48)) 0 s) else None)"

definition atoi :: "string \<Rightarrow> int" where
  "atoi s =
     (let neg = (s \<noteq> [] \<and> hd s = CHR ''-'');
          digits = (if s \<noteq> [] \<and> (hd s = CHR ''-'' \<or> hd s = CHR ''+'') then tl s else s)
      in case digitsVal digits of
        None \<Rightarrow> 0
      | Some n \<Rightarrow> if neg then max (- (2 ^ 63)) (- n) else min (2 ^ 63 - 1) n)"

record Error =
  er_Id :: string
  er_Url :: string
  er_Method :: string
  er_Timestamp :: "go_time option"
  er_Headers :: "string list"
  er_Body :: string
  er_ResponseBody :: string
  er_StatusCode :: "32 word"

definition headerLines :: "(string \<Rightarrow> string) \<Rightarrow> string \<Rightarrow> string list" where
  "headerLines ul content =
     map (redactHeader ul) (filter (\<lambda>line. line \<noteq> []) (map trimSpace (splitOn newline content)))"

definition parseErrorLog :: "(string \<Rightarrow> string) \<Rightarrow> (string \<Rightarrow> go_time option) \<Rightarrow> string \<Rightarrow> string \<Rightarrow> Error option" where
  "parseErrorLog ul ptime i content =
     (case splitSections content of
        None \<Rightarrow> None
      | Some sections \<Rightarrow>
         (let info = parseKeyValue (mapString sections ''REQUEST INFO'') in
          Some \<lparr>er_Id = i, er_Url = mapString info ''URL'', er_Method = mapString info ''Method'',
            er_Timestamp = ptime (mapString info ''Timestamp''),
            er_Headers = headerLines ul (mapString sections ''HEADERS''),
            er_Body = trimSpace (mapString sections ''REQUEST BODY''),
            er_ResponseBody = extractResponseBody (mapString sections ''RESPONSE''),
            er_StatusCode = word_of_int (atoi (mapString (parseKeyValue (mapString sections ''RESPONSE'')) ''Status''))\<rparr>))"

text \<open>
  \<open>GetErrors\<close>: the directory is a list of entries (name, whether a directory, content or read
  error), or absent, or unreadable.  A panic of the parser is \<open>None\<close>.
\<close>

datatype log_dir = NoDir | DirError string | Entries "(string \<times> bool \<times> (string + string)) list"

fun readLogs :: "(string \<Rightarrow> string) \<Rightarrow> (string \<Rightarrow> go_time option) \<Rightarrow> (string \<times> bool \<times> (string + string)) list \<Rightarrow> nat \<Rightarrow>
    Error list \<Rightarrow> (err + Error list) option" where
  "readLogs ul ptime [] n out = Some (Inr out)"
| "readLogs ul ptime ((name, isDir, content) # rest) n out =
     (if isDir then readLogs ul ptime rest n out
      else if Suc n > 10 then Some (Inr out)
      else case content of
        Inl e \<Rightarrow> Some (Inl (Plain e))
      | Inr c \<Rightarrow>
         (case parseErrorLog ul ptime (trimSuffix name ''.log'') c of
            None \<Rightarrow> None
          | Some errLog \<Rightarrow> readLogs ul ptime rest (Suc n) (out @ [errLog])))"

definition GetErrors :: "(string \<Rightarrow> string) \<Rightarrow> (string \<Rightarrow> go_time option) \<Rightarrow>
    ApiKey option option \<Rightarrow> log_dir \<Rightarrow> (err + Error list) option" where
  "GetErrors ul ptime requester dir =
     (case requester of
        None \<Rightarrow> Some (Inl (Status Unauthenticated ''unauthenticated''))
      | Some key \<Rightarrow>
          if (case key of Some k \<Rightarrow> \<not> ak_IsAdmin k | None \<Rightarrow> False)
          then Some (Inl (Status PermissionDenied ''permission denied''))
          else case dir of
            NoDir \<Rightarrow> Some (Inr [])
          | DirError e \<Rightarrow> Some (Inl (Plain e))
          | Entries es \<Rightarrow> readLogs ul ptime (sort_key fst es) 0 [])"

section \<open>Lemmas\<close>

lemma cutColon_Some: "cutColon line = Some (a, b) \<Longrightarrow> line = a @ '':'' @ b \<and> CHR '':'' \<notin> set a"
proof -
  assume c: "cutColon line = Some (a, b)"
  have "CHR '':'' \<notin> set a" if "cutAt '':'' l = Some (a, b)" for l a b
    using that by (induction l arbitrary: a) (auto simp: hasPrefix_def split: if_splits)
  then show ?thesis using c cutAt_Some [of "'':''" line a b] by (simp add: cutColon_def)
qed

lemma cutColon_append: "CHR '':'' \<notin> set a \<Longrightarrow> cutColon (a @ CHR '':'' # b) = Some (a, b)"
  unfolding cutColon_def by (induction a) (auto simp: hasPrefix_def)

lemma trimSpace_subset: "set (trimSpace s) \<subseteq> set s"
proof -
  have "set (trimLead encs t) \<subseteq> set t" for encs t
    using trimLead_suffix [of t encs] by (metis Un_upper2 set_append)
  then show ?thesis unfolding trimSpace_def by (metis order_trans set_rev)
qed

lemma redactHeader_sensitive:
  assumes "cutColon (redactHeader ul line) = Some (n, v)" "toLower ul (trimSpace n) \<in> set sensitiveHeaders"
  shows "redactHeader ul line = trimSpace n @ '': [REDACTED]''"
proof (cases "cutColon line")
  case None
  then show ?thesis using assms(1) by (simp add: redactHeader_def)
next
  case (Some ab)
  obtain a b where ab: "ab = (a, b)" by fastforce
  show ?thesis
  proof (cases "toLower ul (trimSpace a) \<in> set sensitiveHeaders")
    case True
    have "CHR '':'' \<notin> set (trimSpace a)" using cutColon_Some Some ab trimSpace_subset [of a] by blast
    then have "cutColon (trimSpace a @ '': [REDACTED]'') = Some (trimSpace a, '' [REDACTED]'')"
      using cutColon_append [of "trimSpace a" "'' [REDACTED]''"] by simp
    then show ?thesis using True Some ab assms(1) by (auto simp: redactHeader_def Let_def)
  next
    case False
    then show ?thesis using Some ab assms by (simp add: redactHeader_def Let_def)
  qed
qed

lemma parseErrorLog_headers:
  "parseErrorLog ul ptime i c = Some e \<Longrightarrow> h \<in> set (er_Headers e) \<Longrightarrow> \<exists>line. h = redactHeader ul line"
  by (auto simp: parseErrorLog_def headerLines_def Let_def split: option.splits)

lemma readLogs_parsed:
  "readLogs ul ptime es n out = Some (Inr logs) \<Longrightarrow> n \<le> 10 \<Longrightarrow>
   \<exists>new. logs = out @ new \<and> n + length new \<le> 10 \<and> (\<forall>e \<in> set new. \<exists>i c. parseErrorLog ul ptime i c = Some e)"
proof (induction ul ptime es n out arbitrary: logs rule: readLogs.induct)
  case (2 ul ptime name isDir content rest n out)
  show ?case
  proof (cases "isDir \<or> Suc n > 10")
    case True
    with 2 show ?thesis by (auto split: if_splits)
  next
    case False
    with "2.prems" obtain c e where c: "content = Inr c" "parseErrorLog ul ptime (trimSuffix name ''.log'') c = Some e"
      "readLogs ul ptime rest (Suc n) (out @ [e]) = Some (Inr logs)"
      by (auto split: sum.splits option.splits)
    from "2.IH"(2) [OF _ _ c] False obtain new where
      "logs = (out @ [e]) @ new" "Suc n + length new \<le> 10" "\<forall>e \<in> set new. \<exists>i c. parseErrorLog ul ptime i c = Some e"
      by auto
    then show ?thesis using c(2) by (intro exI [of _ "e # new"]) auto
  qed
qed simp

section \<open>Properties\<close>

text \<open>
  C40: the error list is for administrators only, holds at most ten entries, and never shows a
  credential: a returned header whose name is one of the sensitive ones, in any letter case, has
  its value replaced.
\<close>

theorem error_headers_redacted:
  assumes "GetErrors ul ptime requester dir = Some (Inr logs)"
  shows "(\<exists>k. requester = Some k \<and> (case k of Some key \<Rightarrow> ak_IsAdmin key | None \<Rightarrow> True)) \<and> length logs \<le> 10 \<and>
    (\<forall>e \<in> set logs. \<forall>h \<in> set (er_Headers e). \<forall>n v.
       cutColon h = Some (n, v) \<longrightarrow> toLower ul (trimSpace n) \<in> set sensitiveHeaders \<longrightarrow>
       h = trimSpace n @ '': [REDACTED]'')"
proof (intro conjI)
  show "\<exists>k. requester = Some k \<and> (case k of Some key \<Rightarrow> ak_IsAdmin key | None \<Rightarrow> True)"
    using assms by (auto simp: GetErrors_def split: option.splits if_splits)
  have "\<exists>es. readLogs ul ptime es 0 [] = Some (Inr logs)"
    using assms by (auto simp: GetErrors_def split: option.splits if_splits log_dir.splits
        intro: exI [of _ "[]"])
  then obtain new where new: "logs = [] @ new" "0 + length new \<le> 10"
    "\<forall>e \<in> set new. \<exists>i c. parseErrorLog ul ptime i c = Some e"
    using readLogs_parsed [of ul ptime _ 0 "[]" logs] by auto
  then show "length logs \<le> 10" by simp
  show "\<forall>e \<in> set logs. \<forall>h \<in> set (er_Headers e). \<forall>n v.
       cutColon h = Some (n, v) \<longrightarrow> toLower ul (trimSpace n) \<in> set sensitiveHeaders \<longrightarrow>
       h = trimSpace n @ '': [REDACTED]''"
    using new parseErrorLog_headers redactHeader_sensitive by fastforce
qed

text \<open>
  a log file with a line that is nothing but the shortest overlapping section marker
  (\<open>=== ===\<close>, seven characters) crashes the parser: the slice of the section name has crossing
  bounds.  The logs record request bodies, so a client can place such a line.
\<close>

lemma short_marker_panics:
  assumes "trimSpace line = ''=== ===''" "newline \<notin> set line"
    and "list_all (\<lambda>l. \<not> isSectionLine (trimSpace l)) (splitOn newline pre)"
  shows "parseErrorLog ul ptime i (pre @ newline # line @ newline # post) = None"
proof -
  have split: "splitOn newline (a @ newline # b) = splitOn newline a @ splitOn newline b" for a b
    by (induction a) (auto split: list.splits)
  have line: "splitOn newline (line @ newline # post) = line # splitOn newline post"
    using split [of line post] splitOn_single [OF assms(2)] by simp
  have skip: "sectionLoop (ls @ rest) cur acc m = sectionLoop rest cur (acc @ ls) m"
    if "list_all (\<lambda>l. \<not> isSectionLine (trimSpace l)) ls" for ls rest cur acc m
    using that by (induction ls arbitrary: acc) (auto simp: Let_def)
  have "isSectionLine ''=== ===''" by (simp add: isSectionLine_def hasPrefix_def hasSuffix_def)
  then have stop: "sectionLoop (line # rest) cur acc m = None" for rest cur acc m
    using assms(1) by (simp add: sectionName_def)
  have all: "splitOn newline (pre @ newline # line @ newline # post) = splitOn newline pre @ line # splitOn newline post"
    using split [of pre "line @ newline # post"] line by simp
  have "splitSections (pre @ newline # line @ newline # post) = None"
    unfolding splitSections_def all skip [OF assms(3)] by (rule stop)
  then show ?thesis by (simp add: parseErrorLog_def)
qed

section \<open>Witnesses\<close>

definition sample_log :: string where
  "sample_log = ''=== HEADERS ==='' @ [newline] @ ''cookie: abc''"

lemma sample_log_lines:
  "splitOn newline sample_log = [''=== HEADERS ==='', ''cookie: abc'']"
  by (simp add: sample_log_def newline_def)

lemma sample_log_trim: "trimSpace ''=== HEADERS ==='' = ''=== HEADERS ===''" "trimSpace ''cookie: abc'' = ''cookie: abc''"
  "trimSpace ''HEADERS'' = ''HEADERS''" "trimSpace ''cookie'' = ''cookie''"
  by (rule trimSpace_fixed; auto simp: space_encodings_def hasPrefix_def hasSuffix_def)+

lemma sample_log_sections: "splitSections sample_log = Some [''HEADERS'' \<mapsto> ''cookie: abc'']"
  by (simp add: splitSections_def sample_log_lines sample_log_trim isSectionLine_def hasPrefix_def hasSuffix_def
      sectionName_def storeSection_def)

lemma sample_log_headers: "headerLines (\<lambda>s. s) ''cookie: abc'' = [''cookie: [REDACTED]'']"
proof -
  have "splitOn newline ''cookie: abc'' = [''cookie: abc'']" by (simp add: newline_def)
  moreover have "cutColon ''cookie: abc'' = Some (''cookie'', '' abc'')" by (simp add: cutColon_def hasPrefix_def)
  ultimately show ?thesis
    by (simp add: headerLines_def sample_log_trim redactHeader_def toLower_def isAscii_def lowerChar_def sensitiveHeaders_def)
qed

lemma sample_log_parsed:
  "\<exists>e. GetErrors (\<lambda>s. s) (\<lambda>_. None) (Some None) (Entries [(''f.log'', False, Inr sample_log)]) = Some (Inr [e]) \<and>
     er_Headers e = [''cookie: [REDACTED]'']"
  by (simp add: GetErrors_def parseErrorLog_def sample_log_sections Let_def mapString_def sample_log_headers)

theorem error_headers_redacted_witness:
  "\<exists>logs. GetErrors (\<lambda>s. s) (\<lambda>_. None) (Some None) (Entries [(''f.log'', False, Inr sample_log)]) = Some (Inr logs) \<and>
     length logs \<le> 10 \<and> map er_Headers logs = [[''cookie: [REDACTED]'']]"
proof -
  obtain e where e: "GetErrors (\<lambda>s. s) (\<lambda>_. None) (Some None) (Entries [(''f.log'', False, Inr sample_log)]) = Some (Inr [e])"
    "er_Headers e = [''cookie: [REDACTED]'']"
    using sample_log_parsed by blast
  then show ?thesis using error_headers_redacted [OF e(1)] by auto
qed

end
