(* ===== verification/Provider_Vendor.thy ===== *)
theory Provider_Vendor
  imports Cursor_Bridge Store
begin

text \<open>
  The supported kinds of providers (\<open>src/internal/models/providers\<close>): how each describes itself and
  how it enters a provider into, and takes it out of, the configuration of CLIProxyAPI.  The
  records of that configuration hold the fields the program reads or writes.  Also the holder of
  the Cursor bridge (\<open>src/internal/adapter/cursor/server.go\<close>).

  A result \<open>None\<close> is a run-time panic.  The model lists fetched over HTTP and the bound port are
  arguments.
\<close>

section \<open>The configuration of CLIProxyAPI\<close>

record CompatAPIKey =
  ce_APIKey :: string
  ce_ProxyURL :: string

record CompatModel =
  cm_Name :: string
  cm_Alias :: string
  cm_DisplayName :: string
  cm_InputModalities :: "string list"
  cm_OutputModalities :: "string list"

record OpenAICompatibility =
  oc_Name :: string
  oc_Disabled :: bool
  oc_BaseURL :: string
  oc_Prefix :: string
  oc_APIKeyEntries :: "CompatAPIKey list"
  oc_Models :: "CompatModel list"
  oc_Headers :: "(string \<times> string) list"

record ProviderKey =
  ke_APIKey :: string
  ke_BaseURL :: string
  ke_ProxyURL :: string
  ke_Prefix :: string

record CPAPIConfig =
  cf_Port :: int
  cf_APIKeys :: "string list"
  cf_ClaudeKey :: "ProviderKey list"
  cf_CodexKey :: "ProviderKey list"
  cf_GeminiKey :: "ProviderKey list"
  cf_XAIKey :: "ProviderKey list"
  cf_OpenAICompatibility :: "OpenAICompatibility list"

text \<open>\<open>append(xs[:i], xs[i+1:]...)\<close> at the first match.\<close>

fun removeFirst :: "('a \<Rightarrow> bool) \<Rightarrow> 'a list \<Rightarrow> 'a list" where
  "removeFirst P [] = []"
| "removeFirst P (x # xs) = (if P x then xs else x # removeFirst P xs)"

fun updateFirst :: "('a \<Rightarrow> bool) \<Rightarrow> ('a \<Rightarrow> 'a) \<Rightarrow> 'a list \<Rightarrow> 'a list" where
  "updateFirst P f [] = []"
| "updateFirst P f (x # xs) = (if P x then f x # xs else x # updateFirst P f xs)"

text \<open>
  \<open>slices.DeleteFunc\<close> works in place: it returns the shortened slice, and the array behind it holds
  the kept elements followed by zero values.  A caller that stores the returned slice in a copy of
  the structure leaves the original with its old length.
\<close>

definition blankKey :: CompatAPIKey where
  "blankKey = \<lparr>ce_APIKey = [], ce_ProxyURL = []\<rparr>"

definition deleteInPlace :: "(CompatAPIKey \<Rightarrow> bool) \<Rightarrow> CompatAPIKey list \<Rightarrow> CompatAPIKey list" where
  "deleteInPlace del entries =
     (let kept = filter (\<lambda>e. \<not> del e) entries in kept @ replicate (length entries - length kept) blankKey)"

section \<open>Vendors\<close>

datatype vendor = Anthropic | Kimi | XAI | Antigravity | Codex | Custom | OpencodeZen | OpencodeGo | Cline | CursorVendor

definition ProviderOAuthConfig :: "int \<Rightarrow> err + vendor" where
  "ProviderOAuthConfig providerType =
     (if providerType = 3 then Inr Anthropic
      else if providerType = 4 then Inr Kimi
      else if providerType = 5 then Inr XAI
      else if providerType = 6 then Inr Antigravity
      else if providerType = 2 then Inr Codex
      else if providerType = 1 then Inr Custom
      else if providerType = 7 then Inr OpencodeZen
      else if providerType = 8 then Inr OpencodeGo
      else if providerType = 9 then Inr Cline
      else if providerType = 10 then Inr CursorVendor
      else Inl (Status InvalidArgument ''provider is not supported''))"

record ProviderOAuthDefinition =
  od_Provider :: string
  od_CredentialProvider :: string
  od_Endpoint :: string
  od_DefaultURL :: string
  od_Callback :: bool

definition anthropicDefinition :: ProviderOAuthDefinition where
  [simp]: "anthropicDefinition = \<lparr>od_Provider = ''anthropic'', od_CredentialProvider = ''claude'',
     od_Endpoint = ''/v0/management/anthropic-auth-url'', od_DefaultURL = ''https://anthropic.com'', od_Callback = True\<rparr>"

definition kimiDefinition :: ProviderOAuthDefinition where
  [simp]: "kimiDefinition = \<lparr>od_Provider = ''kimi'', od_CredentialProvider = ''kimi'',
     od_Endpoint = ''/v0/management/kimi-auth-url'', od_DefaultURL = ''https://api.kimi.com/coding'', od_Callback = False\<rparr>"

definition xaiDefinition :: ProviderOAuthDefinition where
  [simp]: "xaiDefinition = \<lparr>od_Provider = ''xai'', od_CredentialProvider = ''xai'',
     od_Endpoint = ''/v0/management/xai-auth-url'', od_DefaultURL = ''https://api.x.ai'', od_Callback = False\<rparr>"

definition antigravityDefinition :: ProviderOAuthDefinition where
  [simp]: "antigravityDefinition = \<lparr>od_Provider = ''antigravity'', od_CredentialProvider = ''antigravity'',
     od_Endpoint = ''/v0/management/antigravity-auth-url'',
     od_DefaultURL = ''https://daily-cloudcode-pa.googleapis.com'', od_Callback = True\<rparr>"

definition codexDefinition :: ProviderOAuthDefinition where
  [simp]: "codexDefinition = \<lparr>od_Provider = ''openai'', od_CredentialProvider = ''codex'',
     od_Endpoint = ''/v0/management/codex-auth-url'', od_DefaultURL = ''https://api.openai.com'', od_Callback = True\<rparr>"

definition opencodeZenDefinition :: ProviderOAuthDefinition where
  [simp]: "opencodeZenDefinition = \<lparr>od_Provider = ''opencode-zen'', od_CredentialProvider = ''opencode'',
     od_Endpoint = [], od_DefaultURL = ''https://opencode.ai/zen/v1'', od_Callback = False\<rparr>"

definition opencodeGoDefinition :: ProviderOAuthDefinition where
  [simp]: "opencodeGoDefinition = \<lparr>od_Provider = ''opencode-go'', od_CredentialProvider = ''opencode'',
     od_Endpoint = [], od_DefaultURL = ''https://opencode.ai/zen/go/v1'', od_Callback = False\<rparr>"

definition clineDefinition :: ProviderOAuthDefinition where
  [simp]: "clineDefinition = \<lparr>od_Provider = ''cline'', od_CredentialProvider = ''cline'',
     od_Endpoint = [], od_DefaultURL = ''https://api.cline.bot/api/v1/'', od_Callback = False\<rparr>"

definition cursorDefinition :: ProviderOAuthDefinition where
  [simp]: "cursorDefinition = \<lparr>od_Provider = ''cursor'', od_CredentialProvider = ''cursor'',
     od_Endpoint = [], od_DefaultURL = ''https://api2.cursor.sh'', od_Callback = False\<rparr>"

text \<open>A custom provider has no definition (a nil pointer).\<close>

fun GetOAuthDefinition :: "vendor \<Rightarrow> ProviderOAuthDefinition option" where
  "GetOAuthDefinition Anthropic = Some anthropicDefinition"
| "GetOAuthDefinition Kimi = Some kimiDefinition"
| "GetOAuthDefinition XAI = Some xaiDefinition"
| "GetOAuthDefinition Antigravity = Some antigravityDefinition"
| "GetOAuthDefinition Codex = Some codexDefinition"
| "GetOAuthDefinition Custom = None"
| "GetOAuthDefinition OpencodeZen = Some opencodeZenDefinition"
| "GetOAuthDefinition OpencodeGo = Some opencodeGoDefinition"
| "GetOAuthDefinition Cline = Some clineDefinition"
| "GetOAuthDefinition CursorVendor = Some cursorDefinition"

text \<open>\<open>ProviderOAuthUsesCallback\<close> dereferences the definition: a panic for a custom provider.\<close>

definition ProviderOAuthUsesCallback :: "vendor \<Rightarrow> bool option" where
  "ProviderOAuthUsesCallback v = map_option od_Callback (GetOAuthDefinition v)"

section \<open>The holder of the Cursor bridge\<close>

definition CreateServer :: "(int \<Rightarrow> string + int) \<Rightarrow> Config \<Rightarrow> Server option \<Rightarrow> (string + Server) \<times> Server option" where
  "CreateServer listen cfg held =
     (case NewServer listen (cfg\<lparr>cfg_Port := 0\<rparr>) of
        Inl e \<Rightarrow> (Inl e, held)
      | Inr server \<Rightarrow> (Inr server, Some server))"

definition GetOrCreateServer :: "(int \<Rightarrow> string + int) \<Rightarrow> Config \<Rightarrow> Server option \<Rightarrow> (string + Server) \<times> Server option" where
  "GetOrCreateServer listen cfg held =
     (case held of Some server \<Rightarrow> (Inr server, held) | None \<Rightarrow> CreateServer listen cfg held)"

definition heldSetProxy :: "Server option \<Rightarrow> string \<Rightarrow> string \<Rightarrow> Server option" where
  "heldSetProxy held token proxyURL = map_option (\<lambda>server. SetProxy server token proxyURL) held"

section \<open>Adding a provider to the configuration\<close>

text \<open>
  The answer to a request for a model list: a URL that does not parse, a failed request, a status
  other than 200, a body that cannot be read to its end (with what decoding the part read gives),
  or a complete body (\<open>None\<close>: not the expected JSON).
\<close>

record custom_model =
  xm_ID :: string
  xm_Root :: string
  xm_Name :: string
  xm_InputModalities :: "string list"
  xm_OutputModalities :: "string list"

datatype models_answer =
    BadURL | NoAnswer | OtherStatus
  | BrokenBody "custom_model list option"
  | Body "custom_model list option"

record vendor_env =
  ve_bridge :: bridge_env
  ve_listen :: "int \<Rightarrow> string + int"
  ve_models :: "string \<Rightarrow> string \<Rightarrow> models_answer"

definition toCompatModel :: "custom_model \<Rightarrow> CompatModel" where
  "toCompatModel x = \<lparr>cm_Name = xm_ID x, cm_Alias = xm_Root x, cm_DisplayName = xm_Name x,
     cm_InputModalities = xm_InputModalities x, cm_OutputModalities = xm_OutputModalities x\<rparr>"

definition isOAuth :: "Provider \<Rightarrow> bool" where
  "isOAuth provider = hasPrefix (pr_ClientSecret provider) ''oauth:''"

definition providerKey :: "Provider \<Rightarrow> string \<Rightarrow> ProviderKey" where
  "providerKey provider prefix = \<lparr>ke_APIKey = pr_ClientSecret provider, ke_BaseURL = pr_BaseUrl provider,
     ke_ProxyURL = pr_Proxy provider, ke_Prefix = prefix\<rparr>"

definition addAnthropic :: "CPAPIConfig \<Rightarrow> Provider \<Rightarrow> CPAPIConfig" where
  "addAnthropic cfg provider =
     (if isOAuth provider then cfg
      else cfg\<lparr>cf_ClaudeKey := cf_ClaudeKey cfg @ [providerKey provider ''anthropic'']\<rparr>)"

definition addCodex :: "CPAPIConfig \<Rightarrow> Provider \<Rightarrow> CPAPIConfig" where
  "addCodex cfg provider =
     (if isOAuth provider then cfg
      else cfg\<lparr>cf_CodexKey := cf_CodexKey cfg @ [providerKey provider ''codex'']\<rparr>)"

definition addAntigravity :: "CPAPIConfig \<Rightarrow> Provider \<Rightarrow> CPAPIConfig" where
  "addAntigravity cfg provider =
     (if isOAuth provider then cfg
      else cfg\<lparr>cf_GeminiKey := cf_GeminiKey cfg @ [providerKey provider ''antigravity'']\<rparr>)"

definition addXAI :: "CPAPIConfig \<Rightarrow> Provider \<Rightarrow> CPAPIConfig" where
  "addXAI cfg provider =
     (if isOAuth provider then cfg
      else cfg\<lparr>cf_XAIKey := cf_XAIKey cfg @ [(providerKey provider ''grok'')\<lparr>ke_ProxyURL := []\<rparr>]\<rparr>)"

definition hasCompat :: "CPAPIConfig \<Rightarrow> string \<Rightarrow> bool" where
  "hasCompat cfg name = list_ex (\<lambda>c. oc_Name c = name) (cf_OpenAICompatibility cfg)"

definition appendEntry :: "CPAPIConfig \<Rightarrow> string \<Rightarrow> CompatAPIKey \<Rightarrow> CPAPIConfig" where
  "appendEntry cfg name entry =
     cfg\<lparr>cf_OpenAICompatibility := updateFirst (\<lambda>c. oc_Name c = name)
       (\<lambda>c. c\<lparr>oc_APIKeyEntries := oc_APIKeyEntries c @ [entry]\<rparr>) (cf_OpenAICompatibility cfg)\<rparr>"

definition appendCompat :: "CPAPIConfig \<Rightarrow> OpenAICompatibility \<Rightarrow> CPAPIConfig" where
  "appendCompat cfg c = cfg\<lparr>cf_OpenAICompatibility := cf_OpenAICompatibility cfg @ [c]\<rparr>"

definition addKimi :: "CPAPIConfig \<Rightarrow> Provider \<Rightarrow> CPAPIConfig" where
  "addKimi cfg provider =
     (let entry = \<lparr>ce_APIKey = pr_ClientSecret provider, ce_ProxyURL = pr_Proxy provider\<rparr> in
      if isOAuth provider then cfg
      else if hasCompat cfg ''kimi'' then appendEntry cfg ''kimi'' entry
      else appendCompat cfg \<lparr>oc_Name = ''kimi'', oc_Disabled = False, oc_BaseURL = pr_BaseUrl provider,
             oc_Prefix = ''kimi'', oc_APIKeyEntries = [entry], oc_Models = [], oc_Headers = []\<rparr>)"

definition clineModels :: "CompatModel list" where
  "clineModels = map (\<lambda>(n, s). \<lparr>cm_Name = n, cm_Alias = [], cm_DisplayName = s, cm_InputModalities = [],
       cm_OutputModalities = []\<rparr>)
     [(''cline-pass/glm-5.3'', ''GLM-5.3''),
      (''cline-pass/glm-5.2'', ''GLM-5.2''),
      (''cline-pass/kimi-k3'', ''Kimi-K3''),
      (''cline-pass/kimi-k2.7-code'', ''Kimi-K2.7-Code''),
      (''cline-pass/kimi-k2.6'', ''Kimi-K2.6''),
      (''cline-pass/deepseek-v4-pro'', ''DeepSeek-V4-Pro''),
      (''cline-pass/deepseek-v4-flash'', ''DeepSeek-V4-Flash''),
      (''cline-pass/mimo-v2.5'', ''MIMO-V2.5''),
      (''cline-pass/mimo-v2.5-pro'', ''MIMO-V2.5-Pro''),
      (''cline-pass/minimax-m3'', ''Minimax-M3''),
      (''cline-pass/qwen3.8-max'', ''Qwen3.8-Max''),
      (''cline-pass/qwen3.7-max'', ''Qwen3.7-Max''),
      (''cline-pass/qwen3.7-plus'', ''Qwen3.7-Plus''),
      (''minimax/minimax-m2.5'', ''Cline/Minimax-M2.5'')]"

definition addCline :: "CPAPIConfig \<Rightarrow> Provider \<Rightarrow> CPAPIConfig" where
  "addCline cfg provider =
     (let entry = \<lparr>ce_APIKey = pr_ClientSecret provider, ce_ProxyURL = []\<rparr> in
      if isOAuth provider then cfg
      else if hasCompat cfg ''cline'' then appendEntry cfg ''cline'' entry
      else appendCompat cfg \<lparr>oc_Name = ''cline'', oc_Disabled = False, oc_BaseURL = pr_BaseUrl provider,
             oc_Prefix = [], oc_APIKeyEntries = [entry], oc_Models = clineModels, oc_Headers = []\<rparr>)"

definition addCustom :: "vendor_env \<Rightarrow> CPAPIConfig \<Rightarrow> Provider \<Rightarrow> CPAPIConfig" where
  "addCustom env cfg provider =
     (let entry = (\<lambda>models. \<lparr>oc_Name = pr_ID provider, oc_Disabled = False, oc_BaseURL = pr_BaseUrl provider,
             oc_Prefix = ''custom'',
             oc_APIKeyEntries = [\<lparr>ce_APIKey = pr_ClientSecret provider, ce_ProxyURL = []\<rparr>],
             oc_Models = map toCompatModel models, oc_Headers = []\<rparr>)
      in
      case ve_models env (pr_BaseUrl provider @ ''/v1/models'') (pr_ClientSecret provider) of
        BadURL \<Rightarrow> cfg
      | NoAnswer \<Rightarrow> cfg
      | OtherStatus \<Rightarrow> appendCompat cfg (entry [])
      | BrokenBody _ \<Rightarrow> cfg
      | Body None \<Rightarrow> cfg
      | Body (Some models) \<Rightarrow> appendCompat cfg (entry models))"

definition addOpencode :: "vendor_env \<Rightarrow> CPAPIConfig \<Rightarrow> Provider \<Rightarrow> ProviderOAuthDefinition \<Rightarrow> CPAPIConfig" where
  "addOpencode env cfg provider oauthDef =
     (let baseURL = (if pr_BaseUrl provider = [] then od_DefaultURL oauthDef else pr_BaseUrl provider);
          entry = (\<lambda>models. \<lparr>oc_Name = od_Provider oauthDef, oc_Disabled = pr_Disabled provider, oc_BaseURL = baseURL,
             oc_Prefix = ''opencode'',
             oc_APIKeyEntries = [\<lparr>ce_APIKey = pr_ClientSecret provider, ce_ProxyURL = []\<rparr>],
             oc_Models = map toCompatModel models,
             oc_Headers = [(''x-opencode-session'', pr_ClientSecret provider)]\<rparr>)
      in
      if hasCompat cfg (od_Provider oauthDef)
      then appendEntry cfg (od_Provider oauthDef) \<lparr>ce_APIKey = pr_ClientSecret provider, ce_ProxyURL = pr_Proxy provider\<rparr>
      else
        case ve_models env (baseURL @ ''/models'') (pr_ClientSecret provider) of
          BadURL \<Rightarrow> cfg
        | NoAnswer \<Rightarrow> cfg
        | OtherStatus \<Rightarrow> appendCompat cfg (entry [])
        | BrokenBody None \<Rightarrow> cfg
        | BrokenBody (Some models) \<Rightarrow> appendCompat cfg (entry models)
        | Body None \<Rightarrow> cfg
        | Body (Some models) \<Rightarrow> appendCompat cfg (entry models))"

text \<open>
  The Cursor vendor also works on the bridge and on the provider it is given (its base URL).  The
  access token is asserted to be a string before it is checked, so without one the call panics.
\<close>

definition addCursor :: "vendor_env \<Rightarrow> CPAPIConfig \<Rightarrow> Provider \<Rightarrow> Server option \<Rightarrow>
    (CPAPIConfig \<times> Provider \<times> Server option) option" where
  "addCursor env cfg provider held =
     (let proxyUrl = (if pr_UseProxy provider then pr_Proxy provider else []);
          accessToken = stringAt (pr_Credentials provider) ''access_token''
      in
      if pr_Credentials provider = [] then Some (cfg, provider, held)
      else if hasCompat cfg ''cursor'' then
       (if trimSpace accessToken = [] then Some (cfg, provider, held)
        else Some (appendEntry cfg ''cursor'' \<lparr>ce_APIKey = pr_ClientSecret provider, ce_ProxyURL = []\<rparr>, provider,
               if proxyUrl = [] then held else heldSetProxy held accessToken proxyUrl))
      else
        case GetOrCreateServer (ve_listen env) \<lparr>cfg_Port = 0, cfg_CursorClientVersion = ''3.17.8'', cfg_ProxyURL = []\<rparr> held of
          (Inl e, held) \<Rightarrow> Some (cfg, provider, held)
        | (Inr server, held) \<Rightarrow>
           (let provider = provider\<lparr>pr_BaseUrl := BaseURL server\<rparr> in
            case map_of (pr_Credentials provider) ''access_token'' of
              Some (JStr token) \<Rightarrow>
               (case HandleModels (ve_bridge env) server token [] proxyUrl of
                  Inl e \<Rightarrow> Some (cfg, provider, held)
                | Inr models \<Rightarrow>
                    if trimSpace accessToken = [] then Some (cfg, provider, held)
                    else Some
                     (appendCompat cfg \<lparr>oc_Name = pr_ID provider, oc_Disabled = pr_Disabled provider,
                        oc_BaseURL = BaseURL server, oc_Prefix = ''cursor'',
                        oc_APIKeyEntries = [\<lparr>ce_APIKey = accessToken, ce_ProxyURL = []\<rparr>],
                        oc_Models = map (\<lambda>x. \<lparr>cm_Name = mo_Id x, cm_Alias = [], cm_DisplayName = [],
                          cm_InputModalities = [], cm_OutputModalities = []\<rparr>) models,
                        oc_Headers = []\<rparr>,
                      provider, if proxyUrl = [] then held else heldSetProxy held accessToken proxyUrl))
            | _ \<Rightarrow> None))"

fun AddProviderConfig :: "vendor_env \<Rightarrow> vendor \<Rightarrow> CPAPIConfig \<Rightarrow> Provider \<Rightarrow> Server option \<Rightarrow>
    (CPAPIConfig \<times> Provider \<times> Server option) option" where
  "AddProviderConfig env Anthropic cfg provider held = Some (addAnthropic cfg provider, provider, held)"
| "AddProviderConfig env Codex cfg provider held = Some (addCodex cfg provider, provider, held)"
| "AddProviderConfig env Antigravity cfg provider held = Some (addAntigravity cfg provider, provider, held)"
| "AddProviderConfig env XAI cfg provider held = Some (addXAI cfg provider, provider, held)"
| "AddProviderConfig env Kimi cfg provider held = Some (addKimi cfg provider, provider, held)"
| "AddProviderConfig env Cline cfg provider held = Some (addCline cfg provider, provider, held)"
| "AddProviderConfig env Custom cfg provider held = Some (addCustom env cfg provider, provider, held)"
| "AddProviderConfig env OpencodeZen cfg provider held =
     Some (addOpencode env cfg provider (the (GetOAuthDefinition OpencodeZen)), provider, held)"
| "AddProviderConfig env OpencodeGo cfg provider held =
     Some (addOpencode env cfg provider (the (GetOAuthDefinition OpencodeGo)), provider, held)"
| "AddProviderConfig env CursorVendor cfg provider held = addCursor env cfg provider held"

section \<open>Removing a provider from the configuration\<close>

text \<open>The key of an OAuth provider is its access token, asserted to be a string.\<close>

definition credentialKey :: "Provider \<Rightarrow> string option" where
  "credentialKey provider =
     (if isOAuth provider then
        (case map_of (pr_Credentials provider) ''access_token'' of Some (JStr t) \<Rightarrow> Some t | _ \<Rightarrow> None)
      else Some (pr_ClientSecret provider))"

definition sameKey :: "string \<Rightarrow> Provider \<Rightarrow> ProviderKey \<Rightarrow> bool" where
  "sameKey apiKey provider k = (ke_APIKey k = apiKey \<and> ke_BaseURL k = pr_BaseUrl provider)"

definition removeAnthropic :: "CPAPIConfig \<Rightarrow> Provider \<Rightarrow> CPAPIConfig option" where
  "removeAnthropic cfg provider =
     map_option (\<lambda>apiKey. cfg\<lparr>cf_ClaudeKey := removeFirst (sameKey apiKey provider) (cf_ClaudeKey cfg)\<rparr>) (credentialKey provider)"

definition removeCodex :: "CPAPIConfig \<Rightarrow> Provider \<Rightarrow> CPAPIConfig option" where
  "removeCodex cfg provider =
     map_option (\<lambda>apiKey. cfg\<lparr>cf_CodexKey := removeFirst (sameKey apiKey provider) (cf_CodexKey cfg)\<rparr>) (credentialKey provider)"

definition removeAntigravity :: "CPAPIConfig \<Rightarrow> Provider \<Rightarrow> CPAPIConfig option" where
  "removeAntigravity cfg provider =
     map_option (\<lambda>apiKey. cfg\<lparr>cf_GeminiKey := removeFirst (sameKey apiKey provider) (cf_GeminiKey cfg)\<rparr>) (credentialKey provider)"

definition removeXAI :: "CPAPIConfig \<Rightarrow> Provider \<Rightarrow> CPAPIConfig" where
  "removeXAI cfg provider =
     cfg\<lparr>cf_XAIKey := removeFirst (sameKey (pr_ClientSecret provider) provider) (cf_XAIKey cfg)\<rparr>"

text \<open>
  The removal that Kimi, Cline and Opencode share in its code: the shortened slice is assigned to
  the loop's copy of the entry, so the configuration only sees what happens to the array.
\<close>

definition removeOpenAICompatibilityConfig :: "CPAPIConfig \<Rightarrow> Provider \<Rightarrow> string \<Rightarrow> CPAPIConfig" where
  "removeOpenAICompatibilityConfig cfg provider providerName =
     cfg\<lparr>cf_OpenAICompatibility := updateFirst (\<lambda>c. oc_Name c = providerName)
       (\<lambda>c. c\<lparr>oc_APIKeyEntries := deleteInPlace (\<lambda>e. ce_APIKey e = pr_ClientSecret provider) (oc_APIKeyEntries c)\<rparr>)
       (cf_OpenAICompatibility cfg)\<rparr>"

definition removeKimi :: "CPAPIConfig \<Rightarrow> Provider \<Rightarrow> CPAPIConfig" where
  "removeKimi cfg provider = removeOpenAICompatibilityConfig cfg provider ''kimi''"

definition removeCline :: "CPAPIConfig \<Rightarrow> Provider \<Rightarrow> CPAPIConfig" where
  "removeCline cfg provider = removeOpenAICompatibilityConfig cfg provider ''cline''"

text \<open>An entry of the provider without any API key entry makes the index expression panic.\<close>

fun removeCustomLoop :: "Provider \<Rightarrow> OpenAICompatibility list \<Rightarrow> OpenAICompatibility list option" where
  "removeCustomLoop provider [] = Some []"
| "removeCustomLoop provider (c # cs) =
     (if oc_Name c = pr_ID provider \<and> oc_BaseURL c = pr_BaseUrl provider then
        (case oc_APIKeyEntries c of
           [] \<Rightarrow> None
         | e # _ \<Rightarrow> if ce_APIKey e = pr_ClientSecret provider then Some cs
                    else map_option (\<lambda>r. c # r) (removeCustomLoop provider cs))
      else map_option (\<lambda>r. c # r) (removeCustomLoop provider cs))"

definition removeCustom :: "CPAPIConfig \<Rightarrow> Provider \<Rightarrow> CPAPIConfig option" where
  "removeCustom cfg provider =
     map_option (\<lambda>cs. cfg\<lparr>cf_OpenAICompatibility := cs\<rparr>) (removeCustomLoop provider (cf_OpenAICompatibility cfg))"

definition removeCursor :: "CPAPIConfig \<Rightarrow> Provider \<Rightarrow> CPAPIConfig" where
  "removeCursor cfg provider =
     (let accessToken = stringAt (pr_Credentials provider) ''access_token'' in
      cfg\<lparr>cf_OpenAICompatibility := updateFirst (\<lambda>c. oc_Name c = ''cursor'')
        (\<lambda>c. c\<lparr>oc_APIKeyEntries := filter (\<lambda>e. ce_APIKey e \<noteq> accessToken) (oc_APIKeyEntries c)\<rparr>)
        (cf_OpenAICompatibility cfg)\<rparr>)"

fun RemoveProviderConfig :: "vendor \<Rightarrow> CPAPIConfig \<Rightarrow> Provider \<Rightarrow> CPAPIConfig option" where
  "RemoveProviderConfig Anthropic cfg provider = removeAnthropic cfg provider"
| "RemoveProviderConfig Codex cfg provider = removeCodex cfg provider"
| "RemoveProviderConfig Antigravity cfg provider = removeAntigravity cfg provider"
| "RemoveProviderConfig XAI cfg provider = Some (removeXAI cfg provider)"
| "RemoveProviderConfig Kimi cfg provider = Some (removeKimi cfg provider)"
| "RemoveProviderConfig Cline cfg provider = Some (removeCline cfg provider)"
| "RemoveProviderConfig Custom cfg provider = removeCustom cfg provider"
| "RemoveProviderConfig OpencodeZen cfg provider = Some (removeOpenAICompatibilityConfig cfg provider ''opencode-zen'')"
| "RemoveProviderConfig OpencodeGo cfg provider = Some (removeOpenAICompatibilityConfig cfg provider ''opencode-go'')"
| "RemoveProviderConfig CursorVendor cfg provider = Some (removeCursor cfg provider)"

section \<open>Lemmas\<close>

lemma removeFirst_none: "\<not> list_ex P xs \<Longrightarrow> removeFirst P xs = xs"
  by (induction xs) auto

lemma removeFirst_last: "\<not> list_ex P xs \<Longrightarrow> P y \<Longrightarrow> removeFirst P (xs @ [y]) = xs"
  by (induction xs) auto

lemma updateFirst_none: "\<not> list_ex P xs \<Longrightarrow> updateFirst P f xs = xs"
  by (induction xs) auto

lemma updateFirst_at: "\<not> list_ex P xs \<Longrightarrow> P y \<Longrightarrow> updateFirst P f (xs @ y # ys) = xs @ f y # ys"
  by (induction xs) auto

lemma removeCustomLoop_none:
  "\<not> list_ex (\<lambda>c. oc_Name c = pr_ID p \<and> oc_BaseURL c = pr_BaseUrl p) cs \<Longrightarrow> removeCustomLoop p (cs @ ds) = map_option ((@) cs) (removeCustomLoop p ds)"
proof (induction cs)
  case Nil
  show ?case by (cases "removeCustomLoop p ds") auto
next
  case (Cons c cs)
  then show ?case by (cases "removeCustomLoop p ds") auto
qed

lemma length_deleteInPlace [simp]: "length (deleteInPlace del es) = length es"
  by (simp add: deleteInPlace_def Let_def)

lemma deleteInPlace_eq:
  "deleteInPlace del es = filter (\<lambda>e. \<not> del e) es @ replicate (length (filter del es)) blankKey"
  using sum_length_filter_compl [of del es] by (simp add: deleteInPlace_def Let_def)

text \<open>No entry of the configuration carries the provider's key already.\<close>

fun freshFor :: "vendor \<Rightarrow> CPAPIConfig \<Rightarrow> Provider \<Rightarrow> bool" where
  "freshFor Anthropic cfg p = (\<not> list_ex (sameKey (pr_ClientSecret p) p) (cf_ClaudeKey cfg))"
| "freshFor Codex cfg p = (\<not> list_ex (sameKey (pr_ClientSecret p) p) (cf_CodexKey cfg))"
| "freshFor Antigravity cfg p = (\<not> list_ex (sameKey (pr_ClientSecret p) p) (cf_GeminiKey cfg))"
| "freshFor XAI cfg p = (\<not> list_ex (sameKey (pr_ClientSecret p) p) (cf_XAIKey cfg))"
| "freshFor Custom cfg p = (\<not> list_ex (\<lambda>c. oc_Name c = pr_ID p \<and> oc_BaseURL c = pr_BaseUrl p) (cf_OpenAICompatibility cfg))"
| "freshFor _ cfg p = False"

text \<open>The name under which the entries of a vendor with shared entries stand.\<close>

definition sharedName :: "vendor \<Rightarrow> string option" where
  "sharedName v = (if v \<in> {Kimi, Cline, OpencodeZen, OpencodeGo} then map_option od_Provider (GetOAuthDefinition v) else None)"

lemma removeCustom_appended:
  assumes "freshFor Custom cfg p" "oc_Name c = pr_ID p" "oc_BaseURL c = pr_BaseUrl p"
    and "oc_APIKeyEntries c = [\<lparr>ce_APIKey = pr_ClientSecret p, ce_ProxyURL = []\<rparr>]"
  shows "removeCustom (appendCompat cfg c) p = Some cfg"
  using assms removeCustomLoop_none [of p "cf_OpenAICompatibility cfg" "[c]"]
  by (simp add: removeCustom_def appendCompat_def)

lemma removeCustom_fresh: "freshFor Custom cfg p \<Longrightarrow> removeCustom cfg p = Some cfg"
  using removeCustomLoop_none [of p "cf_OpenAICompatibility cfg" "[]"] by (simp add: removeCustom_def)

lemma add_remove_custom: "freshFor Custom cfg p \<Longrightarrow> removeCustom (addCustom env cfg p) p = Some cfg"
  unfolding addCustom_def Let_def
  by (auto simp: removeCustom_fresh removeCustom_appended split: models_answer.splits option.splits)

section \<open>Properties\<close>

text \<open>
  C29: taking a provider out undoes putting it in: for the vendors with an entry per provider, adding
  a provider with its own API key and removing it again gives back the configuration, provided no
  other entry already carries the same key and base URL.
\<close>

theorem add_remove_restores:
  assumes "freshFor v cfg p" "\<not> isOAuth p"
  shows "\<exists>cfg'. AddProviderConfig env v cfg p held = Some (cfg', p, held) \<and> RemoveProviderConfig v cfg' p = Some cfg"
proof -
  have key: "credentialKey p = Some (pr_ClientSecret p)" using assms(2) by (simp add: credentialKey_def)
  have same: "sameKey (pr_ClientSecret p) p (providerKey p s)" "sameKey (pr_ClientSecret p) p ((providerKey p s)\<lparr>ke_ProxyURL := []\<rparr>)" for s
    by (simp_all add: sameKey_def providerKey_def)
  show ?thesis
    using assms key same
    by (cases v)
      (auto simp: addAnthropic_def addCodex_def addAntigravity_def addXAI_def removeAnthropic_def removeCodex_def
        removeAntigravity_def removeXAI_def removeFirst_last add_remove_custom)
qed

text \<open>
  For the vendors whose providers share one entry (Kimi, Cline, Opencode), removing a provider
  takes its key out of the entry but leaves a blank one in its place: the number of API keys of the
  entry stays the same, and CLIProxyAPI is left with as many empty keys as were removed.
\<close>

lemma removed_key_leaves_blank:
  assumes "sharedName v = Some name" "cf_OpenAICompatibility cfg = pre @ c # post"
    and "\<not> list_ex (\<lambda>x. oc_Name x = name) pre" "oc_Name c = name"
  shows "\<exists>cfg'. RemoveProviderConfig v cfg p = Some cfg' \<and>
    map oc_APIKeyEntries (cf_OpenAICompatibility cfg') = map oc_APIKeyEntries pre @
      (filter (\<lambda>e. ce_APIKey e \<noteq> pr_ClientSecret p) (oc_APIKeyEntries c) @
       replicate (length (filter (\<lambda>e. ce_APIKey e = pr_ClientSecret p) (oc_APIKeyEntries c))) blankKey) #
      map oc_APIKeyEntries post"
proof -
  have "v \<in> {Kimi, Cline, OpencodeZen, OpencodeGo}" using assms(1) by (auto simp: sharedName_def split: if_splits)
  then have "RemoveProviderConfig v cfg p = Some (removeOpenAICompatibilityConfig cfg p name)"
    using assms(1) by (auto simp: sharedName_def removeKimi_def removeCline_def)
  then show ?thesis
    using assms(2-4) by (simp add: removeOpenAICompatibilityConfig_def updateFirst_at deleteInPlace_eq)
qed

text \<open>
  a Cursor provider that was entered into a configuration without a \<open>cursor\<close> entry is never
  taken out again: it was entered under its identifier, and removal looks for the name \<open>cursor\<close>.
\<close>

lemma cursor_entry_not_removed:
  assumes "\<not> hasCompat cfg ''cursor''" "pr_ID p \<noteq> ''cursor''"
    and "AddProviderConfig env CursorVendor cfg p held = Some (cfg', p', held')"
  shows "RemoveProviderConfig CursorVendor cfg' p' = Some cfg'"
proof -
  have "cfg' = cfg \<or> (\<exists>c. cfg' = appendCompat cfg c \<and> oc_Name c = pr_ID p)"
    using assms(1,3)
    by (auto simp: addCursor_def Let_def split: if_splits prod.splits sum.splits option.splits json.splits)
  then have "\<not> hasCompat cfg' ''cursor''" using assms(1,2) by (auto simp: hasCompat_def appendCompat_def)
  then show ?thesis by (simp add: removeCursor_def hasCompat_def updateFirst_none)
qed

section \<open>Witnesses\<close>

definition empty_config :: CPAPIConfig where
  "empty_config = \<lparr>cf_Port = 8317, cf_APIKeys = [], cf_ClaudeKey = [], cf_CodexKey = [], cf_GeminiKey = [],
     cf_XAIKey = [], cf_OpenAICompatibility = []\<rparr>"

definition sample_provider :: Provider where
  "sample_provider = \<lparr>pr_ID = ''p1'', pr_Name = ''one'', pr_Type = 5, pr_BaseUrl = ''u'', pr_ClientSecret = ''sec'',
     pr_Credentials = [(''access_token'', JStr ''t'')], pr_UseProxy = False, pr_Proxy = [], pr_IsCloudflare = False,
     pr_Priority = 0, pr_Disabled = False, pr_CreatedAt = 0, pr_UpdatedAt = 0\<rparr>"

definition sample_vendor_env :: vendor_env where
  "sample_vendor_env = \<lparr>ve_bridge = sample_env\<lparr>be_do := (\<lambda>_ _. Inr \<lparr>hp_StatusCode = 200, hp_Status = ''200 OK'', hp_Body = source [] None\<rparr>)\<rparr>,
     ve_listen = (\<lambda>_. Inr 4000), ve_models = (\<lambda>_ _. Body (Some []))\<rparr>"

theorem add_remove_restores_witness:
  "\<exists>cfg'. AddProviderConfig sample_vendor_env XAI empty_config sample_provider None = Some (cfg', sample_provider, None) \<and>
     length (cf_XAIKey cfg') = 1 \<and> RemoveProviderConfig XAI cfg' sample_provider = Some empty_config"
proof -
  have "freshFor XAI empty_config sample_provider" "\<not> isOAuth sample_provider"
    by (simp_all add: empty_config_def sample_provider_def isOAuth_def hasPrefix_def)
  from add_remove_restores [OF this, of sample_vendor_env None] show ?thesis
    using \<open>\<not> isOAuth sample_provider\<close> by (auto simp: addXAI_def empty_config_def)
qed

lemma sample_models: "HandleModels (ve_bridge sample_vendor_env) s ''t'' [] [] = Inr []" if "srv_proxies s = Map.empty"
  using that
  by (simp add: HandleModels_def sample_vendor_env_def ProxyFor_def buildHTTPClient_def decodeMaybeGzip_def readAll_def
      source_def DecodeAvailableModels_def parseFields_def parseFieldsLoop.simps)

lemma sample_added:
  "\<exists>cfg' p' held'. AddProviderConfig sample_vendor_env CursorVendor empty_config sample_provider None = Some (cfg', p', held') \<and>
     length (cf_OpenAICompatibility cfg') = 1"
proof -
  have t: "trimSpace ''t'' = ''t''" by (rule trimSpace_graphic) auto
  have s: "GetOrCreateServer (ve_listen sample_vendor_env) c None =
      (Inr \<lparr>srv_cfg = withDefaults (c\<lparr>cfg_Port := 0\<rparr>), srv_port = 4000, srv_proxies = Map.empty\<rparr>,
       Some \<lparr>srv_cfg = withDefaults (c\<lparr>cfg_Port := 0\<rparr>), srv_port = 4000, srv_proxies = Map.empty\<rparr>)" for c
    by (simp add: GetOrCreateServer_def CreateServer_def NewServer_def sample_vendor_env_def)
  show ?thesis
    by (simp add: addCursor_def s Let_def sample_provider_def stringAt_def t sample_models hasCompat_def empty_config_def appendCompat_def)
qed

end
