(* ===== verification/Effort_Presets.thy ===== *)
theory Effort_Presets
  imports Cursor_Bridge Store
begin

text \<open>
  Effort presets (\<open>src/internal/app/cliproxyapi/effort_presets.go\<close>): every model of the model list is
  offered in three more variants (\<open>-low\<close>, \<open>-medium\<close>, \<open>-high\<close>), and a request for such a variant is
  rewritten to the notation CLIProxyAPI understands.

  JSON decoding and encoding are arguments: \<open>unmarshal\<close> gives the members of the object (none for
  \<open>null\<close>) or an error, \<open>marshal\<close> the bytes or an error.
\<close>

section \<open>HTTP messages\<close>

text \<open>Headers under their canonical names; \<open>setKey\<close> is \<open>Header.Set\<close>.\<close>

record client_request =
  rq_Method :: string
  rq_Path :: string
  rq_Header :: "(string \<times> string) list"
  rq_Body :: reader
  rq_ContentLength :: int

record upstream_response =
  rp_StatusCode :: int
  rp_Header :: "(string \<times> string) list"
  rp_Body :: reader
  rp_ContentLength :: int

definition headerGet :: "(string \<times> string) list \<Rightarrow> string \<Rightarrow> string" where
  "headerGet h k = (case map_of h k of None \<Rightarrow> [] | Some v \<Rightarrow> v)"

definition bytesReader :: "bytes \<Rightarrow> reader" where
  "bytesReader b = \<lparr>rd_data = b, rd_end = None\<rparr>"

section \<open>Variants of a model\<close>

definition effortSuffixes :: "string list" where
  "effortSuffixes = [''low'', ''medium'', ''high'']"

fun parseEffortLoop :: "string list \<Rightarrow> string \<Rightarrow> (string \<times> string) option" where
  "parseEffortLoop [] model = None"
| "parseEffortLoop (level # levels) model =
     (let suffix = ''-'' @ level in
      if hasSuffix model suffix then Some (trimSuffix model suffix, level) else parseEffortLoop levels model)"

text \<open>\<open>None\<close> is the answer \<open>(model, "", false)\<close>.\<close>

definition parseEffortModel :: "string \<Rightarrow> (string \<times> string) option" where
  "parseEffortModel model = parseEffortLoop effortSuffixes model"

definition effortModel :: "string \<Rightarrow> string \<Rightarrow> string" where
  "effortModel base effort = base @ ''('' @ effort @ '')''"

definition isRewritePath :: "string \<Rightarrow> bool" where
  "isRewritePath path0 =
     (let path = trimSuffix path0 ''/'' in
      hasSuffix path ''/v1/chat/completions'' \<or> hasSuffix path ''/v1/messages'' \<or> hasSuffix path ''/v1beta/messages'')"

section \<open>Requests\<close>

text \<open>The request that the next handler is called with.\<close>

definition EffortPresetMiddleware :: "(bytes \<Rightarrow> string + object) \<Rightarrow> (json \<Rightarrow> string + bytes) \<Rightarrow> client_request \<Rightarrow>
    client_request" where
  "EffortPresetMiddleware unmarshal marshal r =
     (let path = trimSuffix (rq_Path r) ''/'' in
      if rq_Method r \<noteq> ''POST'' \<or> \<not> isRewritePath path then r
      else if map lowerChar (headerGet (rq_Header r) ''Content-Encoding'') = ''gzip'' then r
      else
        let body = rd_data (rq_Body r); same = r\<lparr>rq_Body := bytesReader body\<rparr> in
        if rd_end (rq_Body r) \<noteq> None then same
        else if length body = 0 then same
        else
          case unmarshal body of
            Inl _ \<Rightarrow> same
          | Inr payload \<Rightarrow>
             (case map_of payload ''model'' of
                Some (JStr model) \<Rightarrow>
                 (case parseEffortModel model of
                    None \<Rightarrow> same
                  | Some (base, effort) \<Rightarrow>
                     (case marshal (JObj (setKey ''model'' (JStr (effortModel base effort)) payload)) of
                        Inl _ \<Rightarrow> same
                      | Inr modified \<Rightarrow>
                          r\<lparr>rq_Body := bytesReader modified, rq_ContentLength := int (length modified),
                            rq_Header := setKey ''Content-Length'' (itoa (int (length modified))) (rq_Header r)\<rparr>))
              | _ \<Rightarrow> same))"

section \<open>The model list\<close>

definition variantOf :: "object \<Rightarrow> string \<Rightarrow> object" where
  "variantOf item level =
     (let i = stringAt item ''id''; root = stringAt item ''root'';
          variant = setKey ''id'' (JStr (i @ ''-'' @ level)) item
      in if root \<noteq> [] then setKey ''root'' (JStr (root @ ''-'' @ level)) variant else variant)"

fun expandItems :: "json list \<Rightarrow> object list" where
  "expandItems [] = []"
| "expandItems (JObj item # items) = (item # map (variantOf item) effortSuffixes) @ expandItems items"
| "expandItems (_ # items) = expandItems items"

text \<open>A nil slice of objects is encoded as \<open>null\<close>.\<close>

definition objectsJSON :: "object list \<Rightarrow> json" where
  "objectsJSON objects = (if objects = [] then JNull else JArr (map JObj objects))"

definition ExpandEffortModels :: "(bytes \<Rightarrow> string + object) \<Rightarrow> (json \<Rightarrow> string + bytes) \<Rightarrow> bytes \<Rightarrow> string + bytes" where
  "ExpandEffortModels unmarshal marshal raw =
     (case unmarshal raw of
        Inl _ \<Rightarrow> Inr raw
      | Inr response \<Rightarrow>
          if map_of response ''object'' \<noteq> Some (JStr ''list'') then Inr raw
          else
            case map_of response ''data'' of
              Some (JArr data) \<Rightarrow>
                if length data = 0 then Inr raw
                else marshal (JObj (setKey ''data'' (objectsJSON (expandItems data)) response))
            | _ \<Rightarrow> Inr raw)"

text \<open>\<open>Inl\<close>: the body could not be read, which the reverse proxy turns into a 502.\<close>

definition ModifyEffortModelsResponse :: "(bytes \<Rightarrow> string + object) \<Rightarrow> (json \<Rightarrow> string + bytes) \<Rightarrow> string \<Rightarrow>
    upstream_response \<Rightarrow> string + upstream_response" where
  "ModifyEffortModelsResponse unmarshal marshal path resp =
     (if \<not> hasSuffix path ''/v1/models'' then Inr resp
      else if rp_StatusCode resp \<noteq> 200 then Inr resp
      else
        case rd_end (rp_Body resp) of
          Some e \<Rightarrow> Inl e
        | None \<Rightarrow>
           (case ExpandEffortModels unmarshal marshal (rd_data (rp_Body resp)) of
              Inl _ \<Rightarrow> Inr (resp\<lparr>rp_Body := bytesReader (rd_data (rp_Body resp))\<rparr>)
            | Inr modified \<Rightarrow>
                Inr (resp\<lparr>rp_Body := bytesReader modified, rp_ContentLength := int (length modified),
                  rp_Header := setKey ''Content-Length'' (itoa (int (length modified))) (rp_Header resp)\<rparr>)))"

section \<open>Lemmas\<close>

lemma hasSuffix_self: "hasSuffix (base @ s) s"
  by simp

lemma parseEffortModel_variant:
  assumes "level \<in> set effortSuffixes"
  shows "parseEffortModel (base @ ''-'' @ level) = Some (base, level)"
proof -
  have m: "\<not> hasSuffix (base @ ''-medium'') ''-low''" "\<not> hasSuffix (base @ ''-high'') ''-low''"
    "\<not> hasSuffix (base @ ''-high'') ''-medium''"
    by (auto simp: hasSuffix_iff dest: arg_cong [of _ _ rev])
  have s: "hasSuffix (base @ ''-low'') ''-low''" "hasSuffix (base @ ''-medium'') ''-medium''" "hasSuffix (base @ ''-high'') ''-high''"
    "trimSuffix (base @ ''-low'') ''-low'' = base" "trimSuffix (base @ ''-medium'') ''-medium'' = base"
    "trimSuffix (base @ ''-high'') ''-high'' = base"
    by (rule hasSuffix_append trimSuffix_append)+
  from assms show ?thesis
    by (auto simp: effortSuffixes_def parseEffortModel_def m s)
qed

lemma parseEffortLoop_Some: "parseEffortLoop levels model = Some (base, level) \<Longrightarrow> level \<in> set levels \<and> model = base @ ''-'' @ level"
proof (induction levels)
  case (Cons l ls)
  show ?case
  proof (cases "hasSuffix model (''-'' @ l)")
    case True
    then obtain r where "model = r @ ''-'' @ l" by (auto simp: hasSuffix_iff)
    moreover have "trimSuffix (r @ ''-'' @ l) (''-'' @ l) = r" by (rule trimSuffix_append)
    ultimately show ?thesis using True Cons.prems by (simp add: Let_def)
  next
    case False
    then show ?thesis using Cons by (simp add: Let_def)
  qed
qed simp

lemma variantOf_id [simp]: "stringAt (variantOf item level) ''id'' = stringAt item ''id'' @ ''-'' @ level"
  by (simp add: variantOf_def Let_def stringAt_def)

lemma variantOf_other: "k \<noteq> ''id'' \<Longrightarrow> k \<noteq> ''root'' \<Longrightarrow> map_of (variantOf item level) k = map_of item k"
  by (simp add: variantOf_def Let_def)

definition objectsOf :: "json list \<Rightarrow> object list" where
  "objectsOf data = concat (map (\<lambda>j. case j of JObj item \<Rightarrow> [item] | _ \<Rightarrow> []) data)"

lemma expandItems_eq: "expandItems data = concat (map (\<lambda>item. item # map (variantOf item) effortSuffixes) (objectsOf data))"
  by (induction data rule: expandItems.induct) (simp_all add: objectsOf_def)

lemma forwarded_variant:
  assumes "level \<in> set effortSuffixes" "rq_Method r = ''POST''" "isRewritePath (trimSuffix (rq_Path r) ''/'')"
    and "map lowerChar (headerGet (rq_Header r) ''Content-Encoding'') \<noteq> ''gzip''"
    and "rq_Body r = bytesReader body" "body \<noteq> []" "unmarshal body = Inr payload"
    and "map_of payload ''model'' = Some (JStr (base @ ''-'' @ level))"
    and "marshal (JObj (setKey ''model'' (JStr (effortModel base level)) payload)) = Inr modified"
  shows "EffortPresetMiddleware unmarshal marshal r =
    r\<lparr>rq_Body := bytesReader modified, rq_ContentLength := int (length modified),
      rq_Header := setKey ''Content-Length'' (itoa (int (length modified))) (rq_Header r)\<rparr>"
  using assms parseEffortModel_variant [OF assms(1), of base]
  by (simp add: EffortPresetMiddleware_def Let_def bytesReader_def)

lemma EffortPresetMiddleware_cases:
  "rd_data (rq_Body (EffortPresetMiddleware unmarshal marshal r)) = rd_data (rq_Body r) \<or>
   (\<exists>payload model base level modified. rq_Method r = ''POST'' \<and> isRewritePath (trimSuffix (rq_Path r) ''/'') \<and>
      unmarshal (rd_data (rq_Body r)) = Inr payload \<and> map_of payload ''model'' = Some (JStr model) \<and>
      parseEffortModel model = Some (base, level) \<and>
      marshal (JObj (setKey ''model'' (JStr (effortModel base level)) payload)) = Inr modified \<and>
      rd_data (rq_Body (EffortPresetMiddleware unmarshal marshal r)) = modified)"
  by (simp add: EffortPresetMiddleware_def Let_def bytesReader_def split: sum.split option.split json.split prod.split)

section \<open>Properties\<close>

text \<open>
  C39: every variant the model list offers can be requested: the list holds each model of the
  upstream list, followed by its three variants, and a request that names the variant \<open>m-level\<close> is
  passed on with the model \<open>m(level)\<close> and everything else in its body unchanged, with the length
  announced that the body has.
\<close>

theorem listed_variant_is_usable:
  assumes "unmarshal raw = Inr response" "map_of response ''object'' = Some (JStr ''list'')"
    and "map_of response ''data'' = Some (JArr data)" "item \<in> set (objectsOf data)" "level \<in> set effortSuffixes"
    and "rq_Method r = ''POST''" "isRewritePath (trimSuffix (rq_Path r) ''/'')"
    and "map lowerChar (headerGet (rq_Header r) ''Content-Encoding'') \<noteq> ''gzip''"
    and "rq_Body r = bytesReader body" "body \<noteq> []" "unmarshal body = Inr payload"
    and "map_of payload ''model'' = Some (JStr (stringAt (variantOf item level) ''id''))"
    and "\<And>j. \<exists>b. marshal j = Inr b"
  shows "\<exists>payload' modified.
    ExpandEffortModels unmarshal marshal raw = marshal (JObj (setKey ''data''
      (JArr (map JObj (concat (map (\<lambda>item. item # map (variantOf item) effortSuffixes) (objectsOf data))))) response)) \<and>
    map_of payload' = (map_of payload)(''model'' \<mapsto> JStr (stringAt item ''id'' @ ''('' @ level @ '')'')) \<and>
    marshal (JObj payload') = Inr modified \<and>
    rq_Body (EffortPresetMiddleware unmarshal marshal r) = bytesReader modified \<and>
    rq_ContentLength (EffortPresetMiddleware unmarshal marshal r) = int (length modified)"
proof -
  let ?p = "setKey ''model'' (JStr (effortModel (stringAt item ''id'') level)) payload"
  obtain modified where m: "marshal (JObj ?p) = Inr modified" using assms(13) by blast
  have "concat (map (\<lambda>item. item # map (variantOf item) effortSuffixes) (objectsOf data)) \<noteq> []"
    using assms(4) by auto
  moreover have "data \<noteq> []" using assms(4) by (auto simp: objectsOf_def)
  ultimately have "ExpandEffortModels unmarshal marshal raw = marshal (JObj (setKey ''data''
      (JArr (map JObj (concat (map (\<lambda>item. item # map (variantOf item) effortSuffixes) (objectsOf data))))) response))"
    using assms(1-3) by (simp add: ExpandEffortModels_def expandItems_eq objectsJSON_def)
  moreover have "map_of ?p = (map_of payload)(''model'' \<mapsto> JStr (stringAt item ''id'' @ ''('' @ level @ '')''))"
    by (simp add: effortModel_def)
  moreover have "EffortPresetMiddleware unmarshal marshal r =
    r\<lparr>rq_Body := bytesReader modified, rq_ContentLength := int (length modified),
      rq_Header := setKey ''Content-Length'' (itoa (int (length modified))) (rq_Header r)\<rparr>"
    using assms(12) by (intro forwarded_variant [where unmarshal = unmarshal and marshal = marshal, OF assms(5-11) _ m]) simp
  ultimately show ?thesis using m by (intro exI [of _ ?p] exI [of _ modified]) simp
qed

text \<open>
  a request is either passed on untouched up to re-reading its body, or it is a \<open>POST\<close> to one of
  the three chat endpoints whose model ends in an effort suffix; only then is the body rewritten.
\<close>

lemma only_effort_requests_rewritten:
  assumes "rd_data (rq_Body (EffortPresetMiddleware unmarshal marshal r)) \<noteq> rd_data (rq_Body r)"
  shows "\<exists>payload base level. rq_Method r = ''POST'' \<and> isRewritePath (trimSuffix (rq_Path r) ''/'') \<and>
    unmarshal (rd_data (rq_Body r)) = Inr payload \<and> level \<in> set effortSuffixes \<and>
    map_of payload ''model'' = Some (JStr (base @ ''-'' @ level)) \<and>
    marshal (JObj (setKey ''model'' (JStr (effortModel base level)) payload)) =
      Inr (rd_data (rq_Body (EffortPresetMiddleware unmarshal marshal r)))"
proof -
  from assms obtain payload model base level where h: "rq_Method r = ''POST''" "isRewritePath (trimSuffix (rq_Path r) ''/'')"
    "unmarshal (rd_data (rq_Body r)) = Inr payload" "map_of payload ''model'' = Some (JStr model)"
    "parseEffortModel model = Some (base, level)"
    "marshal (JObj (setKey ''model'' (JStr (effortModel base level)) payload)) =
       Inr (rd_data (rq_Body (EffortPresetMiddleware unmarshal marshal r)))"
    using EffortPresetMiddleware_cases [of unmarshal marshal r] by blast
  then have "level \<in> set effortSuffixes" "model = base @ ''-'' @ level"
    using parseEffortLoop_Some [of effortSuffixes model base level] by (simp_all add: parseEffortModel_def)
  with h show ?thesis by blast
qed

section \<open>Witnesses\<close>

definition sample_unmarshal :: "bytes \<Rightarrow> string + object" where
  "sample_unmarshal b =
     (if b = [1] then Inr [(''object'', JStr ''list''), (''data'', JArr [JObj [(''id'', JStr ''m'')]])]
      else if b = [2] then Inr [(''model'', JStr ''m-high''), (''stream'', JBool True)]
      else Inl ''syntax error'')"

definition sample_marshal :: "json \<Rightarrow> string + bytes" where
  "sample_marshal j = Inr (case j of JObj ((_, JStr s) # _) \<Rightarrow> bytes_of s | _ \<Rightarrow> [9])"

definition sample_request :: client_request where
  "sample_request = \<lparr>rq_Method = ''POST'', rq_Path = ''/v1/messages'', rq_Header = [], rq_Body = bytesReader [2],
     rq_ContentLength = 1\<rparr>"

lemma sample_path: "isRewritePath (trimSuffix ''/v1/messages'' ''/'')"
  by (simp add: isRewritePath_def trimSuffix_def hasSuffix_def hasPrefix_def Let_def)

theorem listed_variant_is_usable_witness:
  "\<exists>payload' modified.
    ExpandEffortModels sample_unmarshal sample_marshal [1] = sample_marshal (JObj (setKey ''data''
      (JArr (map JObj (concat (map (\<lambda>item. item # map (variantOf item) effortSuffixes) (objectsOf [JObj [(''id'', JStr ''m'')]])))))
      [(''object'', JStr ''list''), (''data'', JArr [JObj [(''id'', JStr ''m'')]])])) \<and>
    map_of payload' = (map_of [(''model'', JStr ''m-high''), (''stream'', JBool True)])
      (''model'' \<mapsto> JStr (stringAt [(''id'', JStr ''m'')] ''id'' @ ''('' @ ''high'' @ '')'')) \<and>
    sample_marshal (JObj payload') = Inr modified \<and>
    rq_Body (EffortPresetMiddleware sample_unmarshal sample_marshal sample_request) = bytesReader modified \<and>
    rq_ContentLength (EffortPresetMiddleware sample_unmarshal sample_marshal sample_request) = int (length modified)"
  by (rule listed_variant_is_usable [where body = "[2]"])
    (simp_all add: sample_unmarshal_def sample_request_def sample_path objectsOf_def effortSuffixes_def headerGet_def
      stringAt_def sample_marshal_def variantOf_def Let_def)

lemma sample_forwarded: "rd_data (rq_Body (EffortPresetMiddleware sample_unmarshal sample_marshal sample_request)) = bytes_of ''m(high)''"
proof -
  have "EffortPresetMiddleware sample_unmarshal sample_marshal sample_request =
    sample_request\<lparr>rq_Body := bytesReader (bytes_of ''m(high)''), rq_ContentLength := int (length (bytes_of ''m(high)'')),
      rq_Header := setKey ''Content-Length'' (itoa (int (length (bytes_of ''m(high)'')))) (rq_Header sample_request)\<rparr>"
    by (rule forwarded_variant [where level = "''high''" and base = "''m''" and body = "[2]" and
          payload = "[(''model'', JStr ''m-high''), (''stream'', JBool True)]"])
      (simp_all add: sample_unmarshal_def sample_request_def sample_path effortSuffixes_def headerGet_def sample_marshal_def
        effortModel_def setKey_def)
  then show ?thesis by (simp add: bytesReader_def)
qed

end
