(* ===== verification/Access_Provider.thy ===== *)
theory Access_Provider
  imports Api_Key Access_Policy Provider_Vendor Effort_Presets
begin

text \<open>
  Who may do what: the authentication of API and proxy requests
  (\<open>src/internal/driver/middlewares/auth.go\<close>, \<open>src/internal/app/cliproxyapi/access_provider.go\<close>) and
  the rewriting of the model list for a caller (\<open>AccessProviderMiddleware\<close> and \<open>ModifyResponse\<close> of
  \<open>src/internal/app/app.go\<close>).

  The key stored in a request context is \<open>None\<close> (no value), \<open>Some None\<close> (a nil key, the master
  password) or \<open>Some (Some k)\<close>.  A result \<open>None\<close> is a run-time panic.  \<open>clock n\<close> is the n-th reading
  of the clock during the call.
\<close>

section \<open>Error texts\<close>

fun err_Error :: "err \<Rightarrow> string" where
  "err_Error ErrApiKeyNotFound = ''api key not found''"
| "err_Error ErrNoRows = ''no rows in result set''"
| "err_Error (SQLError s) = s"
| "err_Error (Plain s) = s"
| "err_Error (Status _ s) = s"
| "err_Error (Wrap op e) = op @ '': '' @ err_Error e"

section \<open>The API middleware\<close>

definition authToken :: "string \<Rightarrow> string option" where
  "authToken auth =
     (case cutPrefix auth ''Password '' of
        Some after \<Rightarrow> Some after
      | None \<Rightarrow> cutPrefix auth ''Bearer '')"

datatype auth_outcome = HTTPError int string | Next ApiKey

definition zeroApiKey :: ApiKey where
  "zeroApiKey = \<lparr>ak_ID = [], ak_Key = [], ak_Name = [], ak_QuotaSetted = False, ak_QuotaTokens = 0, ak_QuotaPeriod = [],
     ak_QuotaResetAt = 0, ak_ReservedTokens = 0, ak_RestrictedProviders = [], ak_RestrictedModels = [],
     ak_CreatedAt = 0, ak_UpdatedAt = 0, ak_IsDeleted = False, ak_IsActive = False, ak_IsAdmin = False\<rparr>"

text \<open>\<open>repoInCtx\<close>: whether \<open>UserRepoToCtxInterceptor\<close> has run before.\<close>

definition AuthInterceptor :: "bool \<Rightarrow> bool \<Rightarrow> string \<Rightarrow> string \<Rightarrow> db \<Rightarrow> auth_outcome \<times> db" where
  "AuthInterceptor isAdmin repoInCtx initialPassword auth d =
     (if auth = [] then (HTTPError 401 ''Authorization header is required'', d)
      else
        case authToken auth of
          None \<Rightarrow> (HTTPError 401 ''Invalid authorization header'', d)
        | Some token \<Rightarrow>
            if \<not> repoInCtx then (HTTPError 500 ''Internal server error'', d)
            else
              case LoginUser initialPassword token d of
                (Inl _, d) \<Rightarrow> (HTTPError 401 ''Unauthorized'', d)
              | (Inr (Some key), d) \<Rightarrow>
                  (if isAdmin \<and> \<not> ak_IsAdmin key then HTTPError 403 ''permission denied'' else Next key, d)
              | (Inr None, d) \<Rightarrow> (Next (zeroApiKey\<lparr>ak_IsAdmin := True, ak_ID := token, ak_Key := token\<rparr>), d))"

text \<open>The key that the answer's request context carries afterwards, or an error.\<close>

definition AuthorizeRequest :: "string \<Rightarrow> string \<Rightarrow> db \<Rightarrow> (string + ApiKey option) \<times> db" where
  "AuthorizeRequest initialPassword auth d =
     (if auth = [] then (Inl ''Authorization header is required'', d)
      else
        case authToken auth of
          None \<Rightarrow> (Inl ''Authorization header is required'', d)
        | Some token \<Rightarrow>
           (case LoginUser initialPassword token d of
              (Inl _, d) \<Rightarrow> (Inl ''Unauthorized'', d)
            | (Inr key, d) \<Rightarrow> (Inr key, d)))"

section \<open>The access provider of CLIProxyAPI\<close>

text \<open>\<open>xApiKey\<close> and \<open>authorization\<close> are the headers \<open>x-api-key\<close> and \<open>Authorization\<close>.\<close>

definition requestToken :: "string \<Rightarrow> string \<Rightarrow> string" where
  "requestToken xApiKey authorization0 =
     (let token = trimSpace xApiKey in
      if token \<noteq> [] then token
      else
        let authorization = trimSpace authorization0 in
        if contains authorization ''Bearer'' then trimSpace (trimPrefix authorization ''Bearer '')
        else if contains authorization ''Password'' then trimSpace (trimPrefix authorization ''Password '')
        else [])"

definition quotaExceeded :: "go_time \<Rightarrow> ApiKey \<Rightarrow> bool" where
  "quotaExceeded now key =
     (ak_QuotaSetted key \<and> ak_QuotaTokens key \<ge> ak_ReservedTokens key \<and>
      (ak_QuotaPeriod key = ''forever'' \<or> ak_QuotaResetAt key > now))"

definition quotaOverdue :: "go_time \<Rightarrow> ApiKey \<Rightarrow> bool" where
  "quotaOverdue now key =
     (ak_QuotaSetted key \<and> ak_QuotaPeriod key \<noteq> ''forever'' \<and> ak_QuotaTokens key \<ge> ak_ReservedTokens key \<and>
      ak_QuotaResetAt key < now)"

definition Authenticate :: "policy_env \<Rightarrow> (nat \<Rightarrow> go_time) \<Rightarrow> string \<Rightarrow> ApiKey option option \<Rightarrow> string \<Rightarrow> string \<Rightarrow>
    AccessPolicyStore option \<Rightarrow> db \<Rightarrow> ((string + string) \<times> AccessPolicyStore option \<times> db) option" where
  "Authenticate env clock initialPassword ctxKey xApiKey authorization policies d =
     (case (case ctxKey of
              Some None \<Rightarrow> None
            | Some (Some key) \<Rightarrow> Some (trimSpace (ak_Key key))
            | None \<Rightarrow> Some (requestToken xApiKey authorization)) of
        None \<Rightarrow> None
      | Some token \<Rightarrow> Some
         (case LoginUser initialPassword token d of
            (Inl e, d) \<Rightarrow> (Inl (err_Error e), policies, d)
          | (Inr None, d) \<Rightarrow> (Inr ''admin'', policies, d)
          | (Inr (Some key), d) \<Rightarrow>
              if \<not> ak_IsActive key \<or> ak_IsDeleted key then (Inl ''invalid token'', policies, d)
              else if quotaExceeded (clock 0) key then (Inl ''quota exceeded'', policies, d)
              else
                let d = (if quotaOverdue (clock 1) key then snd (UpdateApiKeyQuota (clock 2) key d) else d) in
                case policies of
                  None \<Rightarrow> (Inr (ak_ID key), None, d)
                | Some s \<Rightarrow>
                   (let (s, d) = SetPolicy env (clock 3) (ak_ID key) (ak_RestrictedProviders key) (ak_RestrictedModels key) s d
                    in (Inr (ak_ID key), Some s, d))))"

section \<open>The model list of a restricted key\<close>

text \<open>
  The providers that offer an item, one by one: the item is listed once for every provider of its
  owner that the key may use.  A custom provider has no definition to compare with: a panic.
\<close>

fun itemCopies :: "ApiKey \<Rightarrow> object \<Rightarrow> Provider list \<Rightarrow> object list option" where
  "itemCopies key item [] = Some []"
| "itemCopies key item (provider # rest) =
     (case ProviderOAuthConfig (pr_Type provider) of
        Inl _ \<Rightarrow> itemCopies key item rest
      | Inr cfg \<Rightarrow>
         (case GetOAuthDefinition cfg of
            None \<Rightarrow> None
          | Some def \<Rightarrow>
             (let keep = stringAt item ''owned_by'' = od_Provider def \<and>
                (ak_RestrictedModels key \<noteq> [] \<and> stringAt item ''id'' \<notin> set (ak_RestrictedModels key) \<or>
                 ak_RestrictedProviders key \<noteq> [] \<and> pr_ID provider \<notin> set (ak_RestrictedProviders key))
              in map_option (\<lambda>r. if keep then item # r else r) (itemCopies key item rest))))"

fun keptItems :: "ApiKey \<Rightarrow> Provider list \<Rightarrow> json list \<Rightarrow> object list option" where
  "keptItems key providers [] = Some []"
| "keptItems key providers (JObj item # items) =
     (case itemCopies key item providers of
        None \<Rightarrow> None
      | Some copies \<Rightarrow> map_option (\<lambda>r. copies @ r) (keptItems key providers items))"
| "keptItems key providers (_ # items) = keptItems key providers items"

text \<open>The body of the answer is consumed; the result \<open>[]\<close> stands for nil bytes too.\<close>

definition ExcludeRestrictedModels :: "(bytes \<Rightarrow> string + object) \<Rightarrow> (json \<Rightarrow> string + bytes) \<Rightarrow> ApiKey \<Rightarrow> reader \<Rightarrow> db \<Rightarrow>
    (string + bytes) option \<times> db" where
  "ExcludeRestrictedModels unmarshal marshal key body d =
     (case readAll body of
        Inl e \<Rightarrow> (Some (Inl e), d)
      | Inr raw \<Rightarrow>
         (case unmarshal raw of
            Inl _ \<Rightarrow> (Some (Inr []), d)
          | Inr response \<Rightarrow>
              if map_of response ''object'' \<noteq> Some (JStr ''list'') then (Some (Inr []), d)
              else
                case map_of response ''data'' of
                  Some (JArr data) \<Rightarrow>
                    if length data = 0 then (Some (Inr []), d)
                    else
                     (case GetProviders d of
                        (Inl e, d) \<Rightarrow> (Some (Inl (err_Error e)), d)
                      | (Inr providersDb, d) \<Rightarrow>
                         (map_option (\<lambda>expanded. marshal (JObj (setKey ''data'' (objectsJSON expanded) response)))
                            (keptItems key providersDb data), d))
                | _ \<Rightarrow> (Some (Inr []), d)))"

text \<open>
  After an error the answer keeps its drained and closed body; \<open>afterClose\<close> is what reading that
  reports.
\<close>

definition AccessProviderMiddleware :: "string option \<Rightarrow> (bytes \<Rightarrow> string + object) \<Rightarrow> (json \<Rightarrow> string + bytes) \<Rightarrow> ApiKey option option \<Rightarrow>
    upstream_response \<Rightarrow> db \<Rightarrow> upstream_response option \<times> db" where
  "AccessProviderMiddleware afterClose unmarshal marshal ctxKey resp d =
     (case ctxKey of
        None \<Rightarrow> (Some resp, d)
      | Some None \<Rightarrow> (Some resp, d)
      | Some (Some key) \<Rightarrow>
          if ak_IsAdmin key then (Some resp, d)
          else if length (ak_RestrictedModels key) = 0 \<and> length (ak_RestrictedProviders key) = 0 then (Some resp, d)
          else
            case ExcludeRestrictedModels unmarshal marshal key (rp_Body resp) d of
              (None, d) \<Rightarrow> (None, d)
            | (Some (Inl _), d) \<Rightarrow> (Some (resp\<lparr>rp_Body := \<lparr>rd_data = [], rd_end = afterClose\<rparr>\<rparr>), d)
            | (Some (Inr filtered), d) \<Rightarrow>
                (Some (resp\<lparr>rp_Body := bytesReader filtered, rp_ContentLength := int (length filtered),
                  rp_Header := setKey ''Content-Length'' (itoa (int (length filtered))) (rp_Header resp)\<rparr>), d))"

section \<open>The reverse proxy\<close>

definition corsHeaders :: "string list" where
  "corsHeaders = [''Access-Control-Allow-Origin'', ''Access-Control-Allow-Credentials'', ''Access-Control-Allow-Methods'',
     ''Access-Control-Allow-Headers'', ''Access-Control-Expose-Headers'', ''Access-Control-Max-Age'']"

definition rewriteResponse :: "upstream_response \<Rightarrow> int \<Rightarrow> string \<Rightarrow> upstream_response" where
  "rewriteResponse resp status body =
     resp\<lparr>rp_StatusCode := status, rp_Body := bytesReader (bytes_of body), rp_ContentLength := int (length body),
       rp_Header := filter (\<lambda>p. fst p \<noteq> ''Content-Encoding'')
         (setKey ''Content-Length'' (itoa (int (length body)))
           (setKey ''Content-Type'' ''application/json'' (rp_Header resp)))\<rparr>"

definition unauthorizedBody :: string where
  "unauthorizedBody =
     (let q = [CHR 0x22] in
      ''{'' @ q @ ''error'' @ q @ '':{'' @ q @ ''message'' @ q @ '':'' @ q @ ''Unauthorized'' @ q @ '','' @
      q @ ''type'' @ q @ '':'' @ q @ ''authentication_error'' @ q @ ''}}'')"

text \<open>\<open>Some (Inl _)\<close> is an error of the hook, which the reverse proxy answers with a 502.\<close>

definition ModifyResponse :: "string option \<Rightarrow> (bytes \<Rightarrow> string + object) \<Rightarrow> (json \<Rightarrow> string + bytes) \<Rightarrow> bool \<Rightarrow> string \<Rightarrow> string \<Rightarrow> string \<Rightarrow>
    upstream_response \<Rightarrow> db \<Rightarrow> (string + upstream_response) option \<times> db" where
  "ModifyResponse afterClose unmarshal marshal effortPresets initialPassword path auth resp0 d =
     (let resp = resp0\<lparr>rp_Header := filter (\<lambda>p. fst p \<notin> set corsHeaders) (rp_Header resp0)\<rparr> in
      if hasSuffix path ''/v1/models'' then
       (case AuthorizeRequest initialPassword auth d of
          (Inl _, d) \<Rightarrow> (Some (Inr (rewriteResponse resp 401 unauthorizedBody)), d)
        | (Inr key, d) \<Rightarrow>
           (case (if effortPresets then ModifyEffortModelsResponse unmarshal marshal path resp else Inr resp) of
              Inl e \<Rightarrow> (Some (Inl e), d)
            | Inr resp \<Rightarrow>
               (case AccessProviderMiddleware afterClose unmarshal marshal (Some key) resp d of
                  (r, d) \<Rightarrow> (map_option Inr r, d))))
      else (Some (Inr resp), d))"

section \<open>Lemmas\<close>

lemma LoginUser_Some:
  assumes "LoginUser pw password d = (Inr (Some k), d')"
  shows "password \<noteq> pw \<and> k \<in> set (db_keys d) \<and> ak_Key k = password \<and> ak_IsActive k \<and> \<not> ak_IsDeleted k"
  using LoginUser_cases [OF assms] by simp

lemma LoginUser_None: "LoginUser pw password d = (Inr None, d') \<Longrightarrow> password = pw"
  using LoginUser_cases by fastforce

text \<open>Recording the restrictions of other keys leaves a policy alone.\<close>

definition setOthers :: "policy_env \<Rightarrow> (go_time \<times> string \<times> string list \<times> string list) list \<Rightarrow> AccessPolicyStore \<times> db \<Rightarrow>
    AccessPolicyStore \<times> db" where
  "setOthers env reqs sd = foldl (\<lambda>(s, d) (now, i, ps, ms). SetPolicy env now i ps ms s d) sd reqs"

lemma setOthers_policies:
  assumes "\<And>now i ps ms. (now, i, ps, ms) \<in> set reqs \<Longrightarrow> pe_callerScope env i \<noteq> scope"
  shows "st_policies (fst (setOthers env reqs sd)) scope = st_policies (fst sd) scope"
  using assms
proof (induction reqs arbitrary: sd)
  case (Cons q reqs)
  obtain now i ps ms where q: "q = (now, i, ps, ms)" by (cases q) auto
  then have "pe_callerScope env i \<noteq> scope" using Cons.prems by fastforce
  then have "st_policies (fst (SetPolicy env now i ps ms (fst sd) (snd sd))) scope = st_policies (fst sd) scope"
    by (simp add: SetPolicy_policies)
  moreover have "st_policies (fst (setOthers env reqs (SetPolicy env now i ps ms (fst sd) (snd sd)))) scope =
      st_policies (fst (SetPolicy env now i ps ms (fst sd) (snd sd))) scope"
    using Cons.prems by (intro Cons.IH) auto
  ultimately show ?case using q by (simp add: setOthers_def case_prod_unfold)
qed (simp add: setOthers_def)

lemma Authenticate_key:
  assumes "Authenticate env clock pw None xApiKey authorization (Some s) d = Some (Inr i, policies', d')"
    and "requestToken xApiKey authorization \<noteq> pw"
  shows "\<exists>k d0 s'. k \<in> set (db_keys d) \<and> ak_Key k = requestToken xApiKey authorization \<and> ak_ID k = i \<and>
    ak_IsActive k \<and> \<not> ak_IsDeleted k \<and> \<not> quotaExceeded (clock 0) k \<and> policies' = Some s' \<and>
    SetPolicy env (clock 3) i (ak_RestrictedProviders k) (ak_RestrictedModels k) s d0 = (s', d')"
proof -
  obtain r d1 where l: "LoginUser pw (requestToken xApiKey authorization) d = (r, d1)" by fastforce
  then obtain k where r: "r = Inr (Some k)"
    using assms LoginUser_None [of pw "requestToken xApiKey authorization" d d1]
    by (cases r) (auto simp: Authenticate_def split: option.splits)
  from LoginUser_Some [OF l [unfolded r]] show ?thesis
    using assms l r by (intro exI [of _ k]) (auto simp: Authenticate_def Let_def split: if_splits prod.splits)
qed

section \<open>Properties\<close>


text \<open>
  A handler behind the admin middleware only ever runs for an administrator: the request carried
  the master password, or the secret of an active, undeleted key marked as administrator.  Behind the
  other one it runs for any such key.  No other request gets through, and none changes a key.
\<close>

lemma only_valid_keys_pass:
  assumes "AuthInterceptor isAdmin repoInCtx pw auth d = (Next k, d')"
  shows "db_keys d' = db_keys d \<and> (isAdmin \<longrightarrow> ak_IsAdmin k) \<and>
    (\<exists>token. auth \<in> {''Password '' @ token, ''Bearer '' @ token} \<and>
      (token = pw \<and> ak_IsAdmin k \<and> ak_ID k = token \<or>
       token \<noteq> pw \<and> k \<in> set (db_keys d) \<and> ak_Key k = token \<and> ak_IsActive k \<and> \<not> ak_IsDeleted k))"
proof -
  obtain token where t: "authToken auth = Some token" "auth \<noteq> []" "repoInCtx"
    using assms by (auto simp: AuthInterceptor_def split: if_splits option.splits)
  then have form: "auth \<in> {''Password '' @ token, ''Bearer '' @ token}"
    by (auto simp: authToken_def cutPrefix_Some_iff split: option.splits)
  obtain r d1 where l: "LoginUser pw token d = (r, d1)" by fastforce
  show ?thesis
  proof (cases r)
    case (Inr o')
    then show ?thesis
      using assms t form l LoginUser_cases [OF l]
      by (cases o') (auto simp: AuthInterceptor_def zeroApiKey_def split: if_splits)
  qed (use assms t l in \<open>auto simp: AuthInterceptor_def\<close>)
qed

lemma LoginUser_no_fault:
  assumes "db_faults d = []" "token \<noteq> pw"
  shows "LoginUser pw token d =
    (case find (\<lambda>k. ak_Key k = token) (db_keys d) of
       Some k \<Rightarrow> if ak_IsActive k \<and> \<not> ak_IsDeleted k then Inr (Some k) else Inl (Plain ''invalid password'')
     | None \<Rightarrow> Inl (Plain ''invalid password''), d)"
  using assms by (simp add: LoginUser_def GetApiKeyByKey_def stmt_no_fault split: option.split)

text \<open>
  C19: with the database answering, a request with a token other than the master password is decided
  by the key that has this token as its secret and by nothing else: no such key, or one that is
  inactive or deleted, is an invalid password; a key whose consumption has reached its allowance is
  refused until its quota is due for a reset (for a quota without a period, always); every other
  one is admitted under its identifier.
\<close>

theorem admission_is_exact:
  assumes "db_faults d = []" "requestToken xApiKey authorization \<noteq> pw"
  shows "map_option fst (Authenticate env clock pw None xApiKey authorization policies d) = Some
    (case find (\<lambda>k. ak_Key k = requestToken xApiKey authorization) (db_keys d) of
       None \<Rightarrow> Inl ''invalid password''
     | Some k \<Rightarrow>
         if \<not> ak_IsActive k \<or> ak_IsDeleted k then Inl ''invalid password''
         else if ak_QuotaSetted k \<and> ak_ReservedTokens k \<le> ak_QuotaTokens k \<and>
                 (ak_QuotaPeriod k = ''forever'' \<or> clock 0 < ak_QuotaResetAt k) then Inl ''quota exceeded''
         else Inr (ak_ID k))"
  using LoginUser_no_fault [OF assms]
  by (auto simp: Authenticate_def quotaExceeded_def Let_def split: option.splits prod.splits)

lemma itemCopies_eq:
  assumes "\<forall>p \<in> set providers. pr_Type p \<noteq> 1"
  shows "itemCopies key item providers = Some (map (\<lambda>p. item) (filter (\<lambda>p.
    (\<exists>v def. ProviderOAuthConfig (pr_Type p) = Inr v \<and> GetOAuthDefinition v = Some def \<and> stringAt item ''owned_by'' = od_Provider def) \<and>
    (ak_RestrictedModels key \<noteq> [] \<and> stringAt item ''id'' \<notin> set (ak_RestrictedModels key) \<or>
     ak_RestrictedProviders key \<noteq> [] \<and> pr_ID p \<notin> set (ak_RestrictedProviders key))) providers))"
  using assms
proof (induction providers)
  case (Cons p ps)
  have "ProviderOAuthConfig (pr_Type p) = Inr v \<Longrightarrow> GetOAuthDefinition v \<noteq> None" for v
    using Cons.prems by (auto simp: ProviderOAuthConfig_def split: if_splits)
  then show ?case using Cons by (auto simp: Let_def split: sum.splits option.splits)
qed simp

lemma itemCopies_custom: "p \<in> set providers \<Longrightarrow> pr_Type p = 1 \<Longrightarrow> itemCopies key item providers = None"
proof (induction providers)
  case (Cons q qs)
  then show ?case
    by (cases "q = p") (auto simp: ProviderOAuthConfig_def Let_def split: sum.splits option.splits)
qed simp

lemma keptItems_custom: "p \<in> set providers \<Longrightarrow> pr_Type p = 1 \<Longrightarrow> JObj item \<in> set data \<Longrightarrow> keptItems key providers data = None"
  by (induction key providers data rule: keptItems.induct) (auto simp: itemCopies_custom split: option.splits)

text \<open>
  When a key restricts both models and providers, a model it may not use is still shown to it,
  once for every provider of that model's owner that the key does not restrict: the list leaves out
  only what is restricted both as a model and through its provider.
\<close>

lemma listed_unless_both_restricted:
  assumes "\<forall>p \<in> set providers. pr_Type p \<noteq> 1" "ak_RestrictedModels key \<noteq> []" "ak_RestrictedProviders key \<noteq> []"
    and "stringAt item ''id'' \<in> set (ak_RestrictedModels key)"
    and "ProviderOAuthConfig (pr_Type p) = Inr v" "GetOAuthDefinition v = Some def"
    and "stringAt item ''owned_by'' = od_Provider def" "p \<in> set providers" "pr_ID p \<notin> set (ak_RestrictedProviders key)"
  shows "\<exists>items. keptItems key providers [JObj item] = Some items \<and> item \<in> set items"
  using assms by (auto simp: itemCopies_eq)

text \<open>
  As soon as one custom provider exists, the model list cannot be filtered: for a key with
  restrictions, every list with at least one model makes the server dereference the missing
  definition of the custom provider.
\<close>

lemma custom_provider_breaks_model_list:
  assumes "db_faults d = []" "p \<in> set (db_providers d)" "pr_Type p = 1" "\<not> ak_IsAdmin key"
    and "ak_RestrictedModels key \<noteq> [] \<or> ak_RestrictedProviders key \<noteq> []"
    and "rd_end (rp_Body resp) = None" "unmarshal (rd_data (rp_Body resp)) = Inr response"
    and "map_of response ''object'' = Some (JStr ''list'')" "map_of response ''data'' = Some (JArr data)" "JObj item \<in> set data"
  shows "fst (AccessProviderMiddleware afterClose unmarshal marshal (Some (Some key)) resp d) = None"
proof -
  have "GetProviders d = (Inr (db_providers d), d)" using assms(1) by (simp add: GetProviders_def stmt_no_fault)
  moreover have "data \<noteq> []" using assms(10) by auto
  ultimately have "ExcludeRestrictedModels unmarshal marshal key (rp_Body resp) d = (None, d)"
    using assms(6-9) keptItems_custom [OF assms(2,3,10)] by (simp add: ExcludeRestrictedModels_def readAll_def)
  then show ?thesis using assms(4,5) by (auto simp: AccessProviderMiddleware_def)
qed

text \<open>
  The model list is never shown to a caller who does not log in: whatever CLIProxyAPI answered,
  such a caller receives status 401 and the fixed error body, with its length announced and no
  encoding; and no answer of the proxy carries CORS headers of CLIProxyAPI.
\<close>

lemma models_need_login:
  assumes "hasSuffix path ''/v1/models''" "fst (AuthorizeRequest pw auth d) = Inl e"
  shows "\<exists>r d'. ModifyResponse afterClose unmarshal marshal effort pw path auth resp d = (Some (Inr r), d') \<and>
    rp_StatusCode r = 401 \<and> rp_Body r = bytesReader (bytes_of unauthorizedBody) \<and>
    rp_ContentLength r = int (length unauthorizedBody) \<and> map_of (rp_Header r) ''Content-Encoding'' = None \<and>
    (\<forall>h \<in> set corsHeaders. map_of (rp_Header r) h = None)"
proof -
  obtain d1 where a: "AuthorizeRequest pw auth d = (Inl e, d1)" using assms(2) by (cases "AuthorizeRequest pw auth d") auto
  have f: "map_of (filter (\<lambda>p. fst p \<notin> A) m) h = (if h \<in> A then None else map_of m h)" for A and m :: "(string \<times> string) list" and h
    by (induction m) auto
  from f [of "{''Content-Encoding''}"] have g: "map_of (filter (\<lambda>p. fst p \<noteq> ''Content-Encoding'') m) h =
      (if h = ''Content-Encoding'' then None else map_of m h)" for m :: "(string \<times> string) list" and h by simp
  have "h \<in> set corsHeaders \<Longrightarrow> h \<noteq> ''Content-Type'' \<and> h \<noteq> ''Content-Length''" for h by (auto simp: corsHeaders_def)
  then show ?thesis
    using assms(1) a by (auto simp: ModifyResponse_def Let_def rewriteResponse_def f g)
qed

section \<open>Witnesses\<close>

definition guest_key :: ApiKey where
  "guest_key = sample_key\<lparr>ak_RestrictedModels := [''opus''], ak_RestrictedProviders := [''p1'']\<rparr>"

definition guest_db :: db where
  "guest_db = sample_db\<lparr>db_keys := [guest_key], db_providers := [sample_provider\<lparr>pr_Type := 1\<rparr>]\<rparr>"

lemma guest_trim: "trimSpace ''sk-1'' = ''sk-1''" "trimSpace ''k1'' = ''k1''" "trimSpace ''m'' = ''m''"
  by (rule trimSpace_graphic; auto)+

lemma guest_token: "requestToken ''sk-1'' [] = ''sk-1''"
  by (simp add: requestToken_def guest_trim)

lemma guest_login: "LoginUser ''master'' ''sk-1'' guest_db = (Inr (Some guest_key), guest_db)"
  by (simp add: LoginUser_def GetApiKeyByKey_def guest_db_def sample_db_def stmt_no_fault guest_key_def sample_key_def)

lemma guest_quota: "\<not> quotaExceeded now guest_key" "\<not> quotaOverdue now guest_key"
  by (simp_all add: guest_key_def sample_key_def quotaExceeded_def quotaOverdue_def)

lemma guest_fields: "ak_ID guest_key = ''k1''" "ak_IsActive guest_key" "\<not> ak_IsDeleted guest_key"
  "ak_RestrictedProviders guest_key = [''p1'']" "ak_RestrictedModels guest_key = [''opus'']" "ak_Key guest_key = ''sk-1''"
  by (simp_all add: guest_key_def sample_key_def)

lemma guest_policy:
  "SetPolicy sample_policy_env 0 ''k1'' [''p1''] [''opus''] (NewAccessPolicyStore False) guest_db = (sample_store, guest_db)"
  by (simp add: sample_store_def SetPolicy_def Let_def resolveProviderFingerprints_def NewAccessPolicyStore_def)

lemma guest_admitted:
  "Authenticate sample_policy_env (\<lambda>_. 0) ''master'' None ''sk-1'' [] (Some (NewAccessPolicyStore False)) guest_db =
     Some (Inr ''k1'', Some sample_store, guest_db)"
  using guest_policy by (simp add: Authenticate_def guest_token guest_login guest_quota guest_fields)


theorem admission_is_exact_witness:
  "map_option fst (Authenticate sample_policy_env (\<lambda>_. 0) ''master'' None ''sk-1'' [] None
     (guest_db\<lparr>db_keys := [guest_key\<lparr>ak_QuotaTokens := 100, ak_QuotaPeriod := ''forever''\<rparr>]\<rparr>)) = Some (Inl ''quota exceeded'')"
  using admission_is_exact [of "guest_db\<lparr>db_keys := [guest_key\<lparr>ak_QuotaTokens := 100, ak_QuotaPeriod := ''forever''\<rparr>]\<rparr>"
      "''sk-1''" "[]" "''master''" sample_policy_env "\<lambda>_. 0" None]
  by (simp add: guest_token guest_db_def sample_db_def guest_key_def sample_key_def)

definition models_response :: upstream_response where
  "models_response = \<lparr>rp_StatusCode = 200, rp_Header = [(''Access-Control-Allow-Origin'', ''*'')],
     rp_Body = bytesReader [1], rp_ContentLength = 1\<rparr>"

end
