(* ===== verification/Usage.thy ===== *)
theory Usage
  imports Api_Key
begin

text \<open>
  Accounting of requests: the usage plugin of CLIProxyAPI
  (\<open>src/internal/app/cliproxyapi/usage_plugin.go\<close>), the two queues in front of the database
  (\<open>AddToQueue\<close> and \<open>ProcessQueue\<close> of \<open>apikey_repo.go\<close> and \<open>usage_entry_repo.go\<close>), the table of usage
  entries, and the handlers that read it (\<open>src/internal/driver/server/logs.go\<close>).

  A buffered channel is the list of the values in it.  Every report is handled in a goroutine of its
  own; a system state holds the goroutines that still have to send, the queues and the database,
  and a step relation lets them move in any order.
\<close>

section \<open>Queues\<close>

text \<open>
  The contract of a bounded first-in first-out queue: what is accepted goes to the back, a full
  queue refuses, and values come out at the front.
\<close>

locale bounded_queue =
  fixes offer :: "'q \<Rightarrow> 'a \<Rightarrow> 'q option"
    and poll :: "'q \<Rightarrow> ('a \<times> 'q) option"
    and contents :: "'q \<Rightarrow> 'a list"
    and bound :: nat
  assumes offer_accepts: "length (contents q) < bound \<Longrightarrow> \<exists>q'. offer q x = Some q' \<and> contents q' = contents q @ [x]"
    and offer_refuses: "bound \<le> length (contents q) \<Longrightarrow> offer q x = None"
    and poll_empty: "contents q = [] \<Longrightarrow> poll q = None"
    and poll_front: "contents q = x # xs \<Longrightarrow> \<exists>q'. poll q = Some (x, q') \<and> contents q' = xs"
begin

text \<open>A script of operations (\<open>Some x\<close> offers, \<open>None\<close> polls), with what was accepted and what came out.\<close>

fun script :: "'a option list \<Rightarrow> 'q \<Rightarrow> 'a list \<times> 'a list \<times> 'q" where
  "script [] q = ([], [], q)"
| "script (Some x # ops) q =
     (case offer q x of
        None \<Rightarrow> script ops q
      | Some q' \<Rightarrow> (case script ops q' of (ins, outs, r) \<Rightarrow> (x # ins, outs, r)))"
| "script (None # ops) q =
     (case poll q of
        None \<Rightarrow> script ops q
      | Some (x, q') \<Rightarrow> (case script ops q' of (ins, outs, r) \<Rightarrow> (ins, x # outs, r)))"

lemma script_fifo:
  "script ops q = (ins, outs, r) \<Longrightarrow> outs @ contents r = contents q @ ins"
proof (induction ops q arbitrary: ins outs r rule: script.induct)
  case (2 x ops q)
  show ?case
  proof (cases "length (contents q) < bound")
    case True
    then obtain q' where "offer q x = Some q'" "contents q' = contents q @ [x]" using offer_accepts by blast
    then show ?thesis using 2 by (auto split: prod.splits)
  next
    case False
    then show ?thesis using 2 offer_refuses [of q x] by simp
  qed
next
  case (3 ops q)
  show ?case
  proof (cases "contents q")
    case Nil
    then show ?thesis using 3 poll_empty [of q] by simp
  next
    case (Cons x xs)
    then obtain q' where "poll q = Some (x, q')" "contents q' = xs" using poll_front by blast
    then show ?thesis using 3 Cons by (auto split: prod.splits)
  qed
qed simp

lemma script_bounded: "script ops q = (ins, outs, r) \<Longrightarrow> length (contents q) \<le> bound \<Longrightarrow> length (contents r) \<le> bound"
proof (induction ops q arbitrary: ins outs r rule: script.induct)
  case (2 x ops q)
  show ?case
  proof (cases "length (contents q) < bound")
    case True
    then obtain q' where "offer q x = Some q'" "contents q' = contents q @ [x]" using offer_accepts by blast
    then show ?thesis using 2 True by (auto split: prod.splits)
  next
    case False
    then show ?thesis using 2 offer_refuses [of q x] by simp
  qed
next
  case (3 ops q)
  show ?case
  proof (cases "contents q")
    case Nil
    then show ?thesis using 3 poll_empty [of q] by simp
  next
    case (Cons x xs)
    then obtain q' where "poll q = Some (x, q')" "contents q' = xs" using poll_front by blast
    then show ?thesis using 3 Cons by (auto split: prod.splits)
  qed
qed simp

end

text \<open>Both queues are made with room for 1000 values.\<close>

definition queueCap :: nat where
  "queueCap = 1000"

type_synonym QuotaUsage = "string \<times> int"

definition chanOffer :: "'a list \<Rightarrow> 'a \<Rightarrow> 'a list option" where
  "chanOffer q x = (if length q < queueCap then Some (q @ [x]) else None)"

fun chanPoll :: "'a list \<Rightarrow> ('a \<times> 'a list) option" where
  "chanPoll [] = None"
| "chanPoll (x # xs) = Some (x, xs)"

interpretation chan: bounded_queue chanOffer chanPoll "\<lambda>q. q" queueCap
  by unfold_locales (auto simp: chanOffer_def)

text \<open>
  The quota queue blocks its sender: \<open>None\<close> while it is full and the context is not done.  When both
  arms of the \<open>select\<close> are ready, \<open>preferDone\<close> says which one is taken.
\<close>

definition AddQuotaToQueue :: "bool \<Rightarrow> bool \<Rightarrow> QuotaUsage list \<Rightarrow> QuotaUsage \<Rightarrow> (err + QuotaUsage list) option" where
  "AddQuotaToQueue ctxDone preferDone queue usage =
     (case chanOffer queue usage of
        Some queue' \<Rightarrow> Some (if ctxDone \<and> preferDone then Inl (Plain ''context deadline exceeded'') else Inr queue')
      | None \<Rightarrow> if ctxDone then Some (Inl (Plain ''context deadline exceeded'')) else None)"

text \<open>The queue of usage entries never blocks.\<close>

definition AddEntryToQueue :: "bool \<Rightarrow> UsageEntry list \<Rightarrow> UsageEntry \<Rightarrow> err + UsageEntry list" where
  "AddEntryToQueue ctxDone queue usageEntry =
     (case chanOffer queue usageEntry of
        Some queue' \<Rightarrow> Inr queue'
      | None \<Rightarrow> Inl (Plain (if ctxDone then ''context deadline exceeded'' else ''usage entry queue is full'')))"

section \<open>The table of usage entries\<close>

text \<open>The number of characters of a UTF-8 string, which \<open>VARCHAR(255)\<close> limits.\<close>

definition utf8Length :: "string \<Rightarrow> nat" where
  "utf8Length s = length (filter (\<lambda>c. \<not> (0x80 \<le> (of_char c :: nat) \<and> (of_char c :: nat) < 0xC0)) s)"

definition entryFits :: "UsageEntry \<Rightarrow> bool" where
  "entryFits e = (utf8Length (ue_Provider e) \<le> 255 \<and> utf8Length (ue_Model e) \<le> 255 \<and> utf8Length (ue_Reasoning e) \<le> 255)"

definition SaveUsageEntry :: "UsageEntry \<Rightarrow> unit sql" where
  "SaveUsageEntry usageEntry =
     (let op = ''UsageEntryRepo.SaveUsageEntry'' in
      stmt op (\<lambda>d.
        if \<not> entryFits usageEntry then (Inl (Wrap op (SQLError ''value too long for type character varying(255)'')), d)
        else if \<not> list_ex (\<lambda>k. ak_ID k = ue_ApiTokenID usageEntry) (db_keys d)
        then (Inl (Wrap op (SQLError ''violates foreign key constraint'')), d)
        else (Inr (), d\<lparr>db_usage := db_usage d @ [usageEntry\<lparr>ue_ID := db_nextUsage d\<rparr>], db_nextUsage := db_nextUsage d + 1\<rparr>)))"

definition defaultUsageLimit :: nat where "defaultUsageLimit = 100"
definition maxUsageLimit :: nat where "maxUsageLimit = 1000"

definition clampLimit :: "nat \<Rightarrow> nat" where
  "clampLimit limit =
     (if limit = 0 then defaultUsageLimit
      else if limit > maxUsageLimit then maxUsageLimit
      else limit)"

text \<open>
  Newest first; rows with the same time keep the order of the table (SQL leaves it open).  An offset
  that is not a \<open>BIGINT\<close> is refused by the server.
\<close>

definition newestFirst :: "UsageEntry list \<Rightarrow> UsageEntry list" where
  "newestFirst rows = sort_key (\<lambda>e. - ue_CreatedAt e) rows"

definition queryUsageEntries :: "string \<Rightarrow> string option \<Rightarrow> nat \<Rightarrow> nat \<Rightarrow> UsageEntry list sql" where
  "queryUsageEntries op0 apiKeyID limit offset =
     (let op = ''UsageEntryRepo.'' @ op0 in
      stmt op (\<lambda>d.
        if 2 ^ 63 \<le> offset then (Inl (Wrap op (SQLError ''bigint out of range'')), d)
        else (Inr (take (clampLimit limit) (drop offset (newestFirst
               (filter (\<lambda>e. case apiKeyID of None \<Rightarrow> True | Some i \<Rightarrow> ue_ApiTokenID e = i) (db_usage d))))), d)))"

definition GetAllUsageEntries :: "nat \<Rightarrow> nat \<Rightarrow> UsageEntry list sql" where
  "GetAllUsageEntries limit offset = queryUsageEntries ''GetAllUsageEntries'' None limit offset"

definition GetUsageEntriesByApiKeyID :: "string \<Rightarrow> nat \<Rightarrow> nat \<Rightarrow> UsageEntry list sql" where
  "GetUsageEntriesByApiKeyID keyID limit offset = queryUsageEntries ''GetUsageEntriesByApiKeyID'' (Some keyID) limit offset"

text \<open>The sums of no rows are \<open>NULL\<close>, which cannot be scanned into an integer.\<close>

definition SumUsageEntries :: "string \<Rightarrow> (int \<times> int \<times> int \<times> int) sql" where
  "SumUsageEntries keyID =
     (let op = ''UsageEntryRepo.SumUsageEntries'' in
      stmt op (\<lambda>d.
        let rows = filter (\<lambda>e. ue_ApiTokenID e = keyID) (db_usage d) in
        (if rows = [] then Inl (Wrap op (SQLError ''cannot scan NULL into *int64''))
         else Inr (sum_list (map ue_InputTokens rows), sum_list (map ue_OutputTokens rows),
                   sum_list (map ue_TotalTokens rows), sum_list (map ue_CachedTokens rows)), d)))"

section \<open>The plugin\<close>

record usage_record =
  rc_APIKey :: string
  rc_Provider :: string
  rc_Model :: string
  rc_ReasoningEffort :: string
  rc_InputTokens :: int
  rc_OutputTokens :: int
  rc_TotalTokens :: int
  rc_CachedTokens :: int
  rc_RequestedAt :: go_time
  rc_Latency :: go_duration
  rc_Failed :: bool
  rc_StatusCode :: int
  rc_Body :: string

text \<open>\<open>Duration.Milliseconds\<close> rounds towards zero.\<close>

definition milliseconds :: "go_duration \<Rightarrow> int" where
  "milliseconds dur = (if dur < 0 then - ((- dur) div 1000000) else dur div 1000000)"

definition usageEntryOf :: "go_time \<Rightarrow> string \<Rightarrow> usage_record \<Rightarrow> UsageEntry" where
  "usageEntryOf now apiTokenID rc =
     \<lparr>ue_ID = 0, ue_ApiTokenID = apiTokenID, ue_Provider = rc_Provider rc, ue_Latency = milliseconds (rc_Latency rc),
      ue_InputTokens = rc_InputTokens rc, ue_OutputTokens = rc_OutputTokens rc, ue_TotalTokens = rc_TotalTokens rc,
      ue_CachedTokens = rc_CachedTokens rc, ue_Model = rc_Model rc, ue_Reasoning = rc_ReasoningEffort rc,
      ue_Failed = rc_Failed rc,
      ue_Error = (if rc_Failed rc then itoa (rc_StatusCode rc) @ '' '' @ rc_Body rc else []),
      ue_RequestedAt = rc_RequestedAt rc, ue_CreatedAt = now\<rparr>"

text \<open>
  The part of the goroutine before its two sends: \<open>None\<close> when there is nothing to send (the master
  password, an unknown key, a malformed identifier).  \<open>parseUUID\<close> is \<open>uuid.Parse\<close>, as its string form.
\<close>

definition HandleUsage :: "(string \<Rightarrow> string option) \<Rightarrow> go_time \<Rightarrow> usage_record \<Rightarrow> db \<Rightarrow>
    (QuotaUsage \<times> UsageEntry) option \<times> db" where
  "HandleUsage parseUUID now rc d =
     (if rc_APIKey rc = ''admin'' then (None, d)
      else
        case GetApiKeyByID (rc_APIKey rc) d of
          (Inl _, d) \<Rightarrow> (None, d)
        | (Inr key, d) \<Rightarrow>
           (case parseUUID (ak_ID key) of
              None \<Rightarrow> (None, d)
            | Some apiTokenID \<Rightarrow>
                (Some ((ak_ID key, rc_TotalTokens rc), usageEntryOf now apiTokenID rc), d)))"

text \<open>One round of the two consumers; failures are logged and the value is gone.\<close>

definition processQuota :: "go_time \<Rightarrow> QuotaUsage list \<Rightarrow> db \<Rightarrow> (QuotaUsage list \<times> db) option" where
  "processQuota now queue d =
     map_option (\<lambda>(usage, queue'). (queue', snd (AddApiKeyQuotaUsage now (fst usage) (snd usage) d))) (chanPoll queue)"

definition processEntry :: "UsageEntry list \<Rightarrow> db \<Rightarrow> (UsageEntry list \<times> db) option" where
  "processEntry queue d =
     map_option (\<lambda>(usageEntry, queue'). (queue', snd (SaveUsageEntry usageEntry d))) (chanPoll queue)"

section \<open>The handlers\<close>

record LogEntry =
  le_Provider :: string
  le_ApiKeyId :: string
  le_Latency :: int
  le_InputTokens :: int
  le_OutputTokens :: int
  le_TotalTokens :: int
  le_CachedTokens :: int
  le_Model :: string
  le_ReasoningEffort :: string
  le_Failed :: bool
  le_Error :: string
  le_RequestTime :: go_time
  le_CreatedAt :: go_time

definition toLogEntry :: "UsageEntry \<Rightarrow> LogEntry" where
  "toLogEntry v =
     \<lparr>le_Provider = ue_Provider v, le_ApiKeyId = ue_ApiTokenID v, le_Latency = ue_Latency v,
      le_InputTokens = ue_InputTokens v, le_OutputTokens = ue_OutputTokens v, le_TotalTokens = ue_TotalTokens v,
      le_CachedTokens = ue_CachedTokens v, le_Model = ue_Model v, le_ReasoningEffort = ue_Reasoning v,
      le_Failed = ue_Failed v, le_Error = ue_Error v, le_RequestTime = ue_RequestedAt v, le_CreatedAt = ue_CreatedAt v\<rparr>"

text \<open>A 64-bit sum wraps around.\<close>

definition addInt64 :: "int \<Rightarrow> int \<Rightarrow> int" where
  "addInt64 a b = sint (word_of_int (a + b) :: 64 word)"

definition GetProviderLogsByKeyID :: "(string \<Rightarrow> err + string) \<Rightarrow> ApiKey option option \<Rightarrow> string \<Rightarrow> (LogEntry list \<times> int) sql" where
  "GetProviderLogsByKeyID parseUUID requester apiKeyId d =
     (case requester of
        None \<Rightarrow> (Inl (Status Unauthenticated ''unauthenticated''), d)
      | Some requesterKey \<Rightarrow>
          if (case requesterKey of None \<Rightarrow> False | Some k \<Rightarrow> \<not> ak_IsAdmin k \<and> apiKeyId \<noteq> ak_ID k)
          then (Inl (Status PermissionDenied ''permission denied''), d)
          else
            case parseUUID apiKeyId of
              Inl e \<Rightarrow> (Inl e, d)
            | Inr apiKeyUuid \<Rightarrow>
               (case GetUsageEntriesByApiKeyID apiKeyUuid 0 0 d of
                  (Inl e, d) \<Rightarrow> (Inl e, d)
                | (Inr usage, d) \<Rightarrow>
                    (Inr (map toLogEntry usage, foldl (\<lambda>t v. addInt64 t (ue_TotalTokens v)) 0 usage), d)))"

text \<open>The conversion \<open>uint64(x)\<close> of a signed 32-bit request field.\<close>

definition uint64 :: "int \<Rightarrow> nat" where
  "uint64 x = nat (x mod 2 ^ 64)"

definition GetUsageLogs :: "(string \<Rightarrow> err + string) \<Rightarrow> ApiKey option option \<Rightarrow> int \<Rightarrow> int \<Rightarrow> LogEntry list sql" where
  "GetUsageLogs parseUUID requester limit offset d =
     (case requester of
        None \<Rightarrow> (Inl (Status Unauthenticated ''unauthenticated''), d)
      | Some requesterKey \<Rightarrow>
         (let logs = (\<lambda>(r, d). (case r of Inl e \<Rightarrow> Inl e | Inr usage \<Rightarrow> Inr (map toLogEntry usage), d)) in
          case requesterKey of
            None \<Rightarrow> logs (GetAllUsageEntries (uint64 limit) (uint64 offset) d)
          | Some k \<Rightarrow>
              if ak_IsAdmin k then logs (GetAllUsageEntries (uint64 limit) (uint64 offset) d)
              else
                case parseUUID (ak_ID k) of
                  Inl _ \<Rightarrow> (Inl (Status Internal ''malformed api key id''), d)
                | Inr ownerID \<Rightarrow> logs (GetUsageEntriesByApiKeyID ownerID (uint64 limit) (uint64 offset) d)))"

section \<open>Concurrent reports\<close>

text \<open>
  \<open>us_quota\<close> holds the goroutines that have yet to send to the quota queue, \<open>us_entry\<close> those that have
  yet to send to the queue of entries.
\<close>

record usage_sys =
  us_db :: db
  us_quotaQueue :: "QuotaUsage list"
  us_entryQueue :: "UsageEntry list"
  us_quota :: "(QuotaUsage \<times> UsageEntry) list"
  us_entry :: "UsageEntry list"

text \<open>What an observer sees of a step: a value entered one of the queues, or nothing.\<close>

datatype usage_event = Quiet | Charged QuotaUsage | Logged UsageEntry

inductive usageStep :: "usage_sys \<Rightarrow> usage_event \<Rightarrow> usage_sys \<Rightarrow> bool" where
  report: "HandleUsage parseUUID now rc (us_db s) = (Some g, d) \<Longrightarrow>
    usageStep s Quiet (s\<lparr>us_db := d, us_quota := us_quota s @ [g]\<rparr>)"
| no_report: "HandleUsage parseUUID now rc (us_db s) = (None, d) \<Longrightarrow> usageStep s Quiet (s\<lparr>us_db := d\<rparr>)"
| charge: "us_quota s = gs @ (u, e) # hs \<Longrightarrow> AddQuotaToQueue ctxDone preferDone (us_quotaQueue s) u = Some (Inr q) \<Longrightarrow>
    usageStep s (Charged u) (s\<lparr>us_quotaQueue := q, us_quota := gs @ hs, us_entry := us_entry s @ [e]\<rparr>)"
| no_charge: "us_quota s = gs @ (u, e) # hs \<Longrightarrow> AddQuotaToQueue ctxDone preferDone (us_quotaQueue s) u = Some (Inl x) \<Longrightarrow>
    usageStep s Quiet (s\<lparr>us_quota := gs @ hs, us_entry := us_entry s @ [e]\<rparr>)"
| log: "us_entry s = gs @ e # hs \<Longrightarrow> AddEntryToQueue ctxDone (us_entryQueue s) e = Inr q \<Longrightarrow>
    usageStep s (Logged e) (s\<lparr>us_entryQueue := q, us_entry := gs @ hs\<rparr>)"
| no_log: "us_entry s = gs @ e # hs \<Longrightarrow> AddEntryToQueue ctxDone (us_entryQueue s) e = Inl x \<Longrightarrow>
    usageStep s Quiet (s\<lparr>us_entry := gs @ hs\<rparr>)"
| quota: "processQuota now (us_quotaQueue s) (us_db s) = Some (q, d) \<Longrightarrow>
    usageStep s Quiet (s\<lparr>us_quotaQueue := q, us_db := d\<rparr>)"
| entry: "processEntry (us_entryQueue s) (us_db s) = Some (q, d) \<Longrightarrow>
    usageStep s Quiet (s\<lparr>us_entryQueue := q, us_db := d\<rparr>)"

inductive usageRun :: "usage_sys \<Rightarrow> usage_event list \<Rightarrow> usage_sys \<Rightarrow> bool" where
  run_none: "usageRun s [] s"
| run_step: "usageRun s evs s' \<Longrightarrow> usageStep s' ev s'' \<Longrightarrow> usageRun s (evs @ [ev]) s''"

inductive_cases usageStepE: "usageStep s ev s'"

fun charged :: "usage_event list \<Rightarrow> QuotaUsage list" where
  "charged [] = []"
| "charged (Charged u # evs) = u # charged evs"
| "charged (_ # evs) = charged evs"

fun logged :: "usage_event list \<Rightarrow> UsageEntry list" where
  "logged [] = []"
| "logged (Logged e # evs) = e # logged evs"
| "logged (_ # evs) = logged evs"

lemma charged_append [simp]: "charged (a @ b) = charged a @ charged b"
  by (induction a rule: charged.induct) auto

lemma logged_append [simp]: "logged (a @ b) = logged a @ logged b"
  by (induction a rule: logged.induct) auto

section \<open>Frames\<close>

lemma chanPoll_Some: "chanPoll q = Some (x, r) \<longleftrightarrow> q = x # r"
  by (cases q) auto

lemma HandleUsage_frame:
  "HandleUsage p now rc d = (g, d') \<Longrightarrow>
   db_keys d' = db_keys d \<and> db_usage d' = db_usage d \<and> db_uuid d' = db_uuid d \<and> db_faults d' \<in> {db_faults d, tl (db_faults d)}"
  by (auto simp: HandleUsage_def GetApiKeyByID_def Let_def withUUID_def stmt_def
      split: if_splits prod.splits sum.splits option.splits list.splits)

lemma HandleUsage_key:
  "HandleUsage p now rc d = (Some ((i, t), e), d') \<Longrightarrow>
    \<exists>k \<in> set (db_keys d). ak_ID k = i \<and> t = rc_TotalTokens rc \<and> ue_TotalTokens e = t \<and> p i = Some (ue_ApiTokenID e) \<and> ue_ID e = 0"
  by (auto simp: HandleUsage_def GetApiKeyByID_def Let_def withUUID_def stmt_def usageEntryOf_def find_Some_iff
      split: if_splits prod.splits sum.splits option.splits list.splits)

lemma AddApiKeyQuotaUsage_frame:
  "db_usage (snd (AddApiKeyQuotaUsage now i t d)) = db_usage d \<and> db_uuid (snd (AddApiKeyQuotaUsage now i t d)) = db_uuid d \<and>
   map ak_ID (db_keys (snd (AddApiKeyQuotaUsage now i t d))) = map ak_ID (db_keys d) \<and>
   (db_faults d = [] \<longrightarrow> db_faults (snd (AddApiKeyQuotaUsage now i t d)) = [])"
  by (auto simp: AddApiKeyQuotaUsage_def Let_def withUUID_def stmt_def map_updateWhere split: option.splits list.splits)

lemma SaveUsageEntry_frame:
  "db_keys (snd (SaveUsageEntry e d)) = db_keys d \<and> db_uuid (snd (SaveUsageEntry e d)) = db_uuid d \<and>
   (db_faults d = [] \<longrightarrow> db_faults (snd (SaveUsageEntry e d)) = [])"
  by (auto simp: SaveUsageEntry_def Let_def stmt_def split: option.splits list.splits)

section \<open>Conservation\<close>

lemma tokensFor_simps [simp]: "tokensFor i [] = 0" "tokensFor i (u # us) = (if fst u = i then snd u else 0) + tokensFor i us"
  "tokensFor i (us @ vs) = tokensFor i us + tokensFor i vs"
  by (simp_all add: tokensFor_def)

lemma tokensFor_nonneg: "\<forall>u \<in> set us. 0 \<le> snd u \<Longrightarrow> 0 \<le> tokensFor i us"
  by (induction us) auto

definition keyIDs :: "db \<Rightarrow> string set" where
  "keyIDs d = ak_ID ` set (db_keys d)"

definition canonicalKeys :: "db \<Rightarrow> bool" where
  "canonicalKeys d = list_all (\<lambda>k. db_uuid d (ak_ID k) = Some (ak_ID k)) (db_keys d)"

text \<open>The reports in flight are about known keys, and nothing queued is negative.\<close>

definition reportsOK :: "usage_sys \<Rightarrow> bool" where
  "reportsOK s \<longleftrightarrow> db_faults (us_db s) = [] \<and> canonicalKeys (us_db s) \<and>
     (\<forall>u \<in> set (us_quotaQueue s). fst u \<in> keyIDs (us_db s) \<and> 0 \<le> snd u) \<and>
     (\<forall>g \<in> set (us_quota s). fst (fst g) \<in> keyIDs (us_db s)) \<and>
     (\<forall>i. \<forall>q \<in> set (quotaOf i (us_db s)). 0 \<le> q)"

text \<open>What a key will have consumed once everything queued has been worked off.\<close>

definition dueQuota :: "string \<Rightarrow> usage_sys \<Rightarrow> int list" where
  "dueQuota i s = map (\<lambda>q. q + tokensFor i (us_quotaQueue s)) (quotaOf i (us_db s))"

lemma canonicalKeys_frame: "map ak_ID (db_keys d') = map ak_ID (db_keys d) \<Longrightarrow> db_uuid d' = db_uuid d \<Longrightarrow>
    canonicalKeys d' = canonicalKeys d \<and> keyIDs d' = keyIDs d"
proof -
  assume a: "map ak_ID (db_keys d') = map ak_ID (db_keys d)" "db_uuid d' = db_uuid d"
  have "canonicalKeys x = list_all (\<lambda>i. db_uuid x i = Some i) (map ak_ID (db_keys x))" for x
    by (simp add: canonicalKeys_def list.pred_map comp_def)
  moreover have "keyIDs d' = keyIDs d" using arg_cong [OF a(1), of set] by (simp add: keyIDs_def)
  ultimately show ?thesis using a by simp
qed

lemma chanOffer_Some: "chanOffer q x = Some r \<Longrightarrow> r = q @ [x] \<and> length q < queueCap"
  using chan.offer_accepts [of q x] chan.offer_refuses [of q x] by (cases "length q < queueCap") auto

lemma AddQuotaToQueue_Inr: "AddQuotaToQueue c p q u = Some (Inr r) \<Longrightarrow> r = q @ [u]"
  by (auto simp: AddQuotaToQueue_def dest: chanOffer_Some split: option.splits if_splits)

lemma AddEntryToQueue_Inr: "AddEntryToQueue c q u = Inr r \<Longrightarrow> r = q @ [u]"
  by (auto simp: AddEntryToQueue_def dest: chanOffer_Some split: option.splits)

lemma processQuota_step:
  assumes "reportsOK s" "processQuota now (us_quotaQueue s) (us_db s) = Some (q, d)"
    and "\<And>i x. x \<in> set (dueQuota i s) \<Longrightarrow> x < 2 ^ 63"
  shows "reportsOK (s\<lparr>us_quotaQueue := q, us_db := d\<rparr>) \<and> dueQuota i (s\<lparr>us_quotaQueue := q, us_db := d\<rparr>) = dueQuota i s"
proof -
  obtain u t where ut: "us_quotaQueue s = (u, t) # q" "d = snd (AddApiKeyQuotaUsage now u t (us_db s))"
    using assms(2) by (auto simp: processQuota_def chanPoll_Some)
  let ?d = "us_db s"
  have ok: "db_faults ?d = []" "u \<in> keyIDs ?d" "0 \<le> t" "\<forall>v \<in> set q. 0 \<le> snd v" "canonicalKeys ?d"
    "\<forall>i. \<forall>q \<in> set (quotaOf i ?d). 0 \<le> q"
    using assms(1) ut(1) by (auto simp: reportsOK_def)
  then have uuid: "db_uuid ?d u = Some u" by (auto simp: canonicalKeys_def list_all_iff keyIDs_def)
  have "int64 (x + t)" if "x \<in> set (quotaOf u ?d)" for x
  proof -
    have "x + (t + tokensFor u q) \<in> set (dueQuota u s)" using that ut(1) by (simp add: dueQuota_def)
    then have "x + (t + tokensFor u q) < 2 ^ 63" by (rule assms(3))
    then show ?thesis using tokensFor_nonneg [OF ok(4), of u] ok(3,6) that by (fastforce simp: int64_def)
  qed
  then have e: "quotaOf i d = (if i = u then map (\<lambda>q. q + t) (quotaOf i ?d) else quotaOf i ?d)" for i
    using AddApiKeyQuotaUsage_effect [OF ok(1) uuid, of t i now] ut(2) by simp
  note f = AddApiKeyQuotaUsage_frame [of now u t ?d, folded ut(2)]
  have "reportsOK (s\<lparr>us_quotaQueue := q, us_db := d\<rparr>)"
    using assms(1) ut(1) f canonicalKeys_frame [of d ?d] ok(3) e by (auto simp: reportsOK_def split: if_splits)
  moreover have "dueQuota i (s\<lparr>us_quotaQueue := q, us_db := d\<rparr>) = dueQuota i s"
    using e [of i] ut(1) by (simp add: dueQuota_def)
  ultimately show ?thesis by blast
qed

lemma usageStep_due:
  assumes "usageStep s ev s'" "reportsOK s" "\<And>i x. x \<in> set (dueQuota i s) \<Longrightarrow> x < 2 ^ 63"
    and "\<forall>u \<in> set (charged [ev]). 0 \<le> snd u"
  shows "reportsOK s' \<and> dueQuota i s' = map (\<lambda>x. x + tokensFor i (charged [ev])) (dueQuota i s)"
  using assms(1)
proof cases
  case (report p now rc g d)
  obtain j t e where g: "g = ((j, t), e)" by (metis surj_pair)
  note h = HandleUsage_frame [OF report(3)] HandleUsage_key [OF report(3) [unfolded g]]
  have "map ak_ID (db_keys d) = map ak_ID (db_keys (us_db s))" "quotaOf i d = quotaOf i (us_db s)" for i
    using h(1) by (simp_all add: quotaOf_def)
  then show ?thesis
    using report assms(2) h canonicalKeys_frame [of d "us_db s"] g
    by (auto simp: reportsOK_def dueQuota_def keyIDs_def)
next
  case (no_report p now rc d)
  note h = HandleUsage_frame [OF no_report(3)]
  have "map ak_ID (db_keys d) = map ak_ID (db_keys (us_db s))" "quotaOf i d = quotaOf i (us_db s)" for i
    using h by (simp_all add: quotaOf_def)
  then show ?thesis
    using no_report assms(2) h canonicalKeys_frame [of d "us_db s"]
    by (auto simp: reportsOK_def dueQuota_def)
next
  case (charge gs u e hs c p q)
  then have "q = us_quotaQueue s @ [u]" by (auto dest: AddQuotaToQueue_Inr)
  then show ?thesis using charge assms(2,4) by (auto simp: reportsOK_def dueQuota_def)
next
  case (no_charge gs u e hs c p x)
  then show ?thesis using assms(2) by (auto simp: reportsOK_def dueQuota_def)
next
  case (quota now q d)
  then show ?thesis using processQuota_step [OF assms(2) quota(3) assms(3)] by simp
next
  case (entry q d)
  then obtain e where e: "d = snd (SaveUsageEntry e (us_db s))" by (auto simp: processEntry_def)
  note h = SaveUsageEntry_frame [of e "us_db s", folded e]
  have "map ak_ID (db_keys d) = map ak_ID (db_keys (us_db s))" "quotaOf i d = quotaOf i (us_db s)" for i
    using h by (simp_all add: quotaOf_def)
  then show ?thesis
    using entry assms(2) h canonicalKeys_frame [of d "us_db s"] by (auto simp: reportsOK_def dueQuota_def)
qed (use assms(2) in \<open>auto simp: reportsOK_def dueQuota_def\<close>)


lemma usageRun_due:
  assumes "usageRun s evs s'" "reportsOK s" "\<forall>u \<in> set (charged evs). 0 \<le> snd u"
    and "\<And>i x. x \<in> set (dueQuota i s) \<Longrightarrow> x + tokensFor i (charged evs) < 2 ^ 63"
  shows "reportsOK s' \<and> (\<forall>i. dueQuota i s' = map (\<lambda>x. x + tokensFor i (charged evs)) (dueQuota i s))"
  using assms
proof (induction rule: usageRun.induct)
  case (run_step s evs s' ev s'')
  have nonneg: "\<forall>u \<in> set (charged evs). 0 \<le> snd u" "\<forall>u \<in> set (charged [ev]). 0 \<le> snd u"
    using run_step.prems(2) by auto
  have small: "x + tokensFor i (charged evs) < 2 ^ 63" if "x \<in> set (dueQuota i s)" for i x
    using run_step.prems(3) [OF that] tokensFor_nonneg [OF nonneg(2), of i] by simp
  from run_step.IH [OF run_step.prems(1) nonneg(1) small]
  have IH: "reportsOK s'" "\<And>i. dueQuota i s' = map (\<lambda>x. x + tokensFor i (charged evs)) (dueQuota i s)" by blast+
  have "x < 2 ^ 63" if "x \<in> set (dueQuota i s')" for i x
    using that small by (auto simp: IH(2))
  from usageStep_due [OF run_step.hyps(2) IH(1) this nonneg(2)] show ?case by (auto simp: IH(2) add.assoc)
qed auto

lemma usageRun_bounded:
  assumes "usageRun s evs s'" "length (us_quotaQueue s) \<le> queueCap" "length (us_entryQueue s) \<le> queueCap"
  shows "length (us_quotaQueue s') \<le> queueCap \<and> length (us_entryQueue s') \<le> queueCap"
  using assms
proof (induction rule: usageRun.induct)
  case (run_step s evs s' ev s'')
  then have "length (us_quotaQueue s') \<le> queueCap" "length (us_entryQueue s') \<le> queueCap" by auto
  then show ?case using run_step.hyps(2)
    by (auto elim!: usageStepE simp: AddQuotaToQueue_def AddEntryToQueue_def processQuota_def processEntry_def
        chanPoll_Some chanOffer_def split: if_splits option.splits)
qed auto

section \<open>The log of entries\<close>

definition unnumbered :: "UsageEntry \<Rightarrow> UsageEntry" where
  "unnumbered e = e\<lparr>ue_ID := 0\<rparr>"

text \<open>The table of entries followed by what waits for it.\<close>

definition entryLog :: "usage_sys \<Rightarrow> UsageEntry list" where
  "entryLog s = map unnumbered (db_usage (us_db s) @ us_entryQueue s)"

definition entryOK :: "db \<Rightarrow> UsageEntry \<Rightarrow> bool" where
  "entryOK d e \<longleftrightarrow> entryFits e \<and> ue_ApiTokenID e \<in> keyIDs d"

lemma SaveUsageEntry_ok:
  assumes "db_faults d = []" "entryOK d e"
  shows "db_usage (snd (SaveUsageEntry e d)) = db_usage d @ [e\<lparr>ue_ID := db_nextUsage d\<rparr>]"
  using assms by (auto simp: SaveUsageEntry_def Let_def stmt_no_fault entryOK_def keyIDs_def list_ex_iff)

definition logOK :: "usage_sys \<Rightarrow> bool" where
  "logOK s \<longleftrightarrow> db_faults (us_db s) = [] \<and> list_all (entryOK (us_db s)) (us_entryQueue s)"

lemma keyIDs_frame: "map ak_ID (db_keys d') = map ak_ID (db_keys d) \<Longrightarrow> keyIDs d' = keyIDs d"
  by (drule arg_cong [of _ _ set]) (simp add: keyIDs_def)

lemma entryOK_frame: "map ak_ID (db_keys d') = map ak_ID (db_keys d) \<Longrightarrow> entryOK d' = entryOK d"
  using keyIDs_frame [of d' d] by (simp add: entryOK_def fun_eq_iff)

lemma usageStep_log:
  assumes "usageStep s ev s'" "logOK s" "list_all (entryOK (us_db s)) (logged [ev])"
  shows "logOK s' \<and> entryOK (us_db s') = entryOK (us_db s) \<and> entryLog s' = entryLog s @ map unnumbered (logged [ev])"
  using assms(1)
proof cases
  case (report p now rc g d)
  note h = HandleUsage_frame [OF report(3)]
  then show ?thesis using report assms(2) entryOK_frame [of d "us_db s"] by (auto simp: logOK_def entryLog_def)
next
  case (no_report p now rc d)
  note h = HandleUsage_frame [OF no_report(3)]
  then show ?thesis using no_report assms(2) entryOK_frame [of d "us_db s"] by (auto simp: logOK_def entryLog_def)
next
  case (log gs e hs c q)
  then have "q = us_entryQueue s @ [e]" by (auto dest: AddEntryToQueue_Inr)
  then show ?thesis using log assms(2,3) by (auto simp: logOK_def entryLog_def)
next
  case (quota now q d)
  then obtain u where "d = snd (AddApiKeyQuotaUsage now (fst u) (snd u) (us_db s))" by (auto simp: processQuota_def)
  then show ?thesis
    using quota assms(2) AddApiKeyQuotaUsage_frame [of now "fst u" "snd u" "us_db s"] entryOK_frame [of d "us_db s"]
    by (auto simp: logOK_def entryLog_def)
next
  case (entry q d)
  then obtain e where e: "us_entryQueue s = e # q" "d = snd (SaveUsageEntry e (us_db s))"
    by (auto simp: processEntry_def chanPoll_Some)
  then show ?thesis
    using entry assms(2) SaveUsageEntry_frame [of e "us_db s"] SaveUsageEntry_ok [of "us_db s" e] entryOK_frame [of d "us_db s"]
    by (auto simp: logOK_def entryLog_def unnumbered_def)
qed (use assms(2) in \<open>auto simp: logOK_def entryLog_def\<close>)

lemma usageRun_log:
  assumes "usageRun s evs s'" "logOK s" "list_all (entryOK (us_db s)) (logged evs)"
  shows "logOK s' \<and> entryOK (us_db s') = entryOK (us_db s) \<and> entryLog s' = entryLog s @ map unnumbered (logged evs)"
  using assms
proof (induction rule: usageRun.induct)
  case (run_step s evs s' ev s'')
  then have IH: "logOK s'" "entryOK (us_db s') = entryOK (us_db s)" "entryLog s' = entryLog s @ map unnumbered (logged evs)"
    by auto
  have "list_all (entryOK (us_db s')) (logged [ev])" using run_step.prems(2) by (simp add: IH(2))
  from usageStep_log [OF run_step.hyps(2) IH(1) this] IH show ?case by simp
qed simp


section \<open>Reading the log\<close>

lemma clampLimit_bounds: "0 < clampLimit n \<and> clampLimit n \<le> 1000"
  by (auto simp: clampLimit_def defaultUsageLimit_def maxUsageLimit_def)

lemma newestFirst_props: "mset (newestFirst es) = mset es" "set (newestFirst es) = set es" "length (newestFirst es) = length es"
  "sorted_wrt (\<lambda>a b. ue_CreatedAt b \<le> ue_CreatedAt a) (newestFirst es)"
proof -
  have "sorted (map (\<lambda>e. - ue_CreatedAt e) (newestFirst es))" by (simp add: newestFirst_def)
  then show "sorted_wrt (\<lambda>a b. ue_CreatedAt b \<le> ue_CreatedAt a) (newestFirst es)"
    by (simp add: sorted_map)
qed (simp_all add: newestFirst_def)

section \<open>Properties\<close>

text \<open>
  C2: no charge is lost or made twice: however the reports, the two queues and their consumers are
  interleaved, at every moment what a key has consumed plus what the quota queue still holds for
  it is what it had consumed and what was queued at the start, plus everything that has entered
  the queue since.  (The database answers, and no total exceeds 64 bits.)
\<close>

theorem charges_conserved:
  assumes "usageRun s evs s'" "reportsOK s" "\<forall>u \<in> set (charged evs). 0 \<le> snd u"
    and "\<And>i x. x \<in> set (dueQuota i s) \<Longrightarrow> x + tokensFor i (charged evs) < 2 ^ 63"
  shows "map (\<lambda>q. q + tokensFor i (us_quotaQueue s')) (quotaOf i (us_db s')) =
    map (\<lambda>q. q + tokensFor i (us_quotaQueue s) + tokensFor i (charged evs)) (quotaOf i (us_db s))"
  using usageRun_due [OF assms] by (auto simp: dueQuota_def)

text \<open>
  C25: the queue of entries with its consumer implements an append-only log: seen through the
  abstraction that puts the waiting entries behind the rows of the table (and forgets the numbers
  the database gives), accepting an entry appends it, and every other step of the system changes
  nothing; so the table always holds a prefix of the accepted entries, in the order of acceptance.
  Neither queue ever holds more than its 1000 values.
\<close>

theorem entries_logged_in_order:
  assumes "usageRun s evs s'" "logOK s" "list_all (entryOK (us_db s)) (logged evs)"
    and "length (us_quotaQueue s) \<le> queueCap" "length (us_entryQueue s) \<le> queueCap"
  shows "entryLog s' = entryLog s @ map unnumbered (logged evs) \<and>
    length (us_quotaQueue s') \<le> queueCap \<and> length (us_entryQueue s') \<le> queueCap"
  using usageRun_log [OF assms(1-3)] usageRun_bounded [OF assms(1,4,5)] by blast

text \<open>
  C34: a caller without administrator rights is shown usage of its own key only, newest first, and a
  full page of it: the page has as many entries as the limit allows and the key has beyond the
  offset, at least one page entry and at most 1000 being asked of the database whatever the request says.
\<close>

theorem own_usage_page:
  assumes "GetUsageLogs parseUUID (Some (Some k)) limit offset d = (Inr logs, d')" "\<not> ak_IsAdmin k" "db_faults d = []"
  shows "\<exists>owner n. parseUUID (ak_ID k) = Inr owner \<and> 0 < n \<and> n \<le> 1000 \<and> (0 < limit \<and> limit \<le> 1000 \<longrightarrow> n = nat limit) \<and>
    (\<forall>l \<in> set logs. le_ApiKeyId l = owner) \<and>
    sorted_wrt (\<lambda>a b. le_CreatedAt b \<le> le_CreatedAt a) logs \<and>
    length logs = min n (length (filter (\<lambda>e. ue_ApiTokenID e = owner) (db_usage d)) - uint64 offset)"
proof -
  obtain owner where o: "parseUUID (ak_ID k) = Inr owner"
    using assms(1,2) by (cases "parseUUID (ak_ID k)") (simp_all add: GetUsageLogs_def)
  let ?own = "filter (\<lambda>e. ue_ApiTokenID e = owner) (db_usage d)"
  let ?n = "clampLimit (uint64 limit)"
  have "logs = map toLogEntry (take ?n (drop (uint64 offset) (newestFirst ?own)))"
    using assms o
    by (auto simp: GetUsageLogs_def GetUsageEntriesByApiKeyID_def queryUsageEntries_def Let_def stmt_no_fault split: if_splits)
  moreover have "sorted_wrt (\<lambda>a b. ue_CreatedAt b \<le> ue_CreatedAt a) (take ?n (drop (uint64 offset) (newestFirst ?own)))"
    by (intro sorted_wrt_take sorted_wrt_drop newestFirst_props)
  moreover have "0 < limit \<and> limit \<le> 1000 \<longrightarrow> ?n = nat limit"
    by (auto simp: clampLimit_def uint64_def maxUsageLimit_def)
  ultimately show ?thesis
    using o clampLimit_bounds [of "uint64 limit"]
    by (intro exI [of _ owner] exI [of _ ?n]) (auto simp: toLogEntry_def newestFirst_props sorted_wrt_map dest!: in_set_takeD in_set_dropD)
qed


section \<open>Witnesses\<close>

definition sample_record :: usage_record where
  "sample_record = \<lparr>rc_APIKey = ''k1'', rc_Provider = ''claude'', rc_Model = ''m'', rc_ReasoningEffort = [], rc_InputTokens = 2,
     rc_OutputTokens = 1, rc_TotalTokens = 3, rc_CachedTokens = 0, rc_RequestedAt = 0, rc_Latency = 2500000, rc_Failed = False,
     rc_StatusCode = 0, rc_Body = []\<rparr>"

definition sample_entry :: UsageEntry where
  "sample_entry = usageEntryOf 7 ''k1'' sample_record"

definition idle_sys :: usage_sys where
  "idle_sys = \<lparr>us_db = sample_db, us_quotaQueue = [], us_entryQueue = [], us_quota = [], us_entry = []\<rparr>"

definition busy_sys :: usage_sys where
  "busy_sys = idle_sys\<lparr>us_quotaQueue := [(''k1'', 3)], us_entryQueue := [sample_entry]\<rparr>"

lemma sample_run: "usageRun idle_sys [Quiet, Charged (''k1'', 3), Logged sample_entry] busy_sys"
proof -
  have "HandleUsage Some 7 sample_record (us_db idle_sys) = (Some ((''k1'', 3), sample_entry), us_db idle_sys)"
    by (simp add: HandleUsage_def sample_record_def GetApiKeyByID_def Let_def stmt_no_fault withUUID_def idle_sys_def sample_db_def
        sample_key_def sample_entry_def)
  from usageStep.report [OF this]
  have 1: "usageStep idle_sys Quiet (idle_sys\<lparr>us_quota := [((''k1'', 3), sample_entry)]\<rparr>)" by (simp add: idle_sys_def)
  have "AddQuotaToQueue False False [] (''k1'', 3) = Some (Inr [(''k1'', 3)])"
    by (simp add: AddQuotaToQueue_def chanOffer_def queueCap_def)
  from usageStep.charge [of "idle_sys\<lparr>us_quota := [((''k1'', 3), sample_entry)]\<rparr>" "[]" _ _ "[]" False False, simplified] this
  have 2: "usageStep (idle_sys\<lparr>us_quota := [((''k1'', 3), sample_entry)]\<rparr>) (Charged (''k1'', 3))
      (idle_sys\<lparr>us_quotaQueue := [(''k1'', 3)], us_entry := [sample_entry]\<rparr>)" by (simp add: idle_sys_def)
  have "AddEntryToQueue False [] sample_entry = Inr [sample_entry]"
    by (simp add: AddEntryToQueue_def chanOffer_def queueCap_def)
  from usageStep.log [of "idle_sys\<lparr>us_quotaQueue := [(''k1'', 3)], us_entry := [sample_entry]\<rparr>" "[]" sample_entry "[]" False, simplified] this
  have 3: "usageStep (idle_sys\<lparr>us_quotaQueue := [(''k1'', 3)], us_entry := [sample_entry]\<rparr>) (Logged sample_entry) busy_sys"
    by (simp add: idle_sys_def busy_sys_def)
  show ?thesis
    using run_step [OF run_step [OF run_step [OF run_none 1] 2] 3] by simp
qed

lemma idle_due: "dueQuota i idle_sys = (if i = ''k1'' \<or> i = ''k2'' then [5] else [])"
  by (simp add: dueQuota_def quotaOf_def idle_sys_def sample_db_def sample_key_def)

lemma idle_ok: "reportsOK idle_sys"
  by (simp add: reportsOK_def canonicalKeys_def idle_sys_def sample_db_def sample_key_def quotaOf_def)

theorem charges_conserved_witness:
  "map (\<lambda>q. q + tokensFor ''k1'' (us_quotaQueue busy_sys)) (quotaOf ''k1'' (us_db busy_sys)) = [8]"
proof -
  have "map (\<lambda>q. q + tokensFor ''k1'' (us_quotaQueue busy_sys)) (quotaOf ''k1'' (us_db busy_sys)) =
    map (\<lambda>q. q + tokensFor ''k1'' (us_quotaQueue idle_sys) +
      tokensFor ''k1'' (charged [Quiet, Charged (''k1'', 3), Logged sample_entry])) (quotaOf ''k1'' (us_db idle_sys))"
    by (rule charges_conserved [OF sample_run idle_ok]) (auto simp: idle_due split: if_splits)
  then show ?thesis by (simp add: quotaOf_def idle_sys_def sample_db_def sample_key_def)
qed

theorem entries_logged_in_order_witness:
  "entryLog busy_sys = entryLog idle_sys @ [unnumbered sample_entry] \<and> length (us_entryQueue busy_sys) \<le> queueCap"
proof -
  have "logOK idle_sys" by (simp add: logOK_def idle_sys_def sample_db_def)
  moreover have "list_all (entryOK (us_db idle_sys)) (logged [Quiet, Charged (''k1'', 3), Logged sample_entry])"
    by (simp add: entryOK_def entryFits_def sample_entry_def usageEntryOf_def sample_record_def utf8Length_def keyIDs_def
        idle_sys_def sample_db_def sample_key_def)
  ultimately show ?thesis
    using entries_logged_in_order [OF sample_run] by (simp add: idle_sys_def)
qed

theorem own_usage_page_witness:
  "\<exists>logs. GetUsageLogs Inr (Some (Some sample_key)) 0 0 (sample_db\<lparr>db_usage := [sample_entry]\<rparr>) =
     (Inr logs, sample_db\<lparr>db_usage := [sample_entry]\<rparr>) \<and> length logs = 1"
proof -
  have n: "newestFirst [sample_entry] = [sample_entry]" by (simp add: newestFirst_def)
  have "GetUsageLogs Inr (Some (Some sample_key)) 0 0 (sample_db\<lparr>db_usage := [sample_entry]\<rparr>) =
     (Inr [toLogEntry sample_entry], sample_db\<lparr>db_usage := [sample_entry]\<rparr>)"
    using n
    by (simp add: GetUsageLogs_def GetUsageEntriesByApiKeyID_def queryUsageEntries_def stmt_no_fault sample_db_def uint64_def
        sample_key_def sample_entry_def usageEntryOf_def clampLimit_def defaultUsageLimit_def)
  from own_usage_page [OF this] this show ?thesis
    by (auto simp: sample_db_def sample_key_def sample_entry_def usageEntryOf_def uint64_def)
qed

end
