(* ===== verification/Key_Service.thy ===== *)
theory Key_Service
  imports Api_Key Provider_Vendor
begin

text \<open>
  The handlers for API keys (\<open>src/internal/driver/server/apikeys.go\<close>, \<open>SignIn\<close> of \<open>server.go\<close>) and the
  registration of all keys when CLIProxyAPI is built (\<open>registerAllKeysLocked\<close> of
  \<open>src/internal/app/provider/cpapi.go\<close>).

  A handler works on the database and on the configuration of CLIProxyAPI, which it also writes to
  disk.  The requester is what the request context holds: nothing, the master password
  (\<open>Some None\<close>), or a key.  \<open>config.SaveConfigPreserveComments\<close> is not part of the program: its failures
  are scripted like those of the database, a success leaves the configuration on disk.
\<close>

section \<open>State\<close>

record service =
  sv_db :: db
  sv_config :: CPAPIConfig
  sv_disk :: CPAPIConfig
  sv_saves :: "string option list"

type_synonym 'a handler = "service \<Rightarrow> (err + 'a) \<times> service"

definition saveConfig :: "unit handler" where
  "saveConfig s =
     (case sv_saves s of
        Some e # r \<Rightarrow> (Inl (Plain e), s\<lparr>sv_saves := r\<rparr>)
      | None # r \<Rightarrow> (Inr (), s\<lparr>sv_saves := r, sv_disk := sv_config s\<rparr>)
      | [] \<Rightarrow> (Inr (), s\<lparr>sv_disk := sv_config s\<rparr>))"

text \<open>A call of a repository from a handler.\<close>

definition query :: "'a sql \<Rightarrow> 'a handler" where
  "query f s = (case f (sv_db s) of (r, d) \<Rightarrow> (r, s\<lparr>sv_db := d\<rparr>))"

definition setAPIKeys :: "string list \<Rightarrow> service \<Rightarrow> service" where
  "setAPIKeys keys s = s\<lparr>sv_config := (sv_config s)\<lparr>cf_APIKeys := keys\<rparr>\<rparr>"

text \<open>The check at the head of every handler that is for administrators only.\<close>

definition requireAdmin :: "ApiKey option option \<Rightarrow> 'a handler \<Rightarrow> 'a handler" where
  "requireAdmin requester h s =
     (case requester of
        None \<Rightarrow> (Inl (Status Unauthenticated ''unauthenticated''), s)
      | Some (Some k) \<Rightarrow> if \<not> ak_IsAdmin k then (Inl (Status PermissionDenied ''permission denied''), s) else h s
      | Some None \<Rightarrow> h s)"

definition SignIn :: "ApiKey option option \<Rightarrow> string \<Rightarrow> err + string" where
  "SignIn requester password =
     (case requester of None \<Rightarrow> Inl (Status Unauthenticated ''unauthenticated'') | Some _ \<Rightarrow> Inr password)"

section \<open>Handlers\<close>

text \<open>The message \<open>ApiKey\<close> of an edit; \<open>in_QuotaResetAt\<close> is absent when nil or invalid.\<close>

record key_input =
  in_Name :: string
  in_IsActive :: bool
  in_IsAdmin :: bool
  in_QuotaSetted :: bool
  in_ReservedTokens :: int
  in_QuotaResetStrategy :: QuotaResetStrategy
  in_QuotaResetAt :: "go_time option"
  in_RestrictedProviders :: "string list"
  in_RestrictedModels :: "string list"

definition editedKey :: "(string \<Rightarrow> string) \<Rightarrow> go_time \<Rightarrow> key_input \<Rightarrow> string \<Rightarrow> go_duration \<Rightarrow> ApiKey \<Rightarrow> ApiKey" where
  "editedKey ul now input period duration key0 =
     (let key = key0\<lparr>ak_IsAdmin := in_IsAdmin input, ak_Name := trimSpace (in_Name input), ak_IsActive := in_IsActive input,
                ak_QuotaSetted := in_QuotaSetted input, ak_ReservedTokens := in_ReservedTokens input,
                ak_RestrictedProviders := normalizedUniqueStrings ul (in_RestrictedProviders input),
                ak_RestrictedModels := normalizedUniqueStrings ul (in_RestrictedModels input), ak_QuotaPeriod := period\<rparr>
      in
      if \<not> ak_QuotaSetted key
      then key\<lparr>ak_ReservedTokens := 0, ak_QuotaPeriod := ''forever'', ak_QuotaResetAt := now\<rparr>
      else if period = ''forever'' then key\<lparr>ak_QuotaResetAt := now\<rparr>
      else
        case in_QuotaResetAt input of
          Some t \<Rightarrow> if t > now then key\<lparr>ak_QuotaResetAt := t\<rparr> else key\<lparr>ak_QuotaResetAt := now + duration\<rparr>
        | None \<Rightarrow> key\<lparr>ak_QuotaResetAt := now + duration\<rparr>)"

definition EditApiKey :: "(string \<Rightarrow> string) \<Rightarrow> go_time \<Rightarrow> ApiKey option option \<Rightarrow> string \<Rightarrow> key_input option \<Rightarrow> string handler" where
  "EditApiKey ul now requester apiKeyId input0 = requireAdmin requester (\<lambda>s.
     case input0 of
       None \<Rightarrow> (Inl (Status InvalidArgument ''api_key.name is required''), s)
     | Some input \<Rightarrow>
         if trimSpace (in_Name input) = [] then (Inl (Status InvalidArgument ''api_key.name is required''), s)
         else
           case query (GetApiKeyByID apiKeyId) s of
             (Inl e, s) \<Rightarrow> (Inl e, s)
           | (Inr key, s) \<Rightarrow>
              (case quotaPeriod (in_QuotaResetStrategy input) of
                 Inl e \<Rightarrow> (Inl e, s)
               | Inr (period, duration) \<Rightarrow>
                   if in_QuotaSetted input \<and> in_ReservedTokens input \<le> 0
                   then (Inl (Status InvalidArgument ''reserved_tokens must be greater than zero''), s)
                   else if (case requester of Some (Some r) \<Rightarrow> ak_ID r = ak_ID key | _ \<Rightarrow> False) \<and>
                           ak_IsAdmin key \<and> \<not> in_IsAdmin input
                   then (Inl (Status InvalidArgument ''cannot remove the admin flag from your own key''), s)
                   else
                     case query (UpdateApiKey now (editedKey ul now input period duration key)) s of
                       (Inl e, s) \<Rightarrow> (Inl e, s)
                     | (Inr _, s) \<Rightarrow> (Inr ''ok'', s)))"

definition CreateApiKey :: "go_time \<Rightarrow> (string + bytes) \<Rightarrow> (string + string) \<Rightarrow> ApiKey option option \<Rightarrow> string \<Rightarrow> bool \<Rightarrow>
    (string \<times> string) handler" where
  "CreateApiKey now random newUUID requester name isAdmin = requireAdmin requester (\<lambda>s.
     case query (CreateApiKeyRow now random newUUID name isAdmin) s of
       (Inl e, s) \<Rightarrow> (Inl e, s)
     | (Inr key, s) \<Rightarrow>
        (let s = setAPIKeys (cf_APIKeys (sv_config s) @ [ak_Key key]) s in
         case saveConfig s of
           (Inl e, s) \<Rightarrow> (Inl e, s)
         | (Inr _, s) \<Rightarrow> (Inr (ak_Key key, ak_ID key), s)))"

definition DeleteApiKey :: "ApiKey option option \<Rightarrow> string \<Rightarrow> string handler" where
  "DeleteApiKey requester apiKeyId = requireAdmin requester (\<lambda>s.
     case query GetApiKeys s of
       (Inl e, s) \<Rightarrow> (Inl e, s)
     | (Inr keys, s) \<Rightarrow>
        (let deletedKey = (case find (\<lambda>k. ak_ID k = apiKeyId) keys of None \<Rightarrow> [] | Some k \<Rightarrow> ak_Key k) in
         if deletedKey = [] then (Inl (Status NotFound ''api key not found''), s)
         else
           case query (DeleteApiKeyRow apiKeyId) s of
             (Inl e, s) \<Rightarrow> (Inl e, s)
           | (Inr _, s) \<Rightarrow>
              (let s = setAPIKeys (removeString (cf_APIKeys (sv_config s)) deletedKey) s in
               case saveConfig s of
                 (Inl e, s) \<Rightarrow> (Inl e, s)
               | (Inr _, s) \<Rightarrow> (Inr ''ok'', s))))"

record key_view =
  kv_Id :: string
  kv_Name :: string
  kv_IsActive :: bool
  kv_QuotaSetted :: bool
  kv_ReservedTokens :: int
  kv_QuotaUsed :: int
  kv_QuotaResetAt :: go_time
  kv_QuotaResetStrategy :: QuotaResetStrategy
  kv_RestrictedProviders :: "string list"
  kv_RestrictedModels :: "string list"
  kv_IsAdmin :: bool

definition keyView :: "ApiKey \<Rightarrow> key_view" where
  "keyView key = \<lparr>kv_Id = ak_ID key, kv_Name = ak_Name key, kv_IsActive = ak_IsActive key, kv_QuotaSetted = ak_QuotaSetted key,
     kv_ReservedTokens = ak_ReservedTokens key, kv_QuotaUsed = ak_QuotaTokens key, kv_QuotaResetAt = ak_QuotaResetAt key,
     kv_QuotaResetStrategy = quotaResetStrategy (ak_QuotaPeriod key),
     kv_RestrictedProviders = ak_RestrictedProviders key, kv_RestrictedModels = ak_RestrictedModels key,
     kv_IsAdmin = ak_IsAdmin key\<rparr>"

definition GetApiKeyList :: "ApiKey option option \<Rightarrow> key_view list handler" where
  "GetApiKeyList requester s =
     (case requester of
        None \<Rightarrow> (Inl (Status Unauthenticated ''unauthenticated''), s)
      | Some r \<Rightarrow>
         (case query GetApiKeys s of
            (Inl e, s) \<Rightarrow> (Inl e, s)
          | (Inr keys, s) \<Rightarrow>
              (Inr (map keyView (filter (\<lambda>key. case r of None \<Rightarrow> True | Some k \<Rightarrow> ak_IsAdmin k \<or> ak_ID key = ak_ID k) keys)), s)))"

definition RecreateApiKey :: "go_time \<Rightarrow> (string + bytes) \<Rightarrow> ApiKey option option \<Rightarrow> string \<Rightarrow> (string \<times> string) handler" where
  "RecreateApiKey now random requester apiKeyId s =
     (if apiKeyId = [] then (Inl (Status InvalidArgument ''key id should to be provided''), s)
      else
        case requester of
          None \<Rightarrow> (Inl (Status Unauthenticated ''unauthenticated''), s)
        | Some r \<Rightarrow>
            if (case r of None \<Rightarrow> False | Some k \<Rightarrow> \<not> ak_IsAdmin k \<and> apiKeyId \<noteq> ak_ID k)
            then (Inl (Status PermissionDenied ''permission denied''), s)
            else
              case query (GetApiKeyByID apiKeyId) s of
                (Inl e, s) \<Rightarrow> (Inl e, s)
              | (Inr oldKey, s) \<Rightarrow>
                 (case query (RecreateApiKeyRow now random apiKeyId) s of
                    (Inl e, s) \<Rightarrow> (Inl e, s)
                  | (Inr apiKey, s) \<Rightarrow>
                     (let s = setAPIKeys (removeString (cf_APIKeys (sv_config s)) (ak_Key oldKey) @ [apiKey]) s in
                      case saveConfig s of
                        (Inl e, s) \<Rightarrow> (Inl e, s)
                      | (Inr _, s) \<Rightarrow> (Inr (apiKey, apiKeyId), s))))"

text \<open>At start; a failing save is only logged.\<close>

definition registerAllKeysLocked :: "unit handler" where
  "registerAllKeysLocked s0 =
     (let s = setAPIKeys [] s0 in
      case query GetApiKeys s of
        (Inl e, s) \<Rightarrow> (Inl e, s)
      | (Inr keys, s) \<Rightarrow> (Inr (), snd (saveConfig (setAPIKeys (map ak_Key keys) s))))"

section \<open>The configured keys\<close>

text \<open>What the configuration depends on of a row: its identifier, its secret, and whether it is deleted.\<close>

definition keySig :: "db \<Rightarrow> (string \<times> string \<times> bool) list" where
  "keySig d = map (\<lambda>k. (ak_ID k, ak_Key k, ak_IsDeleted k)) (db_keys d)"

definition liveSecrets :: "db \<Rightarrow> string set" where
  "liveSecrets d = {key. \<exists>i. (i, key, False) \<in> set (keySig d)}"

definition sigOK :: "db \<Rightarrow> bool" where
  "sigOK d \<longleftrightarrow> distinct (map fst (keySig d)) \<and> distinct (map (fst \<circ> snd) (keySig d)) \<and>
     list_all (\<lambda>i. db_uuid d i = Some i) (map fst (keySig d))"

definition configOK :: "service \<Rightarrow> bool" where
  "configOK s \<longleftrightarrow> sigOK (sv_db s) \<and> set (cf_APIKeys (sv_config s)) = liveSecrets (sv_db s)"

lemma liveSecrets_eq: "liveSecrets d = ak_Key ` {k \<in> set (db_keys d). \<not> ak_IsDeleted k}"
  by (auto simp: liveSecrets_def keySig_def)

lemma sig_frame:
  assumes "keySig d' = keySig d" "db_uuid d' = db_uuid d"
  shows "sigOK d' = sigOK d" "liveSecrets d' = liveSecrets d"
  using assms by (simp_all add: sigOK_def liveSecrets_def)

lemma keySig_updateWhere:
  "(\<And>k. ak_ID (f k) = ak_ID k \<and> ak_Key (f k) = ak_Key k \<and> ak_IsDeleted (f k) = ak_IsDeleted k) \<Longrightarrow>
   keySig (d\<lparr>db_keys := updateWhere P f (db_keys d)\<rparr>) = keySig d"
  by (simp add: keySig_def map_updateWhere)

lemma GetApiKeyByID_effect:
  assumes "GetApiKeyByID i d = (r, d')"
  shows "keySig d' = keySig d \<and> db_uuid d' = db_uuid d \<and>
    (\<forall>k. r = Inr k \<longrightarrow> db_uuid d i = Some (ak_ID k) \<and> (ak_ID k, ak_Key k, ak_IsDeleted k) \<in> set (keySig d))"
  using assms
  by (auto simp: GetApiKeyByID_def Let_def stmt_def withUUID_def keySig_def find_Some_iff
      split: list.splits option.splits)

lemma GetApiKeys_effect:
  assumes "GetApiKeys d = (r, d')"
  shows "keySig d' = keySig d \<and> db_uuid d' = db_uuid d \<and> (\<forall>ks. r = Inr ks \<longrightarrow> ks = filter (\<lambda>k. \<not> ak_IsDeleted k) (db_keys d))"
  using assms by (auto simp: GetApiKeys_def stmt_def keySig_def split: list.splits option.splits)

lemma UpdateApiKey_effect:
  assumes "UpdateApiKey now k d = (r, d')"
  shows "keySig d' = keySig d \<and> db_uuid d' = db_uuid d"
  using assms
  by (auto simp: UpdateApiKey_def Let_def stmt_def withUUID_def keySig_def map_updateWhere
      split: list.splits option.splits if_splits)

lemma CreateApiKeyRow_effect:
  assumes "CreateApiKeyRow now random newUUID name adm d = (r, d')"
  shows "db_uuid d' = db_uuid d \<and>
    (case r of Inl _ \<Rightarrow> keySig d' = keySig d
     | Inr k \<Rightarrow> newUUID = Inr (ak_ID k) \<and> keySig d' = keySig d @ [(ak_ID k, ak_Key k, False)] \<and>
         ak_ID k \<notin> fst ` set (keySig d) \<and> ak_Key k \<notin> (fst \<circ> snd) ` set (keySig d))"
  using assms
  by (auto simp: CreateApiKeyRow_def Let_def stmt_def keySig_def list_ex_iff
      split: list.splits option.splits if_splits sum.splits)

lemma DeleteApiKeyRow_effect:
  assumes "DeleteApiKeyRow i d = (r, d')"
  shows "db_uuid d' = db_uuid d \<and>
    (case r of Inl _ \<Rightarrow> keySig d' = keySig d
     | Inr _ \<Rightarrow> \<exists>u. db_uuid d i = Some u \<and> keySig d' = map (\<lambda>(j, k, b). (j, k, b \<or> j = u)) (keySig d))"
  using assms
  by (auto simp: DeleteApiKeyRow_def Let_def stmt_def withUUID_def keySig_def updateWhere_def
      split: list.splits option.splits if_splits sum.splits)

lemma RecreateApiKeyRow_effect:
  assumes "RecreateApiKeyRow now random i d = (r, d')"
  shows "db_uuid d' = db_uuid d \<and>
    (case r of Inl _ \<Rightarrow> keySig d' = keySig d
     | Inr key \<Rightarrow> \<exists>u. db_uuid d i = Some u \<and> keySig d' = map (\<lambda>(j, k, b). (j, if j = u then key else k, b)) (keySig d) \<and>
         (u \<in> fst ` set (keySig d) \<longrightarrow> (\<forall>(j, k, b) \<in> set (keySig d). k = key \<longrightarrow> j = u)))"
  using assms
  by (auto simp: RecreateApiKeyRow_def Let_def stmt_def withUUID_def keySig_def updateWhere_def list_ex_iff
      split: list.splits option.splits if_splits sum.splits)

lemma sig_same_id: "sigOK d \<Longrightarrow> (i, a, b) \<in> set (keySig d) \<Longrightarrow> (i, a', b') \<in> set (keySig d) \<Longrightarrow> a' = a \<and> b' = b"
  unfolding sigOK_def by (metis (no_types, lifting) distinct_map fst_conv inj_onD prod.inject)

lemma sig_same_secret: "sigOK d \<Longrightarrow> (i, a, b) \<in> set (keySig d) \<Longrightarrow> (j, a, b') \<in> set (keySig d) \<Longrightarrow> j = i \<and> b' = b"
  unfolding sigOK_def by (metis (no_types, lifting) comp_apply distinct_map fst_conv snd_conv inj_onD prod.inject)

lemma sig_create:
  assumes "sigOK d" "keySig d' = keySig d @ [(i, key, False)]" "db_uuid d' = db_uuid d" "db_uuid d i = Some i"
    and "i \<notin> fst ` set (keySig d)" "key \<notin> (fst \<circ> snd) ` set (keySig d)"
  shows "sigOK d' \<and> liveSecrets d' = insert key (liveSecrets d)"
  using assms by (auto simp: sigOK_def liveSecrets_def)

lemma sig_delete:
  assumes "sigOK d" "keySig d' = map (\<lambda>(j, k, b). (j, k, b \<or> j = u)) (keySig d)" "db_uuid d' = db_uuid d"
    and "(u, key, False) \<in> set (keySig d)"
  shows "sigOK d' \<and> liveSecrets d' = liveSecrets d - {key}"
proof
  have "map fst (keySig d') = map fst (keySig d)" "map (fst \<circ> snd) (keySig d') = map (fst \<circ> snd) (keySig d)"
    by (simp_all add: assms(2) case_prod_unfold)
  then show "sigOK d'" using assms(1,3) by (simp add: sigOK_def)
  show "liveSecrets d' = liveSecrets d - {key}"
  proof (rule set_eqI)
    fix k
    have m: "(j, k, False) \<in> set (keySig d') \<longleftrightarrow> j \<noteq> u \<and> (j, k, False) \<in> set (keySig d)" for j
      unfolding assms(2) by (auto simp: image_iff intro!: bexI [of _ "(j, k, False)"])
    have "k \<noteq> key" if "j \<noteq> u" "(j, k, False) \<in> set (keySig d)" for j
      using that sig_same_secret [OF assms(1,4), of j False] by auto
    moreover have "j \<noteq> u" if "k \<noteq> key" "(j, k, False) \<in> set (keySig d)" for j
      using that sig_same_id [OF assms(1,4), of k False] by auto
    ultimately show "k \<in> liveSecrets d' \<longleftrightarrow> k \<in> liveSecrets d - {key}"
      unfolding liveSecrets_def by (simp add: m) blast
  qed
qed

lemma distinct_map_swap:
  assumes "distinct (map g xs)" "\<And>x. x \<in> set xs \<Longrightarrow> g x \<noteq> g' x \<Longrightarrow> x = y" "y \<in> set xs"
    and "\<And>x. x \<in> set xs \<Longrightarrow> g x = g' y \<Longrightarrow> x = y"
  shows "distinct (map g' xs)"
proof -
  have "inj_on g (set xs)" "distinct xs" using assms(1) by (simp_all add: distinct_map)
  moreover have "inj_on g' (set xs)"
    using assms(2-4) \<open>inj_on g (set xs)\<close> unfolding inj_on_def by metis
  ultimately show ?thesis by (simp add: distinct_map)
qed

lemma sig_recreate:
  assumes "sigOK d" "keySig d' = map (\<lambda>(j, k, b). (j, if j = u then key else k, b)) (keySig d)" "db_uuid d' = db_uuid d"
    and "(u, old, False) \<in> set (keySig d)" "\<forall>(j, k, b) \<in> set (keySig d). k = key \<longrightarrow> j = u"
  shows "sigOK d' \<and> liveSecrets d' = insert key (liveSecrets d - {old})"
proof
  have ids: "map fst (keySig d') = map fst (keySig d)" by (simp add: assms(2) case_prod_unfold)
  have "distinct (map (\<lambda>x. if fst x = u then key else fst (snd x)) (keySig d))"
  proof (rule distinct_map_swap [where y = "(u, old, False)"])
    show "distinct (map (fst \<circ> snd) (keySig d))" using assms(1) by (simp add: sigOK_def)
    show "x = (u, old, False)" if "x \<in> set (keySig d)" "(fst \<circ> snd) x \<noteq> (if fst x = u then key else fst (snd x))" for x
    proof -
      obtain j k b where "x = (j, k, b)" by (rule prod_cases3)
      then show ?thesis using that sig_same_id [OF assms(1,4)] by (auto split: if_splits)
    qed
    show "x = (u, old, False)" if "x \<in> set (keySig d)"
        "(fst \<circ> snd) x = (if fst (u, old, False) = u then key else fst (snd (u, old, False)))" for x
    proof -
      obtain j k b where "x = (j, k, b)" by (rule prod_cases3)
      then show ?thesis using that bspec [OF assms(5) that(1)] sig_same_id [OF assms(1,4), of k b] by auto
    qed
  qed (use assms(4) in simp)
  moreover have "map (fst \<circ> snd) (keySig d') = map (\<lambda>x. if fst x = u then key else fst (snd x)) (keySig d)"
    by (simp add: assms(2) case_prod_unfold)
  ultimately show "sigOK d'" using assms(1,3) ids by (simp add: sigOK_def)
  show "liveSecrets d' = insert key (liveSecrets d - {old})"
  proof (rule set_eqI)
    fix k
    have m: "(j, k, False) \<in> set (keySig d') \<longleftrightarrow> j = u \<and> k = key \<or> j \<noteq> u \<and> (j, k, False) \<in> set (keySig d)" for j
    proof (cases "j = u")
      case True
      have "(u, k, False) \<in> set (keySig d') \<longleftrightarrow> k = key"
        unfolding assms(2) using assms(4) by (auto simp: image_iff split: if_splits intro!: bexI [of _ "(u, old, False)"])
      then show ?thesis using True by simp
    next
      case False
      then show ?thesis unfolding assms(2) by (auto simp: image_iff split: if_splits intro!: bexI [of _ "(j, k, False)"])
    qed
    have "k \<noteq> old" if "j \<noteq> u" "(j, k, False) \<in> set (keySig d)" for j
      using that sig_same_secret [OF assms(1,4), of j False] by auto
    moreover have "j \<noteq> u" if "k \<noteq> old" "(j, k, False) \<in> set (keySig d)" for j
      using that sig_same_id [OF assms(1,4), of k False] by auto
    ultimately show "k \<in> liveSecrets d' \<longleftrightarrow> k \<in> insert key (liveSecrets d - {old})"
      unfolding liveSecrets_def by (simp add: m) blast
  qed
qed

section \<open>Handlers\<close>

lemma saveConfig_effect: "saveConfig s = (r, s') \<Longrightarrow> sv_db s' = sv_db s \<and> sv_config s' = sv_config s"
  by (auto simp: saveConfig_def split: list.splits option.splits)

lemma query_Pair: "query f s = (r, s') \<longleftrightarrow> (\<exists>d. f (sv_db s) = (r, d) \<and> s' = s\<lparr>sv_db := d\<rparr>)"
  by (auto simp: query_def split: prod.splits)

lemma setAPIKeys_simps [simp]: "sv_db (setAPIKeys ks s) = sv_db s" "cf_APIKeys (sv_config (setAPIKeys ks s)) = ks"
  "sv_saves (setAPIKeys ks s) = sv_saves s"
  by (simp_all add: setAPIKeys_def)

lemma configOK_same:
  assumes "configOK s" "keySig (sv_db s') = keySig (sv_db s)" "db_uuid (sv_db s') = db_uuid (sv_db s)"
    "cf_APIKeys (sv_config s') = cf_APIKeys (sv_config s)"
  shows "configOK s'"
  using assms sig_frame [OF assms(2,3)] by (simp add: configOK_def)

lemma requireAdmin_elim:
  assumes "requireAdmin requester h s = (r, s')"
  obtains (refused) "s' = s" "\<exists>e. r = Inl e" | (run) "h s = (r, s')" "\<And>k. requester = Some (Some k) \<Longrightarrow> ak_IsAdmin k"
  using assms by (auto simp: requireAdmin_def split: option.splits if_splits)

lemma EditApiKey_configOK:
  assumes "configOK s" "EditApiKey ul now requester i input s = (r, s')"
  shows "configOK s'"
proof -
  have "keySig (sv_db s') = keySig (sv_db s) \<and> db_uuid (sv_db s') = db_uuid (sv_db s) \<and> sv_config s' = sv_config s"
    by (rule requireAdmin_elim [OF assms(2) [unfolded EditApiKey_def]])
      (auto simp: query_Pair split: option.splits if_splits prod.splits sum.splits dest!: GetApiKeyByID_effect UpdateApiKey_effect)
  then show ?thesis using assms(1) configOK_same by simp
qed

lemma CreateApiKey_configOK:
  assumes "configOK s" "CreateApiKey now random newUUID requester name adm s = (r, s')"
    and "\<And>u. newUUID = Inr u \<Longrightarrow> db_uuid (sv_db s) u = Some u"
  shows "configOK s'"
  using assms(2) unfolding CreateApiKey_def
proof (cases rule: requireAdmin_elim)
  case run
  obtain r1 d1 where c: "CreateApiKeyRow now random newUUID name adm (sv_db s) = (r1, d1)" by fastforce
  note e = CreateApiKeyRow_effect [OF c]
  note h = run(1)
  show ?thesis
  proof (cases r1)
    case (Inl x)
    then have "s' = s\<lparr>sv_db := d1\<rparr>" using h c by (simp add: query_def)
    then show ?thesis using assms(1) e Inl configOK_same [of s s'] by simp
  next
    case (Inr k)
    have "sv_db s' = d1 \<and> cf_APIKeys (sv_config s') = cf_APIKeys (sv_config s) @ [ak_Key k]"
      using h c Inr by (auto simp: query_def Let_def split: prod.splits sum.splits dest!: saveConfig_effect)
    moreover have "sigOK d1 \<and> liveSecrets d1 = insert (ak_Key k) (liveSecrets (sv_db s))"
      using e Inr assms(1,3) by (intro sig_create) (auto simp: configOK_def)
    ultimately show ?thesis using assms(1) by (simp add: configOK_def)
  qed
qed (use assms(1) in auto)

lemma DeleteApiKey_configOK:
  assumes "configOK s" "DeleteApiKey requester i s = (r, s')"
  shows "configOK s'"
  using assms(2) unfolding DeleteApiKey_def
proof (cases rule: requireAdmin_elim)
  case run
  obtain r1 d1 where c: "GetApiKeys (sv_db s) = (r1, d1)" by fastforce
  note e = GetApiKeys_effect [OF c]
  obtain r2 d2 where c2: "DeleteApiKeyRow i d1 = (r2, d2)" by fastforce
  note e2 = DeleteApiKeyRow_effect [OF c2]
  note h = run(1)
  consider (unchanged) "sv_db s' \<in> {d1, d2}" "keySig (sv_db s') = keySig d1" "sv_config s' = sv_config s"
    | (deleted) keys k where "r1 = Inr keys" "find (\<lambda>k. ak_ID k = i) keys = Some k" "r2 = Inr ()" "sv_db s' = d2"
      "cf_APIKeys (sv_config s') = removeString (cf_APIKeys (sv_config s)) (ak_Key k)"
    using h c c2 e2
    by (auto simp: query_def Let_def split: prod.splits sum.splits option.splits if_splits dest!: saveConfig_effect)
  then show ?thesis
  proof cases
    case unchanged
    then show ?thesis using assms(1) e e2 configOK_same [of s s'] by auto
  next
    case deleted
    then have k: "k \<in> set (db_keys (sv_db s))" "\<not> ak_IsDeleted k" "ak_ID k = i"
      using e by (auto simp: find_Some_iff) (metis nth_mem set_filter mem_Collect_eq)+
    then have sig: "(i, ak_Key k, False) \<in> set (keySig d1)" using e by (force simp: keySig_def)
    have ok: "sigOK d1" "liveSecrets d1 = liveSecrets (sv_db s)"
      using assms(1) e sig_frame [of d1 "sv_db s"] by (simp_all add: configOK_def)
    have "db_uuid d1 i = Some i" using ok(1) sig by (force simp: sigOK_def list_all_iff)
    then have "sigOK d2 \<and> liveSecrets d2 = liveSecrets d1 - {ak_Key k}"
      using e2 deleted(3) by (intro sig_delete [OF ok(1) _ _ sig]) auto
    then show ?thesis using assms(1) ok(2) deleted by (auto simp: configOK_def removeString_def)
  qed
qed (use assms(1) in auto)

lemma RecreateApiKey_configOK:
  assumes "configOK s" "RecreateApiKey now random requester i s = (r, s')"
    and live: "\<And>k. k \<in> set (db_keys (sv_db s)) \<Longrightarrow> db_uuid (sv_db s) i = Some (ak_ID k) \<Longrightarrow> \<not> ak_IsDeleted k"
  shows "configOK s'"
proof -
  obtain r1 d1 where c: "GetApiKeyByID i (sv_db s) = (r1, d1)" by fastforce
  note e = GetApiKeyByID_effect [OF c]
  obtain r2 d2 where c2: "RecreateApiKeyRow now random i d1 = (r2, d2)" by fastforce
  note e2 = RecreateApiKeyRow_effect [OF c2]
  consider (unchanged) "sv_db s' \<in> {sv_db s, d1, d2}" "keySig (sv_db s') = keySig (sv_db s)" "sv_config s' = sv_config s"
    | (rotated) old key where "r1 = Inr old" "r2 = Inr key" "sv_db s' = d2"
      "cf_APIKeys (sv_config s') = removeString (cf_APIKeys (sv_config s)) (ak_Key old) @ [key]"
    using assms(2) c c2 e e2
    by (auto simp: RecreateApiKey_def query_def Let_def split: prod.splits sum.splits option.splits if_splits
        dest!: saveConfig_effect)
  then show ?thesis
  proof cases
    case unchanged
    then show ?thesis using assms(1) e e2 configOK_same [of s s'] by auto
  next
    case rotated
    then have u: "db_uuid (sv_db s) i = Some (ak_ID old)" and mem: "(ak_ID old, ak_Key old, ak_IsDeleted old) \<in> set (keySig (sv_db s))"
      using e by auto
    have "\<not> ak_IsDeleted old" using mem live u by (force simp: keySig_def)
    then have sig: "(ak_ID old, ak_Key old, False) \<in> set (keySig d1)" using mem e by simp
    have ok: "sigOK d1" "liveSecrets d1 = liveSecrets (sv_db s)"
      using assms(1) e sig_frame [of d1 "sv_db s"] by (simp_all add: configOK_def)
    have "sigOK d2 \<and> liveSecrets d2 = insert key (liveSecrets d1 - {ak_Key old})"
      using e e2 rotated(2) u sig by (intro sig_recreate [OF ok(1) _ _ sig]) force+
    then show ?thesis using assms(1) ok(2) rotated by (auto simp: configOK_def removeString_def)
  qed
qed

section \<open>Sequences of requests\<close>

text \<open>
  One request to the key handlers, successful or not.  A generated identifier is canonical, and the
  key whose secret is replaced has not been deleted.
\<close>

inductive svcStep :: "service \<Rightarrow> service \<Rightarrow> bool" where
  edit: "svcStep s (snd (EditApiKey ul now requester i input s))"
| create: "(\<And>u. newUUID = Inr u \<Longrightarrow> db_uuid (sv_db s) u = Some u) \<Longrightarrow>
    svcStep s (snd (CreateApiKey now random newUUID requester name adm s))"
| delete: "svcStep s (snd (DeleteApiKey requester i s))"
| list: "svcStep s (snd (GetApiKeyList requester s))"
| recreate: "(\<And>k. k \<in> set (db_keys (sv_db s)) \<Longrightarrow> db_uuid (sv_db s) i = Some (ak_ID k) \<Longrightarrow> \<not> ak_IsDeleted k) \<Longrightarrow>
    svcStep s (snd (RecreateApiKey now random requester i s))"

lemma GetApiKeyList_configOK:
  assumes "configOK s" "GetApiKeyList requester s = (r, s')"
  shows "configOK s'"
proof -
  obtain r1 d1 where c: "GetApiKeys (sv_db s) = (r1, d1)" by fastforce
  have "keySig (sv_db s') = keySig (sv_db s) \<and> db_uuid (sv_db s') = db_uuid (sv_db s) \<and> sv_config s' = sv_config s"
    using assms(2) c GetApiKeys_effect [OF c] by (cases r1) (auto simp: GetApiKeyList_def query_def split: option.splits)
  then show ?thesis using assms(1) configOK_same by simp
qed

lemmas handlers_configOK = EditApiKey_configOK CreateApiKey_configOK DeleteApiKey_configOK GetApiKeyList_configOK
  RecreateApiKey_configOK

lemma svcStep_configOK: "svcStep s s' \<Longrightarrow> configOK s \<Longrightarrow> configOK s'"
  by (erule svcStep.cases) (metis handlers_configOK prod.collapse)+

interpretation configuration: invariant_system svcStep configOK
  by standard (rule svcStep_configOK)

lemmas svcSteps_configOK = configuration.reachable

lemma registerAllKeys_configOK:
  assumes "registerAllKeysLocked s = (Inr (), s')" "sigOK (sv_db s)"
  shows "configOK s'"
proof -
  obtain r d where c: "GetApiKeys (sv_db s) = (r, d)" by fastforce
  note e = GetApiKeys_effect [OF c]
  then obtain r' where r: "r = Inr (filter (\<lambda>k. \<not> ak_IsDeleted k) (db_keys (sv_db s)))"
    "saveConfig (setAPIKeys (map ak_Key (filter (\<lambda>k. \<not> ak_IsDeleted k) (db_keys (sv_db s)))) (setAPIKeys [] s\<lparr>sv_db := d\<rparr>)) = (r', s')"
    using assms(1) c by (cases r; cases "saveConfig (setAPIKeys (map ak_Key (filter (\<lambda>k. \<not> ak_IsDeleted k) (db_keys (sv_db s)))) (setAPIKeys [] s\<lparr>sv_db := d\<rparr>))")
      (auto simp: registerAllKeysLocked_def query_def Let_def)
  have "sv_db s' = d" "set (cf_APIKeys (sv_config s')) = liveSecrets (sv_db s)"
    using saveConfig_effect [OF r(2)] by (auto simp: liveSecrets_eq)
  then show ?thesis using assms(2) e sig_frame [of d "sv_db s"] by (simp add: configOK_def)
qed

section \<open>Properties\<close>


text \<open>
  Renewing the secret of a key that has been deleted puts the new secret into the configuration
  of CLIProxyAPI, although no key that is in use has it.
\<close>

lemma renewed_deleted_key_configured:
  assumes "db_faults (sv_db s) = []" "sv_saves s = []" "requester = Some None" "i \<noteq> []"
    and "db_uuid (sv_db s) i = Some i" "db_keys (sv_db s) = [k]" "ak_ID k = i" "ak_IsDeleted k" "length bs = 15"
  shows "\<exists>key s'. RecreateApiKey now (Inr bs) requester i s = (Inr (key, i), s') \<and>
    key \<in> set (cf_APIKeys (sv_config s')) \<and> (\<forall>k' \<in> set (db_keys (sv_db s')). ak_IsDeleted k')"
proof -
  obtain key where "generateToken (Inr bs) = Inr key" using generateToken_parts [OF assms(9)] by blast
  then show ?thesis
    using assms
    by (simp add: RecreateApiKey_def query_def GetApiKeyByID_def RecreateApiKeyRow_def Let_def stmt_no_fault withUUID_def
        saveConfig_def setAPIKeys_def)
qed

text \<open>
  C28: a key without administrator rights is confined to itself: it cannot create, edit or delete
  keys, cannot renew another key's secret, and sees only itself in the list; the refused requests
  change nothing.
\<close>

theorem plain_key_confined:
  assumes "\<not> ak_IsAdmin k"
  shows "EditApiKey ul now (Some (Some k)) i input s = (Inl (Status PermissionDenied ''permission denied''), s) \<and>
    CreateApiKey now random newUUID (Some (Some k)) name adm s = (Inl (Status PermissionDenied ''permission denied''), s) \<and>
    DeleteApiKey (Some (Some k)) i s = (Inl (Status PermissionDenied ''permission denied''), s) \<and>
    (i \<noteq> [] \<and> i \<noteq> ak_ID k \<longrightarrow>
      RecreateApiKey now random (Some (Some k)) i s = (Inl (Status PermissionDenied ''permission denied''), s)) \<and>
    (\<forall>vs s'. GetApiKeyList (Some (Some k)) s = (Inr vs, s') \<longrightarrow> (\<forall>v \<in> set vs. kv_Id v = ak_ID k))"
  using assms
  by (auto simp: EditApiKey_def CreateApiKey_def DeleteApiKey_def RecreateApiKey_def requireAdmin_def GetApiKeyList_def
      keyView_def split: prod.splits sum.splits)

text \<open>
  Saving a key with a quota that has no period gives it its whole allowance back: the edit sets
  the reset time to the present, so the next run of the reset job clears what the key has consumed.
\<close>

lemma edit_clears_forever_quota:
  assumes "db_faults (sv_db s) = []" "db_keys (sv_db s) = [k]" "db_uuid (sv_db s) (ak_ID k) = Some (ak_ID k)" "\<not> ak_IsDeleted k"
    and "in_QuotaSetted input" "0 < in_ReservedTokens input" "in_QuotaResetStrategy input = FOREVER"
    and "trimSpace (in_Name input) \<noteq> []" "now < later"
  shows "\<exists>s'. EditApiKey ul now (Some None) (ak_ID k) (Some input) s = (Inr ''ok'', s') \<and>
    quotaOf (ak_ID k) (sv_db s') = [ak_QuotaTokens k] \<and>
    quotaOf (ak_ID k) (snd (quota_resetter later (sv_db s'))) = [0]"
  using assms
  by (simp add: EditApiKey_def requireAdmin_def query_def GetApiKeyByID_def UpdateApiKey_def Let_def stmt_no_fault withUUID_def
      editedKey_def quota_resetter_def GetApiKeys_def UpdateApiKeyQuota_def rolledOver_def quotaOf_def)

section \<open>Witnesses\<close>

definition key_service :: service where
  "key_service = \<lparr>sv_db = sample_db, sv_config = empty_config, sv_disk = empty_config, sv_saves = []\<rparr>"

lemma key_service_sig: "sigOK (sv_db key_service)"
  by (simp add: sigOK_def keySig_def key_service_def sample_db_def sample_key_def)

lemma key_service_registered: "\<exists>s1. registerAllKeysLocked key_service = (Inr (), s1)"
  by (simp add: registerAllKeysLocked_def key_service_def query_def GetApiKeys_def stmt_no_fault sample_db_def setAPIKeys_def Let_def)


definition deleted_key :: ApiKey where
  "deleted_key = sample_key\<lparr>ak_IsDeleted := True\<rparr>"

theorem plain_key_confined_witness:
  "DeleteApiKey (Some (Some sample_key)) ''k2'' key_service = (Inl (Status PermissionDenied ''permission denied''), key_service) \<and>
   RecreateApiKey 1 (Inl []) (Some (Some sample_key)) ''k2'' key_service = (Inl (Status PermissionDenied ''permission denied''), key_service)"
proof -
  have "\<not> ak_IsAdmin sample_key" by (simp add: sample_key_def)
  from plain_key_confined [OF this, of "\<lambda>s. s" 1 "''k2''" None key_service "Inl []"] show ?thesis
    by (simp add: sample_key_def)
qed

definition forever_input :: key_input where
  "forever_input = \<lparr>in_Name = ''one'', in_IsActive = True, in_IsAdmin = False, in_QuotaSetted = True, in_ReservedTokens = 100,
     in_QuotaResetStrategy = FOREVER, in_QuotaResetAt = None, in_RestrictedProviders = [], in_RestrictedModels = []\<rparr>"

end
