(* ===== verification/Push_Repo.thy ===== *)
theory Push_Repo
  imports Store
begin

text \<open>
  Push subscriptions and notification events (\<open>src/internal/models/push.go\<close> and
  \<open>src/internal/adapter/postgres/push_repo\<close>): subscriptions are unique by endpoint, topics refer
  to a subscription and disappear with it, events are numbered by a sequence, and there is at most
  one pair of VAPID keys.  \<open>uuid.NewString\<close> and the clock are arguments, as is the order in which the
  collation of the database lists subjects.

  The tables implement a relation between endpoints and subjects (\<open>subscribed\<close>): the operations
  are shown to be insertion, deletion and lookup in it.
\<close>

section \<open>Subscriptions and topics\<close>

definition InAppEndpointPrefix :: string where
  "InAppEndpointPrefix = ''inapp:''"

definition IsInAppEndpoint :: "string \<Rightarrow> bool" where
  "IsInAppEndpoint endpoint = hasPrefix (trimSpace endpoint) InAppEndpointPrefix"

definition Validate :: "PushSubscription \<Rightarrow> err + unit" where
  "Validate s =
     (if trimSpace (ps_Endpoint s) = [] then Inl (Plain ''push subscription endpoint is required'')
      else if IsInAppEndpoint (ps_Endpoint s) then Inr ()
      else if trimSpace (ps_P256dh s) = [] \<or> trimSpace (ps_Auth s) = []
      then Inl (Plain ''push subscription keys are required'')
      else Inr ())"

definition quotaTopicPrefix :: string where
  "quotaTopicPrefix = ''provider-quota:''"

definition QuotaTopic :: "string \<Rightarrow> string" where
  "QuotaTopic providerID = quotaTopicPrefix @ providerID"

definition ProviderIDFromQuotaTopic :: "string \<Rightarrow> string option" where
  "ProviderIDFromQuotaTopic subject =
     (case cutPrefix subject quotaTopicPrefix of
        None \<Rightarrow> None
      | Some i \<Rightarrow> if i = [] then None else Some i)"

section \<open>Operations on subscriptions\<close>

text \<open>
  \<open>INSERT ... ON CONFLICT (endpoint) DO UPDATE ... RETURNING id\<close>: a known endpoint keeps its identifier
  and its creation time.
\<close>

definition upsertSubscription :: "go_time \<Rightarrow> string \<Rightarrow> PushSubscription \<Rightarrow> string sql" where
  "upsertSubscription now newID sub d =
     (case find (\<lambda>r. ps_Endpoint r = ps_Endpoint sub) (db_subs d) of
        Some r \<Rightarrow>
          (Inr (ps_ID r), d\<lparr>db_subs := updateWhere (\<lambda>r. ps_Endpoint r = ps_Endpoint sub)
             (\<lambda>r. r\<lparr>ps_P256dh := ps_P256dh sub, ps_Auth := ps_Auth sub, ps_ExpirationTime := ps_ExpirationTime sub,
                     ps_UserAgent := ps_UserAgent sub, ps_Labels := ps_Labels sub, ps_UpdatedAt := now\<rparr>) (db_subs d)\<rparr>)
      | None \<Rightarrow>
          if list_ex (\<lambda>r. ps_ID r = newID) (db_subs d)
          then (Inl (Wrap ''postgres.push_repo.Subscribe'' (SQLError ''duplicate key value'')), d)
          else (Inr newID, d\<lparr>db_subs := db_subs d @ [sub\<lparr>ps_ID := newID, ps_CreatedAt := now, ps_UpdatedAt := now\<rparr>]\<rparr>))"

text \<open>\<open>INSERT ... ON CONFLICT DO NOTHING\<close> with its number of rows, under the foreign key.\<close>

definition insertTopic :: "string \<Rightarrow> string \<Rightarrow> nat sql" where
  "insertTopic i subject d =
     (if \<not> list_ex (\<lambda>r. ps_ID r = i) (db_subs d)
      then (Inl (Wrap ''postgres.push_repo.Subscribe'' (SQLError ''foreign key violation'')), d)
      else if (i, subject) \<in> set (db_topics d) then (Inr 0, d)
      else (Inr 1, d\<lparr>db_topics := db_topics d @ [(i, subject)]\<rparr>))"

definition SubscribeRow :: "go_time \<Rightarrow> string \<Rightarrow> string \<Rightarrow> PushSubscription \<Rightarrow> (string \<times> bool) sql" where
  "SubscribeRow now newID subject sub d =
     (let op = ''postgres.push_repo.Subscribe'' in
      case Validate sub of
        Inl e \<Rightarrow> (Inl (Wrap op e), d)
      | Inr _ \<Rightarrow>
         (case stmt op (upsertSubscription now newID sub) d of
            (Inl e, d) \<Rightarrow> (Inl e, d)
          | (Inr i, d) \<Rightarrow>
             (case stmt op (insertTopic i subject) d of
                (Inl e, d) \<Rightarrow> (Inl e, d)
              | (Inr affected, d) \<Rightarrow> (Inr (i, affected > 0), d))))"

definition idsOf :: "string \<Rightarrow> db \<Rightarrow> string list" where
  "idsOf endpoint d = map ps_ID (filter (\<lambda>r. ps_Endpoint r = endpoint) (db_subs d))"

definition deleteTopics :: "string \<Rightarrow> string \<Rightarrow> nat sql" where
  "deleteTopics subject endpoint d =
     (let hit = (\<lambda>t. snd t = subject \<and> fst t \<in> set (idsOf endpoint d)) in
      (Inr (length (filter hit (db_topics d))), d\<lparr>db_topics := filter (\<lambda>t. \<not> hit t) (db_topics d)\<rparr>))"

definition deleteUnused :: "string \<Rightarrow> unit sql" where
  "deleteUnused endpoint d =
     (Inr (), d\<lparr>db_subs := filter (\<lambda>r. \<not> (ps_Endpoint r = endpoint \<and> \<not> list_ex (\<lambda>t. fst t = ps_ID r) (db_topics d)))
        (db_subs d)\<rparr>)"

definition UnsubscribeRow :: "string \<Rightarrow> string \<Rightarrow> bool sql" where
  "UnsubscribeRow subject endpoint d =
     (let op = ''postgres.push_repo.Unsubscribe'' in
      case stmt op (deleteTopics subject endpoint) d of
        (Inl e, d) \<Rightarrow> (Inl e, d)
      | (Inr affected, d) \<Rightarrow>
         (case stmt op (deleteUnused endpoint) d of
            (Inl e, d) \<Rightarrow> (Inl e, d)
          | (Inr _, d) \<Rightarrow> (Inr (affected > 0), d)))"

text \<open>A join lists one row per matching pair, in the order of the tables.\<close>

definition topicsOf :: "string \<Rightarrow> db \<Rightarrow> string list" where
  "topicsOf endpoint d = concat (map (\<lambda>t. if fst t \<in> set (idsOf endpoint d) then [snd t] else []) (db_topics d))"

definition SubjectsByEndpoint :: "(string list \<Rightarrow> string list) \<Rightarrow> string \<Rightarrow> string list sql" where
  "SubjectsByEndpoint collate endpoint =
     stmt ''postgres.push_repo.SubjectsByEndpoint'' (\<lambda>d. (Inr (collate (topicsOf endpoint d)), d))"

definition SubscribedSubjects :: "string list sql" where
  "SubscribedSubjects = stmt ''postgres.push_repo.SubscribedSubjects'' (\<lambda>d. (Inr (remdups (map snd (db_topics d))), d))"

definition SubscribersOf :: "string \<Rightarrow> PushSubscription list sql" where
  "SubscribersOf subject =
     stmt ''postgres.push_repo.SubscribersOf'' (\<lambda>d.
       (Inr (concat (map (\<lambda>r. map (\<lambda>_. r) (filter (\<lambda>t. t = (ps_ID r, subject)) (db_topics d))) (db_subs d))), d))"

text \<open>The topics of a deleted subscription are deleted with it.\<close>

definition DeleteByEndpoint :: "string \<Rightarrow> unit sql" where
  "DeleteByEndpoint endpoint =
     stmt ''postgres.push_repo.DeleteByEndpoint'' (\<lambda>d.
       (Inr (), d\<lparr>db_subs := filter (\<lambda>r. ps_Endpoint r \<noteq> endpoint) (db_subs d),
                  db_topics := filter (\<lambda>t. fst t \<notin> set (idsOf endpoint d)) (db_topics d)\<rparr>))"

section \<open>Operations on events and keys\<close>

text \<open>The zero value of \<open>time.Time\<close>: the first of January of year 1.\<close>

definition zeroTime :: go_time where
  "zeroTime = - 62135596800 * second"

definition AppendEvent :: "go_time \<Rightarrow> NotificationEvent \<Rightarrow> int sql" where
  "AppendEvent now ev =
     stmt ''postgres.push_repo.AppendEvent'' (\<lambda>d.
       (Inr (db_nextEvent d),
        d\<lparr>db_events := db_events d @
            [ev\<lparr>ne_ID := db_nextEvent d, ne_CreatedAt := if ne_CreatedAt ev = zeroTime then now else ne_CreatedAt ev\<rparr>],
          db_nextEvent := db_nextEvent d + 1\<rparr>))"

definition EventsForEndpoint :: "string \<Rightarrow> int \<Rightarrow> int \<Rightarrow> NotificationEvent list sql" where
  "EventsForEndpoint endpoint afterID limit0 =
     (let limit = (if limit0 \<le> 0 then 50 else limit0) in
      stmt ''postgres.push_repo.EventsForEndpoint'' (\<lambda>d.
        (Inr (take (nat limit) (sort_key ne_ID
           (filter (\<lambda>ev. ne_Subject ev \<in> set (topicsOf endpoint d) \<and> ne_ID ev > afterID) (db_events d)))), d)))"

definition PruneEvents :: "go_time \<Rightarrow> unit sql" where
  "PruneEvents olderThan =
     stmt ''postgres.push_repo.PruneEvents'' (\<lambda>d.
       (Inr (), d\<lparr>db_events := filter (\<lambda>ev. \<not> ne_CreatedAt ev < olderThan) (db_events d)\<rparr>))"

definition GetVapidKeys :: "VapidKeys option sql" where
  "GetVapidKeys = stmt ''postgres.push_repo.GetVapidKeys'' (\<lambda>d. (Inr (db_vapid d), d))"

definition SaveVapidKeys :: "VapidKeys \<Rightarrow> VapidKeys sql" where
  "SaveVapidKeys keys d =
     (case stmt ''postgres.push_repo.SaveVapidKeys'' (\<lambda>d.
         (Inr (), case db_vapid d of None \<Rightarrow> d\<lparr>db_vapid := Some keys\<rparr> | Some _ \<Rightarrow> d)) d of
        (Inl e, d) \<Rightarrow> (Inl e, d)
      | (Inr _, d) \<Rightarrow>
         (case GetVapidKeys d of
            (Inl e, d) \<Rightarrow> (Inl e, d)
          | (Inr None, d) \<Rightarrow> (Inl (Plain ''postgres.push_repo.SaveVapidKeys: keys missing after insert''), d)
          | (Inr (Some stored), d) \<Rightarrow> (Inr stored, d)))"

section \<open>Well-formed tables\<close>

text \<open>What the schema promises: its primary and foreign keys and the sequence of the events.\<close>

definition pushWF :: "db \<Rightarrow> bool" where
  "pushWF d \<longleftrightarrow> distinct (map ps_ID (db_subs d)) \<and> distinct (map ps_Endpoint (db_subs d)) \<and> distinct (db_topics d) \<and>
     fst ` set (db_topics d) \<subseteq> ps_ID ` set (db_subs d) \<and>
     sorted_wrt (<) (map ne_ID (db_events d)) \<and> list_all (\<lambda>ev. ne_ID ev < db_nextEvent d) (db_events d)"

definition subscribed :: "db \<Rightarrow> (string \<times> string) set" where
  "subscribed d = {(ps_Endpoint r, subject) |r subject. r \<in> set (db_subs d) \<and> (ps_ID r, subject) \<in> set (db_topics d)}"

lemma subscribed_iff: "(endpoint, subject) \<in> subscribed d \<longleftrightarrow>
   (\<exists>r\<in>set (db_subs d). ps_Endpoint r = endpoint \<and> (ps_ID r, subject) \<in> set (db_topics d))"
  by (auto simp: subscribed_def)

lemma pushWF_faults [simp]: "pushWF (d\<lparr>db_faults := fs\<rparr>) = pushWF d" "subscribed (d\<lparr>db_faults := fs\<rparr>) = subscribed d"
  by (simp_all add: pushWF_def subscribed_def)

lemma set_idsOf: "i \<in> set (idsOf endpoint d) \<longleftrightarrow> (\<exists>r\<in>set (db_subs d). ps_ID r = i \<and> ps_Endpoint r = endpoint)"
  by (auto simp: idsOf_def)

lemma set_topicsOf: "set (topicsOf endpoint d) = {subject. (endpoint, subject) \<in> subscribed d}"
proof (intro set_eqI)
  fix subject
  have "subject \<in> set (topicsOf endpoint d) \<longleftrightarrow> (\<exists>t\<in>set (db_topics d). fst t \<in> set (idsOf endpoint d) \<and> snd t = subject)"
    by (auto simp: topicsOf_def)
  also have "\<dots> \<longleftrightarrow> (\<exists>i\<in>set (idsOf endpoint d). (i, subject) \<in> set (db_topics d))" by force
  finally show "subject \<in> set (topicsOf endpoint d) \<longleftrightarrow> subject \<in> {subject. (endpoint, subject) \<in> subscribed d}"
    unfolding mem_Collect_eq subscribed_iff Bex_def set_idsOf by blast
qed

text \<open>In well-formed tables an identifier determines the row, and so does an endpoint.\<close>

lemma sub_eq:
  assumes "pushWF d" "r \<in> set (db_subs d)" "q \<in> set (db_subs d)" "ps_ID r = ps_ID q \<or> ps_Endpoint r = ps_Endpoint q"
  shows "r = q"
  using assms by (auto simp: pushWF_def distinct_map inj_on_def)

text \<open>A statement that may fail keeps what its effect keeps.\<close>

lemma stmt_keeps:
  assumes "stmt op f d = (r, d')" "\<And>e. P (Inl e) d" "\<And>fs r d'. f (d\<lparr>db_faults := fs\<rparr>) = (r, d') \<Longrightarrow> P r d'"
    "\<And>r d fs. P r (d\<lparr>db_faults := fs\<rparr>) \<longleftrightarrow> P r d"
  shows "P r d'"
  by (cases rule: stmt_cases [of op f d]) (use assms in auto)

lemma upsertSubscription_effect:
  assumes "pushWF d" "upsertSubscription now newID sub d = (r, d')"
  shows "pushWF d' \<and> subscribed d' = subscribed d \<and> db_topics d' = db_topics d \<and>
    (\<forall>i. r = Inr i \<longrightarrow> (\<exists>q\<in>set (db_subs d'). ps_ID q = i \<and> ps_Endpoint q = ps_Endpoint sub))"
proof (cases "find (\<lambda>r. ps_Endpoint r = ps_Endpoint sub) (db_subs d)")
  case None
  then have new: "ps_Endpoint sub \<notin> ps_Endpoint ` set (db_subs d)" by (auto simp: find_None_iff)
  show ?thesis
  proof (cases "list_ex (\<lambda>r. ps_ID r = newID) (db_subs d)")
    case True
    then show ?thesis using assms None by (auto simp: upsertSubscription_def)
  next
    case False
    then have fresh: "newID \<notin> ps_ID ` set (db_subs d)" by (auto simp: list_ex_iff)
    then have "(newID, subject) \<notin> set (db_topics d)" for subject
      using assms(1) by (auto simp: pushWF_def list_all_iff)
    then have "subscribed (d\<lparr>db_subs := db_subs d @ [sub\<lparr>ps_ID := newID, ps_CreatedAt := now, ps_UpdatedAt := now\<rparr>]\<rparr>) = subscribed d"
      by (auto simp: subscribed_def)
    moreover have "d' = d\<lparr>db_subs := db_subs d @ [sub\<lparr>ps_ID := newID, ps_CreatedAt := now, ps_UpdatedAt := now\<rparr>]\<rparr>" "r = Inr newID"
      using assms(2) None False by (auto simp: upsertSubscription_def)
    moreover have "fst ` set (db_topics d) \<subseteq> insert newID (ps_ID ` set (db_subs d))" using assms(1) by (auto simp: pushWF_def)
    ultimately show ?thesis using assms(1) new fresh by (simp add: pushWF_def)
  qed
next
  case (Some q)
  define f where "f = (\<lambda>r :: PushSubscription. r\<lparr>ps_P256dh := ps_P256dh sub, ps_Auth := ps_Auth sub, ps_ExpirationTime := ps_ExpirationTime sub,
     ps_UserAgent := ps_UserAgent sub, ps_Labels := ps_Labels sub, ps_UpdatedAt := now\<rparr>)"
  define rows where "rows = updateWhere (\<lambda>r. ps_Endpoint r = ps_Endpoint sub) f (db_subs d)"
  have same: "map ps_ID rows = map ps_ID (db_subs d)" "map ps_Endpoint rows = map ps_Endpoint (db_subs d)"
    by (simp_all add: rows_def f_def map_updateWhere)
  have "map (\<lambda>r. (ps_ID r, ps_Endpoint r)) rows = map (\<lambda>r. (ps_ID r, ps_Endpoint r)) (db_subs d)"
    by (simp add: rows_def f_def map_updateWhere)
  then have pairs: "(\<lambda>r. (ps_ID r, ps_Endpoint r)) ` set rows = (\<lambda>r. (ps_ID r, ps_Endpoint r)) ` set (db_subs d)"
    by (metis set_map)
  have ids: "ps_ID ` set rows = ps_ID ` set (db_subs d)" using same(1) by (metis set_map)
  have d': "d' = d\<lparr>db_subs := rows\<rparr>" "r = Inr (ps_ID q)"
    using assms(2) Some by (auto simp: upsertSubscription_def rows_def f_def)
  have sub: "subscribed d' = subscribed d" (is "?L = ?R")
  proof -
    have eq: "subscribed x = {(e, s). \<exists>i. (i, e) \<in> (\<lambda>r. (ps_ID r, ps_Endpoint r)) ` set (db_subs x) \<and> (i, s) \<in> set (db_topics x)}" for x
      by (force simp: subscribed_def)
    show ?thesis unfolding eq using pairs d'(1) by simp
  qed
  have "q \<in> set (db_subs d)" "ps_Endpoint q = ps_Endpoint sub" using Some by (auto simp: find_Some_iff)
  then have "(ps_ID q, ps_Endpoint sub) \<in> (\<lambda>r. (ps_ID r, ps_Endpoint r)) ` set rows" using pairs by force
  then show ?thesis using assms(1) same ids sub d' by (auto simp: pushWF_def)
qed

lemma insertTopic_effect:
  assumes "pushWF d" "insertTopic i subject d = (r, d')" "\<exists>q\<in>set (db_subs d). ps_ID q = i \<and> ps_Endpoint q = endpoint"
  shows "pushWF d' \<and> (case r of Inl e \<Rightarrow> subscribed d' = subscribed d
    | Inr n \<Rightarrow> subscribed d' = insert (endpoint, subject) (subscribed d) \<and> (n > 0 \<longleftrightarrow> (endpoint, subject) \<notin> subscribed d))"
proof -
  obtain q where q: "q \<in> set (db_subs d)" "ps_ID q = i" "ps_Endpoint q = endpoint" using assms(3) by blast
  have only: "p \<in> set (db_subs d) \<Longrightarrow> ps_ID p = i \<longleftrightarrow> ps_Endpoint p = endpoint" for p
    using q(2,3) sub_eq [OF assms(1) _ q(1), of p] by auto
  have iff: "(endpoint, subject) \<in> subscribed d \<longleftrightarrow> (i, subject) \<in> set (db_topics d)"
    using q only [symmetric] by (auto simp: subscribed_iff)
  have ins: "subscribed (d\<lparr>db_topics := db_topics d @ [(i, subject)]\<rparr>) = insert (endpoint, subject) (subscribed d)"
    using q only by (auto simp: subscribed_iff)
  have ex: "list_ex (\<lambda>r. ps_ID r = i) (db_subs d)" using q by (auto simp: list_ex_iff)
  show ?thesis
  proof (cases "(i, subject) \<in> set (db_topics d)")
    case True
    then show ?thesis using assms(1,2) ex iff by (auto simp: insertTopic_def)
  next
    case False
    then have "r = Inr 1" "d' = d\<lparr>db_topics := db_topics d @ [(i, subject)]\<rparr>"
      using assms(2) ex by (auto simp: insertTopic_def)
    then show ?thesis using assms(1) False iff ins q by (auto simp: pushWF_def)
  qed
qed

lemma SubscribeRow_effect:
  assumes "pushWF d" "SubscribeRow now newID subject sub d = (r, d')"
  shows "pushWF d' \<and> (case r of Inl e \<Rightarrow> subscribed d' = subscribed d
    | Inr (i, created) \<Rightarrow> subscribed d' = insert (ps_Endpoint sub, subject) (subscribed d) \<and>
        (created \<longleftrightarrow> (ps_Endpoint sub, subject) \<notin> subscribed d))"
proof (cases "Validate sub")
  case (Inl e)
  then show ?thesis using assms by (auto simp: SubscribeRow_def)
next
  case (Inr u)
  define op where "op = ''postgres.push_repo.Subscribe''"
  obtain r1 d1 where c1: "stmt op (upsertSubscription now newID sub) d = (r1, d1)" by fastforce
  have e1: "pushWF d1 \<and> subscribed d1 = subscribed d \<and>
    (\<forall>i. r1 = Inr i \<longrightarrow> (\<exists>q\<in>set (db_subs d1). ps_ID q = i \<and> ps_Endpoint q = ps_Endpoint sub))"
    proof (rule stmt_keeps [OF c1])
    fix fs r d'
    assume "upsertSubscription now newID sub (d\<lparr>db_faults := fs\<rparr>) = (r, d')"
    from upsertSubscription_effect [OF _ this] show "pushWF d' \<and> subscribed d' = subscribed d \<and>
      (\<forall>i. r = Inr i \<longrightarrow> (\<exists>q\<in>set (db_subs d'). ps_ID q = i \<and> ps_Endpoint q = ps_Endpoint sub))" using assms(1) by simp
  qed (use assms(1) in auto)
  show ?thesis
  proof (cases r1)
    case (Inl e)
    then show ?thesis using assms(2) Inr c1 e1 by (auto simp: SubscribeRow_def Let_def op_def)
  next
    case i: (Inr i)
    obtain r2 d2 where c2: "stmt op (insertTopic i subject) d1 = (r2, d2)" by fastforce
    have "pushWF d2 \<and> (case r2 of Inl e \<Rightarrow> subscribed d2 = subscribed d1
      | Inr n \<Rightarrow> subscribed d2 = insert (ps_Endpoint sub, subject) (subscribed d1) \<and>
          (n > 0 \<longleftrightarrow> (ps_Endpoint sub, subject) \<notin> subscribed d1))"
    proof (rule stmt_keeps [OF c2])
      fix fs r d'
      assume "insertTopic i subject (d1\<lparr>db_faults := fs\<rparr>) = (r, d')"
      from insertTopic_effect [OF _ this, of "ps_Endpoint sub"] show "pushWF d' \<and> (case r of Inl e \<Rightarrow> subscribed d' = subscribed d1
        | Inr n \<Rightarrow> subscribed d' = insert (ps_Endpoint sub, subject) (subscribed d1) \<and>
          (n > 0 \<longleftrightarrow> (ps_Endpoint sub, subject) \<notin> subscribed d1))" using e1 i by (simp split: sum.splits)
    qed (use e1 in \<open>auto split: sum.splits\<close>)
    then show ?thesis using assms(2) Inr c1 i c2 e1 by (auto simp: SubscribeRow_def Let_def op_def split: sum.splits)
  qed
qed


lemma deleteTopics_effect:
  assumes "pushWF d" "deleteTopics subject endpoint d = (r, d')"
  shows "pushWF d' \<and> subscribed d' = subscribed d - {(endpoint, subject)} \<and>
    (\<exists>n. r = Inr n \<and> (n > 0 \<longleftrightarrow> (endpoint, subject) \<in> subscribed d))"
proof -
  have hit: "q \<in> set (db_subs d) \<Longrightarrow> ps_ID q \<in> set (idsOf endpoint d) \<longleftrightarrow> ps_Endpoint q = endpoint" for q
    unfolding set_idsOf using sub_eq [OF assms(1), of _ q] by blast
  have "d' = d\<lparr>db_topics := filter (\<lambda>t. \<not> (snd t = subject \<and> fst t \<in> set (idsOf endpoint d))) (db_topics d)\<rparr>"
    and r: "r = Inr (length (filter (\<lambda>t. snd t = subject \<and> fst t \<in> set (idsOf endpoint d)) (db_topics d)))"
    using assms(2) by (auto simp: deleteTopics_def Let_def)
  moreover from this have "subscribed d' = subscribed d - {(endpoint, subject)}"
    using hit by (auto simp: subscribed_iff)
  moreover have "(endpoint, subject) \<in> subscribed d \<longleftrightarrow> (\<exists>t\<in>set (db_topics d). snd t = subject \<and> fst t \<in> set (idsOf endpoint d))"
    by (force simp: subscribed_iff set_idsOf)
  ultimately show ?thesis using assms(1) by (auto simp: pushWF_def filter_empty_conv)
qed

lemma filter_subs_effect:
  assumes "pushWF d" "\<And>r. r \<in> set (db_subs d) \<Longrightarrow> \<not> P r \<Longrightarrow> ps_ID r \<notin> fst ` set (db_topics d)"
  shows "pushWF (d\<lparr>db_subs := filter P (db_subs d)\<rparr>)" "subscribed (d\<lparr>db_subs := filter P (db_subs d)\<rparr>) = subscribed d"
proof -
  have "fst ` set (db_topics d) \<subseteq> ps_ID ` {r \<in> set (db_subs d). P r}"
  proof
    fix i
    assume "i \<in> fst ` set (db_topics d)"
    moreover from this assms(1) obtain r where "r \<in> set (db_subs d)" "ps_ID r = i" by (auto simp: pushWF_def)
    ultimately show "i \<in> ps_ID ` {r \<in> set (db_subs d). P r}" using assms(2) [of r] by auto
  qed
  then show "pushWF (d\<lparr>db_subs := filter P (db_subs d)\<rparr>)"
    using assms(1) by (simp add: pushWF_def distinct_map_filter)
  show "subscribed (d\<lparr>db_subs := filter P (db_subs d)\<rparr>) = subscribed d"
    using assms(2) by (force simp: subscribed_iff)
qed

lemma deleteUnused_effect:
  assumes "pushWF d" "deleteUnused endpoint d = (r, d')"
  shows "pushWF d' \<and> subscribed d' = subscribed d \<and> r = Inr ()"
proof -
  define P where "P = (\<lambda>r :: PushSubscription. \<not> (ps_Endpoint r = endpoint \<and> \<not> list_ex (\<lambda>t. fst t = ps_ID r) (db_topics d)))"
  have "\<not> P r \<Longrightarrow> ps_ID r \<notin> fst ` set (db_topics d)" for r
    by (auto simp: P_def list_ex_iff)
  then show ?thesis using filter_subs_effect [OF assms(1), of P] assms(2) by (simp add: deleteUnused_def P_def)
qed

lemma UnsubscribeRow_effect:
  assumes "pushWF d" "UnsubscribeRow subject endpoint d = (r, d')"
  shows "pushWF d' \<and> (case r of Inl e \<Rightarrow> subscribed d' \<in> {subscribed d, subscribed d - {(endpoint, subject)}}
    | Inr removed \<Rightarrow> subscribed d' = subscribed d - {(endpoint, subject)} \<and> (removed \<longleftrightarrow> (endpoint, subject) \<in> subscribed d))"
proof -
  define op where "op = ''postgres.push_repo.Unsubscribe''"
  obtain r1 d1 where c1: "stmt op (deleteTopics subject endpoint) d = (r1, d1)" by fastforce
  obtain r2 d2 where c2: "stmt op (deleteUnused endpoint) d1 = (r2, d2)" by fastforce
  have e1: "pushWF d1 \<and> (case r1 of Inl e \<Rightarrow> subscribed d1 = subscribed d
    | Inr n \<Rightarrow> subscribed d1 = subscribed d - {(endpoint, subject)} \<and> (n > 0 \<longleftrightarrow> (endpoint, subject) \<in> subscribed d))"
  proof (rule stmt_keeps [OF c1])
    fix fs r d'
    assume "deleteTopics subject endpoint (d\<lparr>db_faults := fs\<rparr>) = (r, d')"
    from deleteTopics_effect [OF _ this] have "pushWF d' \<and> subscribed d' = subscribed d - {(endpoint, subject)} \<and>
      (\<exists>n. r = Inr n \<and> (n > 0 \<longleftrightarrow> (endpoint, subject) \<in> subscribed d))" using assms(1) by simp
    then show "pushWF d' \<and> (case r of Inl e \<Rightarrow> subscribed d' = subscribed d
      | Inr n \<Rightarrow> subscribed d' = subscribed d - {(endpoint, subject)} \<and> (n > 0 \<longleftrightarrow> (endpoint, subject) \<in> subscribed d))"
      by (elim conjE exE) simp
  qed (use assms(1) in \<open>auto split: sum.splits\<close>)
  have e2: "pushWF d2 \<and> subscribed d2 = subscribed d1"
  proof (rule stmt_keeps [OF c2])
    fix fs r d'
    assume "deleteUnused endpoint (d1\<lparr>db_faults := fs\<rparr>) = (r, d')"
    from deleteUnused_effect [OF _ this] show "pushWF d' \<and> subscribed d' = subscribed d1" using e1 by simp
  qed (use e1 in auto)
  have res: "(r, d') = (case r1 of Inl e \<Rightarrow> (Inl e, d1)
      | Inr n \<Rightarrow> (case r2 of Inl e \<Rightarrow> (Inl e, d2) | Inr _ \<Rightarrow> (Inr (n > 0), d2)))"
    using assms(2) c1 c2 by (simp add: UnsubscribeRow_def Let_def op_def split: sum.splits)
  show ?thesis
  proof (cases r1)
    case (Inl e)
    then show ?thesis using res e1 by simp
  next
    case (Inr n)
    then show ?thesis using res e1 e2 by (cases r2) simp_all
  qed
qed

lemma DeleteByEndpoint_effect:
  assumes "pushWF d" "DeleteByEndpoint endpoint d = (r, d')"
  shows "pushWF d' \<and> (case r of Inl e \<Rightarrow> subscribed d' = subscribed d
    | Inr _ \<Rightarrow> subscribed d' = {p \<in> subscribed d. fst p \<noteq> endpoint})"
proof -
  define gone where "gone = d\<lparr>db_topics := filter (\<lambda>t. fst t \<notin> set (idsOf endpoint d)) (db_topics d)\<rparr>"
  have hit: "q \<in> set (db_subs d) \<Longrightarrow> ps_ID q \<in> set (idsOf endpoint d) \<longleftrightarrow> ps_Endpoint q = endpoint" for q
    unfolding set_idsOf using sub_eq [OF assms(1), of _ q] by blast
  have wf: "pushWF gone" using assms(1) by (auto simp: pushWF_def gone_def)
  have sub: "subscribed gone = {p \<in> subscribed d. fst p \<noteq> endpoint}" using hit by (auto simp: subscribed_iff gone_def)
  have unused: "r \<in> set (db_subs gone) \<Longrightarrow> \<not> ps_Endpoint r \<noteq> endpoint \<Longrightarrow> ps_ID r \<notin> fst ` set (db_topics gone)" for r
    using hit by (auto simp: gone_def)
  note c = assms(2) [unfolded DeleteByEndpoint_def]
  show ?thesis
  proof (rule stmt_keeps [OF c])
    fix fs r d'
    assume "(Inr (), d\<lparr>db_faults := fs\<rparr>\<lparr>db_subs := filter (\<lambda>r. ps_Endpoint r \<noteq> endpoint) (db_subs (d\<lparr>db_faults := fs\<rparr>)),
        db_topics := filter (\<lambda>t. fst t \<notin> set (idsOf endpoint (d\<lparr>db_faults := fs\<rparr>))) (db_topics (d\<lparr>db_faults := fs\<rparr>))\<rparr>) = (r, d')"
    then have "r = Inr ()" "d' = (gone\<lparr>db_subs := filter (\<lambda>r. ps_Endpoint r \<noteq> endpoint) (db_subs gone)\<rparr>)\<lparr>db_faults := fs\<rparr>"
      by (auto simp: gone_def idsOf_def)
    then show "pushWF d' \<and> (case r of Inl e \<Rightarrow> subscribed d' = subscribed d
      | Inr _ \<Rightarrow> subscribed d' = {p \<in> subscribed d. fst p \<noteq> endpoint})"
      using filter_subs_effect [OF wf, of "\<lambda>r. ps_Endpoint r \<noteq> endpoint"] unused sub by simp
  qed (use assms(1) in \<open>auto split: sum.splits\<close>)
qed

section \<open>The tables implement a relation\<close>

datatype push_op =
    OpSubscribe go_time string string PushSubscription
  | OpUnsubscribe string string
  | OpDelete string
  | OpSubjects string
  | OpSubscribers string
  | OpSubscribed
  | OpEvent go_time NotificationEvent
  | OpEvents string int int
  | OpPrune go_time
  | OpKeys VapidKeys

datatype push_result =
    Failed err | Subscribed bool | Removed bool | Endpoints "string list" | Subjects "string list" | Other

definition outcome :: "('a \<Rightarrow> push_result) \<Rightarrow> (err + 'a) \<times> db \<Rightarrow> push_result \<times> db" where
  "outcome f p = (case p of (Inl e, d) \<Rightarrow> (Failed e, d) | (Inr x, d) \<Rightarrow> (f x, d))"

fun pushExec :: "(string list \<Rightarrow> string list) \<Rightarrow> push_op \<Rightarrow> db \<Rightarrow> push_result \<times> db" where
  "pushExec collate (OpSubscribe now newID subject sub) d = outcome (\<lambda>r. Subscribed (snd r)) (SubscribeRow now newID subject sub d)"
| "pushExec collate (OpUnsubscribe subject endpoint) d = outcome Removed (UnsubscribeRow subject endpoint d)"
| "pushExec collate (OpDelete endpoint) d = outcome (\<lambda>_. Other) (DeleteByEndpoint endpoint d)"
| "pushExec collate (OpSubjects endpoint) d = outcome Subjects (SubjectsByEndpoint collate endpoint d)"
| "pushExec collate (OpSubscribers subject) d = outcome (\<lambda>rs. Endpoints (map ps_Endpoint rs)) (SubscribersOf subject d)"
| "pushExec collate OpSubscribed d = outcome Subjects (SubscribedSubjects d)"
| "pushExec collate (OpEvent now ev) d = outcome (\<lambda>_. Other) (AppendEvent now ev d)"
| "pushExec collate (OpEvents endpoint afterID limit) d = outcome (\<lambda>_. Other) (EventsForEndpoint endpoint afterID limit d)"
| "pushExec collate (OpPrune olderThan) d = outcome (\<lambda>_. Other) (PruneEvents olderThan d)"
| "pushExec collate (OpKeys keys) d = outcome (\<lambda>_. Other) (SaveVapidKeys keys d)"

text \<open>
  A failed command leaves the relation alone, except that a failing \<open>Unsubscribe\<close> may have ended the
  subscription all the same.
\<close>

fun pushSpec :: "(string list \<Rightarrow> string list) \<Rightarrow> push_op \<Rightarrow> (string \<times> string) set \<Rightarrow> push_result \<Rightarrow> (string \<times> string) set \<Rightarrow> bool" where
  "pushSpec collate (OpSubscribe now newID subject sub) R r R' \<longleftrightarrow>
     (\<exists>e. r = Failed e) \<and> R' = R \<or>
     (\<exists>created. r = Subscribed created \<and> R' = insert (ps_Endpoint sub, subject) R \<and> created = ((ps_Endpoint sub, subject) \<notin> R))"
| "pushSpec collate (OpUnsubscribe subject endpoint) R r R' \<longleftrightarrow>
     (\<exists>e. r = Failed e) \<and> R' \<in> {R, R - {(endpoint, subject)}} \<or>
     (\<exists>removed. r = Removed removed \<and> R' = R - {(endpoint, subject)} \<and> removed = ((endpoint, subject) \<in> R))"
| "pushSpec collate (OpDelete endpoint) R r R' \<longleftrightarrow>
     (\<exists>e. r = Failed e) \<and> R' = R \<or> r = Other \<and> R' = {p \<in> R. fst p \<noteq> endpoint}"
| "pushSpec collate (OpSubjects endpoint) R r R' \<longleftrightarrow>
     R' = R \<and> ((\<exists>e. r = Failed e) \<or> (\<exists>ss. r = Subjects (collate ss) \<and> distinct ss \<and> set ss = {s. (endpoint, s) \<in> R}))"
| "pushSpec collate (OpSubscribers subject) R r R' \<longleftrightarrow>
     R' = R \<and> ((\<exists>e. r = Failed e) \<or> (\<exists>es. r = Endpoints es \<and> distinct es \<and> set es = {e. (e, subject) \<in> R}))"
| "pushSpec collate OpSubscribed R r R' \<longleftrightarrow>
     R' = R \<and> ((\<exists>e. r = Failed e) \<or> (\<exists>ss. r = Subjects ss \<and> distinct ss \<and> set ss = snd ` R))"
| "pushSpec collate (OpEvent now ev) R r R' \<longleftrightarrow> R' = R"
| "pushSpec collate (OpEvents endpoint afterID limit) R r R' \<longleftrightarrow> R' = R"
| "pushSpec collate (OpPrune olderThan) R r R' \<longleftrightarrow> R' = R"
| "pushSpec collate (OpKeys keys) R r R' \<longleftrightarrow> R' = R"

lemma distinct_topicsOf:
  assumes "pushWF d"
  shows "distinct (topicsOf endpoint d)"
proof -
  have one: "i \<in> set (idsOf endpoint d) \<Longrightarrow> j \<in> set (idsOf endpoint d) \<Longrightarrow> i = j" for i j
    unfolding set_idsOf using sub_eq [OF assms] by blast
  have "distinct ts \<Longrightarrow> distinct (concat (map (\<lambda>t. if fst t \<in> set (idsOf endpoint d) then [snd t] else []) ts))"
    for ts :: "(string \<times> string) list"
  proof (induction ts)
    case (Cons t ts)
    then show ?case by (cases t) (auto dest: one)
  qed simp
  then show ?thesis using assms by (simp add: topicsOf_def pushWF_def)
qed

definition subscribersOf :: "string \<Rightarrow> db \<Rightarrow> PushSubscription list" where
  "subscribersOf subject d = filter (\<lambda>r. (ps_ID r, subject) \<in> set (db_topics d)) (db_subs d)"

lemma SubscribersOf_eq:
  assumes "pushWF d"
  shows "concat (map (\<lambda>r. map (\<lambda>_. r) (filter (\<lambda>t. t = (ps_ID r, subject)) (db_topics d))) rs) =
    filter (\<lambda>r. (ps_ID r, subject) \<in> set (db_topics d)) rs"
proof (induction rs)
  case (Cons r rs)
  have one: "distinct ts \<Longrightarrow> filter (\<lambda>t. t = x) ts = (if x \<in> set ts then [x] else [])" for x and ts :: "(string \<times> string) list"
    by (induction ts) auto
  have "distinct (db_topics d)" using assms by (simp add: pushWF_def)
  from one [OF this] Cons show ?case by simp
qed simp

lemma subscribersOf_endpoints:
  assumes "pushWF d"
  shows "distinct (map ps_Endpoint (subscribersOf subject d))"
    "set (map ps_Endpoint (subscribersOf subject d)) = {e. (e, subject) \<in> subscribed d}"
  using assms by (auto simp: pushWF_def subscribersOf_def distinct_map_filter subscribed_iff)

lemma AppendEvent_wf: "pushWF d \<Longrightarrow> pushWF (snd (AppendEvent now ev d)) \<and> subscribed (snd (AppendEvent now ev d)) = subscribed d"
  by (cases rule: stmt_cases [of "''postgres.push_repo.AppendEvent''" "\<lambda>d.
       (Inr (db_nextEvent d),
        d\<lparr>db_events := db_events d @
            [ev\<lparr>ne_ID := db_nextEvent d, ne_CreatedAt := if ne_CreatedAt ev = zeroTime then now else ne_CreatedAt ev\<rparr>],
          db_nextEvent := db_nextEvent d + 1\<rparr>)" d])
    (force simp: AppendEvent_def pushWF_def subscribed_def sorted_wrt_append list_all_iff)+

lemma PruneEvents_wf: "pushWF d \<Longrightarrow> pushWF (snd (PruneEvents t d)) \<and> subscribed (snd (PruneEvents t d)) = subscribed d"
  by (cases rule: stmt_cases [of "''postgres.push_repo.PruneEvents''"
        "\<lambda>d. (Inr (), d\<lparr>db_events := filter (\<lambda>ev. \<not> ne_CreatedAt ev < t) (db_events d)\<rparr>)" d])
    (auto simp: PruneEvents_def pushWF_def subscribed_def list_all_iff sorted_wrt_map sorted_wrt_filter)

lemma SaveVapidKeys_wf:
  assumes "pushWF d"
  shows "pushWF (snd (SaveVapidKeys keys d)) \<and> subscribed (snd (SaveVapidKeys keys d)) = subscribed d"
  using assms
  by (auto simp: SaveVapidKeys_def GetVapidKeys_def stmt_def pushWF_def subscribed_def
      split: list.splits option.splits sum.splits prod.splits)


text \<open>A query either fails or answers from the tables, which stay as they are.\<close>

lemma stmt_query:
  assumes "outcome f (stmt op (\<lambda>d. (Inr (g d), d)) d) = (r, d')" "\<And>fs. g (d\<lparr>db_faults := fs\<rparr>) = g d"
  shows "pushWF d' = pushWF d \<and> subscribed d' = subscribed d \<and> ((\<exists>e. r = Failed e) \<or> r = f (g d))"
  using assms by (cases rule: stmt_cases [of op "\<lambda>d. (Inr (g d), d)" d]) (auto simp: outcome_def)

lemma SubjectsByEndpoint_simulates:
  assumes "pushWF d" "pushExec collate (OpSubjects endpoint) d = (r, d')"
  shows "pushWF d' \<and> pushSpec collate (OpSubjects endpoint) (subscribed d) r (subscribed d')"
proof -
  have "outcome Subjects (stmt ''postgres.push_repo.SubjectsByEndpoint'' (\<lambda>d. (Inr (collate (topicsOf endpoint d)), d)) d) = (r, d')"
    using assms(2) by (simp add: SubjectsByEndpoint_def)
  from stmt_query [OF this] show ?thesis
    using assms(1) distinct_topicsOf [OF assms(1), of endpoint] set_topicsOf [of endpoint d]
    by (auto simp: topicsOf_def idsOf_def)
qed

lemma SubscribersOf_simulates:
  assumes "pushWF d" "pushExec collate (OpSubscribers subject) d = (r, d')"
  shows "pushWF d' \<and> pushSpec collate (OpSubscribers subject) (subscribed d) r (subscribed d')"
proof -
  have "outcome (\<lambda>rs. Endpoints (map ps_Endpoint rs)) (stmt ''postgres.push_repo.SubscribersOf'' (\<lambda>d.
      (Inr (concat (map (\<lambda>r. map (\<lambda>_. r) (filter (\<lambda>t. t = (ps_ID r, subject)) (db_topics d))) (db_subs d))), d)) d) = (r, d')"
    using assms(2) by (simp add: SubscribersOf_def)
  from stmt_query [OF this] have "pushWF d' \<and> subscribed d' = subscribed d \<and>
      ((\<exists>e. r = Failed e) \<or> r = Endpoints (map ps_Endpoint (subscribersOf subject d)))"
    using assms(1) by (simp add: SubscribersOf_eq subscribersOf_def)
  then show ?thesis using subscribersOf_endpoints [OF assms(1), of subject] by auto
qed

lemma SubscribedSubjects_simulates:
  assumes "pushWF d" "pushExec collate OpSubscribed d = (r, d')"
  shows "pushWF d' \<and> pushSpec collate OpSubscribed (subscribed d) r (subscribed d')"
proof -
  have snd_eq: "snd ` set (db_topics d) = snd ` subscribed d"
  proof (intro subset_antisym subsetI)
    fix subject
    assume "subject \<in> snd ` set (db_topics d)"
    then obtain i where i: "(i, subject) \<in> set (db_topics d)" by auto
    then have "i \<in> ps_ID ` set (db_subs d)" using assms(1) by (auto simp: pushWF_def)
    then obtain q where "q \<in> set (db_subs d)" "i = ps_ID q" by auto
    then have "(ps_Endpoint q, subject) \<in> subscribed d" using i by (auto simp: subscribed_iff)
    then show "subject \<in> snd ` subscribed d" by force
  qed (auto simp: subscribed_def image_iff, force)
  have "outcome Subjects (stmt ''postgres.push_repo.SubscribedSubjects'' (\<lambda>d. (Inr (remdups (map snd (db_topics d))), d)) d) = (r, d')"
    using assms(2) by (simp add: SubscribedSubjects_def)
  from stmt_query [OF this] have "pushWF d' \<and> subscribed d' = subscribed d \<and>
      ((\<exists>e. r = Failed e) \<or> r = Subjects (remdups (map snd (db_topics d))))" using assms(1) by simp
  then show ?thesis using snd_eq by auto
qed

lemma pushExec_simulates:
  assumes "pushWF d" "pushExec collate c d = (r, d')"
  shows "pushWF d' \<and> pushSpec collate c (subscribed d) r (subscribed d')"
proof (cases c)
  case (OpSubscribe now newID subject sub)
  obtain q e where c: "SubscribeRow now newID subject sub d = (q, e)" by fastforce
  from SubscribeRow_effect [OF assms(1) c] show ?thesis
    using OpSubscribe assms(2) c by (cases q) (auto simp: outcome_def)
next
  case (OpUnsubscribe subject endpoint)
  obtain q e where c: "UnsubscribeRow subject endpoint d = (q, e)" by fastforce
  from UnsubscribeRow_effect [OF assms(1) c] show ?thesis
    using OpUnsubscribe assms(2) c by (cases q) (simp_all add: outcome_def, blast)
next
  case (OpDelete endpoint)
  obtain q e where c: "DeleteByEndpoint endpoint d = (q, e)" by fastforce
  from DeleteByEndpoint_effect [OF assms(1) c] show ?thesis
    using OpDelete assms(2) c by (cases q) (auto simp: outcome_def)
next
  case (OpSubjects endpoint)
  then show ?thesis using SubjectsByEndpoint_simulates [OF assms(1)] assms(2) by simp
next
  case (OpSubscribers subject)
  then show ?thesis using SubscribersOf_simulates [OF assms(1)] assms(2) by simp
next
  case OpSubscribed
  then show ?thesis using SubscribedSubjects_simulates [OF assms(1)] assms(2) by simp
next
  case (OpEvent now ev)
  then show ?thesis using assms AppendEvent_wf [of d now ev] by (auto simp: outcome_def split: prod.splits sum.splits)
next
  case (OpEvents endpoint afterID limit)
  then show ?thesis using assms by (auto simp: outcome_def EventsForEndpoint_def stmt_def Let_def split: list.splits option.splits)
next
  case (OpPrune t)
  then show ?thesis using assms PruneEvents_wf [of d t] by (auto simp: outcome_def split: prod.splits sum.splits)
next
  case (OpKeys keys)
  then show ?thesis using assms SaveVapidKeys_wf [of d keys] by (auto simp: outcome_def split: prod.splits sum.splits)
qed


interpretation push_tables: simulation "pushExec collate" "pushSpec collate" subscribed pushWF for collate
  by unfold_locales (rule pushExec_simulates)

text \<open>
  C10: the push tables implement a relation between endpoints and subjects: after any sequence of
  repository operations, failing statements included, the keys and references of the tables are
  intact, every answer is the one the relation gives, and every change is the insertion or removal
  the operation stands for.
\<close>

theorem push_tables_refine_relation:
  assumes "pushWF d"
  shows "pushWF (snd (runAll (pushExec collate) ops d)) \<and>
    specRun (pushSpec collate) ops (subscribed d) (fst (runAll (pushExec collate) ops d)) (subscribed (snd (runAll (pushExec collate) ops d)))"
  by (rule push_tables.run_refines [OF assms]) simp

section \<open>Witnesses\<close>

definition push_db :: db where
  "push_db = \<lparr>db_keys = [], db_providers = [], db_usage = [], db_subs = [], db_topics = [], db_events = [], db_vapid = None,
     db_nextEvent = 1, db_nextUsage = 1, db_faults = [], db_uuid = Some\<rparr>"

definition phone :: PushSubscription where
  "phone = \<lparr>ps_ID = [], ps_Endpoint = ''inapp:phone'', ps_P256dh = [], ps_Auth = [], ps_ExpirationTime = None,
     ps_UserAgent = [], ps_Labels = [], ps_CreatedAt = 0, ps_UpdatedAt = 0\<rparr>"

lemma phone_valid: "Validate phone = Inr ()"
proof -
  have "trimSpace ''inapp:phone'' = ''inapp:phone''" by code_simp
  then show ?thesis by (simp add: Validate_def phone_def IsInAppEndpoint_def InAppEndpointPrefix_def hasPrefix_def)
qed

theorem push_tables_refine_relation_witness:
  "runAll (pushExec id) [OpSubscribe 7 ''s1'' ''a'' phone, OpSubscribe 8 ''s2'' ''b'' phone, OpSubjects ''inapp:phone'',
      OpUnsubscribe ''a'' ''inapp:phone'', OpSubscribers ''b''] push_db =
    ([Subscribed True, Subscribed True, Subjects [''a'', ''b''], Removed True, Endpoints [''inapp:phone'']],
     push_db\<lparr>db_subs := [phone\<lparr>ps_ID := ''s1'', ps_CreatedAt := 7, ps_UpdatedAt := 8\<rparr>], db_topics := [(''s1'', ''b'')]\<rparr>) \<and>
   specRun (pushSpec id) [OpSubscribe 7 ''s1'' ''a'' phone, OpSubscribe 8 ''s2'' ''b'' phone, OpSubjects ''inapp:phone'',
      OpUnsubscribe ''a'' ''inapp:phone'', OpSubscribers ''b''] {}
     [Subscribed True, Subscribed True, Subjects [''a'', ''b''], Removed True, Endpoints [''inapp:phone'']]
     {(''inapp:phone'', ''b'')}"
proof -
  let ?ops = "[OpSubscribe 7 ''s1'' ''a'' phone, OpSubscribe 8 ''s2'' ''b'' phone, OpSubjects ''inapp:phone'',
      OpUnsubscribe ''a'' ''inapp:phone'', OpSubscribers ''b'']"
  have run: "runAll (pushExec id) ?ops push_db =
    ([Subscribed True, Subscribed True, Subjects [''a'', ''b''], Removed True, Endpoints [''inapp:phone'']],
     push_db\<lparr>db_subs := [phone\<lparr>ps_ID := ''s1'', ps_CreatedAt := 7, ps_UpdatedAt := 8\<rparr>], db_topics := [(''s1'', ''b'')]\<rparr>)"
    using phone_valid
    by (simp add: SubscribeRow_def Let_def UnsubscribeRow_def SubjectsByEndpoint_def SubscribersOf_def stmt_def outcome_def
        upsertSubscription_def insertTopic_def topicsOf_def idsOf_def deleteTopics_def deleteUnused_def push_db_def phone_def) force
  have "pushWF push_db" "subscribed push_db = {}" by (simp_all add: pushWF_def push_db_def subscribed_def)
  moreover have "subscribed (push_db\<lparr>db_subs := [phone\<lparr>ps_ID := ''s1'', ps_CreatedAt := 7, ps_UpdatedAt := 8\<rparr>],
      db_topics := [(''s1'', ''b'')]\<rparr>) = {(''inapp:phone'', ''b'')}"
    by (auto simp: subscribed_def phone_def)
  ultimately show ?thesis using push_tables_refine_relation [of push_db id ?ops] run by simp
qed

end
