(* ===== verification/Float64.thy ===== *)
theory Float64
  imports Complex_Main Prelude
begin

text \<open>
  The type \<open>float64\<close>: its finite values are rational numbers, an arithmetic result is the exact
  value rounded to the nearest representable number, ties to even.  The sign of zero is not
  distinguished.
\<close>

datatype float64 = Fin rat | PosInf | NegInf | NaN

text \<open>Rounding to the nearest integer, ties to even.\<close>

definition roundEven :: "rat \<Rightarrow> int" where
  "roundEven q =
     (let f = \<lfloor>q\<rfloor>; r = q - of_int f in
      if r < 1 / 2 then f else if r > 1 / 2 then f + 1 else if even f then f else f + 1)"

definition pow2 :: "int \<Rightarrow> rat" where
  "pow2 k = (if 0 \<le> k then 2 ^ nat k else 1 / 2 ^ nat (- k))"

function bits :: "int \<Rightarrow> nat" where
  "bits n = (if n \<le> 0 then 0 else Suc (bits (n div 2)))"
  by pat_completeness auto
termination
  by (relation "measure nat") auto

declare bits.simps [simp del]

text \<open>The exponent of the leading bit of a positive number, and of the last bit of its significand.\<close>

definition leadExp :: "rat \<Rightarrow> int" where
  "leadExp x =
     (case quotient_of x of (p, q) \<Rightarrow>
        let k = int (bits p) - int (bits q) in if pow2 k \<le> x then k else k - 1)"

definition lastExp :: "rat \<Rightarrow> int" where
  "lastExp x = max (leadExp \<bar>x\<bar>) (- 1022) - 52"

definition float_of :: "rat \<Rightarrow> float64" where
  "float_of x =
     (if x = 0 then Fin 0
      else
        let u = pow2 (lastExp x); y = of_int (roundEven (x / u)) * u in
        if y \<ge> pow2 1024 then PosInf else if y \<le> - pow2 1024 then NegInf else Fin y)"

fun fsub :: "float64 \<Rightarrow> float64 \<Rightarrow> float64" where
  "fsub (Fin a) (Fin b) = float_of (a - b)"
| "fsub NaN _ = NaN"
| "fsub _ NaN = NaN"
| "fsub PosInf PosInf = NaN"
| "fsub NegInf NegInf = NaN"
| "fsub PosInf _ = PosInf"
| "fsub NegInf _ = NegInf"
| "fsub (Fin _) PosInf = NegInf"
| "fsub (Fin _) NegInf = PosInf"

fun fmul :: "float64 \<Rightarrow> float64 \<Rightarrow> float64" where
  "fmul (Fin a) (Fin b) = float_of (a * b)"
| "fmul NaN _ = NaN"
| "fmul _ NaN = NaN"
| "fmul (Fin a) PosInf = (if a = 0 then NaN else if a > 0 then PosInf else NegInf)"
| "fmul (Fin a) NegInf = (if a = 0 then NaN else if a > 0 then NegInf else PosInf)"
| "fmul PosInf (Fin b) = (if b = 0 then NaN else if b > 0 then PosInf else NegInf)"
| "fmul NegInf (Fin b) = (if b = 0 then NaN else if b > 0 then NegInf else PosInf)"
| "fmul PosInf PosInf = PosInf"
| "fmul PosInf NegInf = NegInf"
| "fmul NegInf PosInf = NegInf"
| "fmul NegInf NegInf = PosInf"

text \<open>The program divides by positive numbers only.\<close>

fun fdiv :: "float64 \<Rightarrow> float64 \<Rightarrow> float64" where
  "fdiv (Fin a) (Fin b) =
     (if b = 0 then (if a = 0 then NaN else if a > 0 then PosInf else NegInf) else float_of (a / b))"
| "fdiv NaN _ = NaN"
| "fdiv _ NaN = NaN"
| "fdiv (Fin _) PosInf = Fin 0"
| "fdiv (Fin _) NegInf = Fin 0"
| "fdiv PosInf (Fin b) = (if b < 0 then NegInf else PosInf)"
| "fdiv NegInf (Fin b) = (if b < 0 then PosInf else NegInf)"
| "fdiv _ _ = NaN"

text \<open>Comparisons with a value that is not a number are false.\<close>

fun fle :: "float64 \<Rightarrow> float64 \<Rightarrow> bool" where
  "fle NaN _ = False"
| "fle _ NaN = False"
| "fle NegInf _ = True"
| "fle _ PosInf = True"
| "fle (Fin a) (Fin b) = (a \<le> b)"
| "fle _ _ = False"

definition flt :: "float64 \<Rightarrow> float64 \<Rightarrow> bool" where
  "flt a b = (fle a b \<and> \<not> fle b a)"

text \<open>The verb \<open>%.1f\<close>.\<close>

definition showTenths :: "float64 \<Rightarrow> string" where
  "showTenths v =
     (case v of
        NaN \<Rightarrow> ''NaN'' | PosInf \<Rightarrow> ''+Inf'' | NegInf \<Rightarrow> ''-Inf''
      | Fin x \<Rightarrow>
         (let t = nat \<bar>roundEven (\<bar>x\<bar> * 10)\<bar> in
          (if x < 0 then ''-'' else []) @ showNat (t div 10) @ ''.'' @ showNat (t mod 10)))"

section \<open>Rounding keeps between representable bounds\<close>

lemma roundEven_le: "q \<le> of_int n \<Longrightarrow> roundEven q \<le> n"
proof -
  assume q: "q \<le> of_int n"
  then have f: "\<lfloor>q\<rfloor> \<le> n" by linarith
  show ?thesis
  proof (cases "\<lfloor>q\<rfloor> = n")
    case True
    then have "q - of_int \<lfloor>q\<rfloor> = 0" using q by linarith
    then show ?thesis using True by (simp add: roundEven_def)
  next
    case False
    then show ?thesis using f by (auto simp: roundEven_def Let_def)
  qed
qed

lemma roundEven_ge: "of_int n \<le> q \<Longrightarrow> n \<le> roundEven q"
proof -
  assume "of_int n \<le> q"
  then have "n \<le> \<lfloor>q\<rfloor>" by (simp add: le_floor_iff)
  then show ?thesis by (auto simp: roundEven_def Let_def)
qed


lemma bits_bounds: "n > 0 \<Longrightarrow> 2 ^ (bits n - 1) \<le> n \<and> n < 2 ^ bits n \<and> bits n > 0"
proof (induction n rule: bits.induct)
  case (1 n)
  show ?case
  proof (cases "n div 2 \<le> 0")
    case True
    then have "n = 1" using 1(2) by auto
    then show ?thesis by (simp add: bits.simps [of 1] bits.simps [of 0])
  next
    case False
    then have ih: "2 ^ (bits (n div 2) - 1) \<le> n div 2 \<and> n div 2 < 2 ^ bits (n div 2) \<and> bits (n div 2) > 0"
      using 1 by simp
    have b: "bits n = Suc (bits (n div 2))" using 1(2) by (simp add: bits.simps [of n])
    have "(2::int) ^ bits (n div 2) = 2 * 2 ^ (bits (n div 2) - 1)" using ih by (metis power_eq_if neq0_conv)
    moreover have "m \<le> n div 2 \<Longrightarrow> n div 2 < 2 * m \<Longrightarrow> 2 * m \<le> n \<and> n < 4 * m" for m by presburger
    ultimately show ?thesis using ih b by simp
  qed
qed

lemma leadExp_le:
  assumes "0 < x" "x < 2 ^ n"
  shows "leadExp x \<le> int n"
proof -
  obtain p q where pq: "quotient_of x = (p, q)" by fastforce
  have q: "q > 0" using pq by (rule quotient_of_denom_pos)
  have x: "x = of_int p / of_int q" using pq by (rule quotient_of_div)
  then have p: "p > 0" using assms(1) q by (simp add: zero_less_divide_iff)
  have "of_int p < (of_int (2 ^ n * q) :: rat)" using x assms(2) q by (simp add: divide_less_eq)
  then have pq': "p < 2 ^ n * q" by (simp only: of_int_less_iff)
  have "q < 2 ^ bits q" using bits_bounds [OF q] by simp
  then have "2 ^ n * q < 2 ^ (n + bits q)" by (simp add: power_add)
  then have "p < 2 ^ (n + bits q)" using pq' by linarith
  moreover have "2 ^ (bits p - 1) \<le> p" using bits_bounds [OF p] by simp
  ultimately have "(2::int) ^ (bits p - 1) < 2 ^ (n + bits q)" by linarith
  then have "bits p - 1 < n + bits q" by simp
  then show ?thesis using pq by (auto simp: leadExp_def Let_def)
qed

lemma pow2_pos: "pow2 k > 0"
  by (simp add: pow2_def)

lemma float_of_between:
  assumes "0 \<le> x" "x \<le> of_nat n" "n < 2 ^ 52"
  shows "\<exists>y. float_of x = Fin y \<and> 0 \<le> y \<and> y \<le> of_nat n"
proof (cases "x = 0")
  case True
  then show ?thesis by (simp add: float_of_def)
next
  case False
  define u where "u = pow2 (lastExp x)"
  have u: "u > 0" by (simp add: u_def pow2_pos)
  have "x < 2 ^ 52" using assms(2,3) by (metis of_nat_less_iff of_nat_numeral of_nat_power order_le_less_trans)
  then have "leadExp \<bar>x\<bar> \<le> 52" using leadExp_le [of x 52] False assms(1) by simp
  then have k: "lastExp x \<le> 0" by (simp add: lastExp_def)
  define m where "m = int n * 2 ^ nat (- lastExp x)"
  have m: "of_nat n = of_int m * u"
    using k by (auto simp: m_def u_def pow2_def)
  have "x / u \<le> of_int m" using assms(2) m u by (simp add: divide_le_eq)
  then have "roundEven (x / u) \<le> m" by (rule roundEven_le)
  then have le: "of_int (roundEven (x / u)) * u \<le> of_nat n" using m u by (simp add: mult_right_mono)
  have "0 \<le> roundEven (x / u)" using roundEven_ge [of 0 "x / u"] assms(1) u by simp
  then have ge: "0 \<le> of_int (roundEven (x / u)) * u" using u by simp
  have "(of_nat n :: rat) < pow2 1024"
  proof -
    have "n < 2 ^ 1024" using assms(3) by (rule less_le_trans) (simp add: power_increasing)
    then have "(of_nat n :: rat) < of_nat (2 ^ 1024)" by (simp only: of_nat_less_iff)
    then show ?thesis by (simp add: pow2_def)
  qed
  then show ?thesis using False le ge by (auto simp: float_of_def Let_def u_def [symmetric])
qed

end
