(* ===== verification/Provider_Quota.thy ===== *)
theory Provider_Quota
  imports Float64 Provider_Vendor
begin

text \<open>
  How each kind of provider reports its quota: the methods \<open>LoadQuota\<close> of
  \<open>src/internal/models/providers\<close>, with the HTTP client they share (\<open>proxy.go\<close>).

  The upstream services are the argument \<open>qe_do\<close>: an answer has a status, the bytes of the body that
  arrive, and how reading them ends.  The decoders of \<open>encoding/json\<close> into the structures of the
  program, \<open>url.Parse\<close>, \<open>strconv.ParseFloat\<close> and the parsing and formatting of times are arguments too.
  Requests are built from constants, which \<open>http.NewRequest\<close> accepts.
\<close>

section \<open>Messages\<close>

record ProviderQuotaWindow =
  qw_Name :: string
  qw_UsedPercent :: float64
  qw_ResetsAt :: string
  qw_WindowMinutes :: int

text \<open>A window of a quota may be nil.\<close>

record ProviderQuota =
  pq_Quotas :: "ProviderQuotaWindow option list"
  pq_PlanType :: string
  pq_Error :: string

definition quotaError :: "string \<Rightarrow> ProviderQuota" where
  "quotaError msg = \<lparr>pq_Quotas = [], pq_PlanType = [], pq_Error = msg\<rparr>"

datatype quota_result = QuotaPanic | QuotaNil | Quota ProviderQuota

abbreviation failed :: "string \<Rightarrow> quota_result" where
  "failed msg \<equiv> Quota (quotaError msg)"

section \<open>Answers of the services\<close>

record anthropicUsageWindow =
  aw_Name :: string
  aw_Utilization :: "float64 option"
  aw_ResetsAt :: string

record anthropicUsageResponse =
  ar_FiveHour :: "anthropicUsageWindow option"
  ar_SevenDay :: "anthropicUsageWindow option"
  ar_PlanType :: string

record antigravityQuotaBucket =
  ab_ModelID :: string
  ab_RemainingFraction :: float64
  ab_ResetTime :: string

record codexUsageWindow =
  cw_UsedPercent :: float64
  cw_ResetAt :: json
  cw_WindowMinutes :: int
  cw_WindowSeconds :: int

record codexRateLimit =
  cl_Primary :: "codexUsageWindow option"
  cl_Secondary :: "codexUsageWindow option"
  cl_PrimaryWindow :: "codexUsageWindow option"
  cl_SecondaryWindow :: "codexUsageWindow option"

record codexUsageResponse =
  cu_PlanType :: string
  cu_Primary :: "codexUsageWindow option"
  cu_Secondary :: "codexUsageWindow option"
  cu_RateLimit :: "codexRateLimit option"

record kimiUsageDetail =
  kd_Used :: json
  kd_Limit :: json
  kd_ResetTime :: string

record kimiUsageWindow =
  kw_Duration :: int
  kw_TimeUnit :: string

record kimiUsageLimit =
  kl_Window :: kimiUsageWindow
  kl_Detail :: "kimiUsageDetail option"

record kimiUsageResponse =
  ku_Usage :: "kimiUsageDetail option"
  ku_Limits :: "kimiUsageLimit list"

text \<open>The body of a refusal: its message, its error, and reason and localized message of its details.\<close>

record kimiErrorResponse =
  kr_Message :: string
  kr_Error :: json
  kr_Details :: "(string \<times> string) list"

record xaiUsagePeriod =
  xp_Start :: string
  xp_End :: string

record xaiBillingConfig =
  xc_CreditUsagePercent :: "float64 option"
  xc_CurrentPeriod :: "xaiUsagePeriod option"
  xc_MonthlyLimit :: "float64 option option"
  xc_Used :: "float64 option option"
  xc_BillingPeriodStart :: string
  xc_BillingPeriodEnd :: string

record xaiBillingResponse =
  xb_Config :: "xaiBillingConfig option"
  xb_SubscriptionTier :: string

text \<open>The bytes of a body and the error that ends it early, if any.\<close>

type_synonym body = "bytes \<times> string option"

record quota_env =
  qe_parseURL :: "string \<Rightarrow> string + url"
  qe_quote :: "string \<Rightarrow> string"
  qe_do :: "transport \<Rightarrow> http_request \<Rightarrow> string + (int \<times> body)"
  qe_anthropic :: "body \<Rightarrow> anthropicUsageResponse option"
  qe_antigravity :: "bytes \<Rightarrow> antigravityQuotaBucket list option"
  qe_codex :: "body \<Rightarrow> codexUsageResponse option"
  qe_kimi :: "bytes \<Rightarrow> kimiUsageResponse option"
  qe_kimiError :: "bytes \<Rightarrow> kimiErrorResponse option"
  qe_xaiUser :: "bytes \<Rightarrow> string option"
  qe_xaiBilling :: "bytes \<Rightarrow> xaiBillingResponse option"
  qe_parseFloat :: "string \<Rightarrow> float64 \<times> bool"
  qe_parseTime :: "string \<Rightarrow> go_time option"
  qe_formatUnix :: "string \<Rightarrow> string"

section \<open>The HTTP client\<close>

text \<open>A scheme is ASCII.\<close>

definition proxyHTTPClient :: "quota_env \<Rightarrow> bool \<Rightarrow> string \<Rightarrow> string + transport" where
  "proxyHTTPClient env useProxy proxyURL =
     (if \<not> useProxy then Inr Direct
      else
        case qe_parseURL env (trimSpace proxyURL) of
          Inl _ \<Rightarrow> Inl (''invalid proxy URL '' @ qe_quote env proxyURL)
        | Inr parsed \<Rightarrow>
            if u_Host parsed = [] then Inl (''invalid proxy URL '' @ qe_quote env proxyURL)
            else
              let scheme = map lowerChar (u_Scheme parsed) in
              if scheme \<in> {''http'', ''https''} then Inr (HTTPProxy parsed)
              else if scheme \<in> {''socks'', ''socks5'', ''socks5h''} then
                Inr (HTTPProxy (if scheme = ''socks'' then parsed\<lparr>u_Scheme := ''socks5''\<rparr> else parsed))
              else Inl (''unsupported proxy scheme '' @ qe_quote env (u_Scheme parsed)))"

text \<open>\<open>io.ReadAll\<close> of an \<open>io.LimitReader\<close>.\<close>

definition readLimited :: "nat \<Rightarrow> body \<Rightarrow> string + bytes" where
  "readLimited n b =
     (if n \<le> length (fst b) then Inr (take n (fst b))
      else case snd b of None \<Rightarrow> Inr (fst b) | Some e \<Rightarrow> Inl e)"

definition okStatus :: "int \<Rightarrow> bool" where
  "okStatus status \<longleftrightarrow> 200 \<le> status \<and> status < 300"

definition statusError :: "int \<Rightarrow> quota_result" where
  "statusError status = failed (''quota returned status '' @ itoa status)"

text \<open>The first of the keys whose value is not blank, trimmed.\<close>

fun firstText :: "string list \<Rightarrow> object \<Rightarrow> string option" where
  "firstText [] credentials = None"
| "firstText (key # keys) credentials =
     (if trimSpace (stringAt credentials key) \<noteq> [] then Some (trimSpace (stringAt credentials key))
      else firstText keys credentials)"

definition clampPercent :: "float64 \<Rightarrow> float64" where
  "clampPercent v = (let v = (if flt v (Fin 0) then Fin 0 else v) in if flt (Fin 100) v then Fin 100 else v)"

section \<open>Anthropic\<close>

definition anthropicQuotaWindow :: "anthropicUsageWindow option \<Rightarrow> int \<Rightarrow> ProviderQuotaWindow option" where
  "anthropicQuotaWindow window0 windowMinutes =
     (case window0 of
        None \<Rightarrow> None
      | Some window \<Rightarrow>
         (case aw_Utilization window of
            None \<Rightarrow> None
          | Some used \<Rightarrow>
              Some \<lparr>qw_Name = aw_Name window, qw_UsedPercent = clampPercent used, qw_ResetsAt = aw_ResetsAt window,
                    qw_WindowMinutes = windowMinutes\<rparr>))"

definition anthropicPlanType :: "object \<Rightarrow> string" where
  "anthropicPlanType credentials =
     (case firstText [''subscription_type'', ''plan_type''] credentials of None \<Rightarrow> ''Claude'' | Some v \<Rightarrow> v)"

text \<open>The names are written into the two windows before it is checked that they are there.\<close>

definition loadAnthropicQuota :: "quota_env \<Rightarrow> object \<Rightarrow> bool \<Rightarrow> string \<Rightarrow> quota_result" where
  "loadAnthropicQuota env credentials useProxy proxyURL =
     (let accessToken = trimSpace (stringAt credentials ''access_token'') in
      if accessToken = [] then failed ''Anthropic credentials are incomplete''
      else
        case proxyHTTPClient env useProxy proxyURL of
          Inl _ \<Rightarrow> failed ''quota request failed''
        | Inr client \<Rightarrow>
           (case qe_do env client \<lparr>hr_Method = ''GET'', hr_URL = ''https://api.anthropic.com/api/oauth/usage'',
               hr_Header = [(''Authorization'', ''Bearer '' @ accessToken), (''Accept'', ''application/json''),
                 (''Anthropic-Beta'', ''oauth-2025-04-20''), (''User-Agent'', ''claude-code'')], hr_Body = []\<rparr> of
              Inl _ \<Rightarrow> failed ''quota request failed''
            | Inr (status, b) \<Rightarrow>
                if \<not> okStatus status then statusError status
                else
                  case qe_anthropic env b of
                    None \<Rightarrow> failed ''invalid quota response''
                  | Some usage \<Rightarrow>
                     (case (ar_FiveHour usage, ar_SevenDay usage) of
                        (Some fiveHour, Some sevenDay) \<Rightarrow>
                         (let primary0 = anthropicQuotaWindow (Some (fiveHour\<lparr>aw_Name := ''rate-limit''\<rparr>)) (5 * 60);
                              secondary0 = anthropicQuotaWindow (Some (sevenDay\<lparr>aw_Name := ''weekly''\<rparr>)) (7 * 24 * 60);
                              (primary, secondary) = (if primary0 = None then (secondary0, None) else (primary0, secondary0));
                              planType = trimSpace (ar_PlanType usage)
                          in
                          if primary = None then failed ''quota unavailable''
                          else Quota \<lparr>pq_Quotas = [primary, secondary],
                            pq_PlanType = (if planType = [] then anthropicPlanType credentials else planType), pq_Error = []\<rparr>)
                      | _ \<Rightarrow> QuotaPanic)))"

section \<open>Antigravity\<close>

definition antigravityQuotaWindow :: "antigravityQuotaBucket \<Rightarrow> ProviderQuotaWindow" where
  "antigravityQuotaWindow bucket =
     (let remaining = ab_RemainingFraction bucket;
          remaining = (if flt remaining (Fin 0) then Fin 0 else remaining);
          remaining = (if flt (Fin 1) remaining then Fin 1 else remaining)
      in \<lparr>qw_Name = ab_ModelID bucket, qw_UsedPercent = fmul (Fin 100) (fsub (Fin 1) remaining),
          qw_ResetsAt = ab_ResetTime bucket, qw_WindowMinutes = 0\<rparr>)"

definition antigravityPlanType :: "object \<Rightarrow> string" where
  "antigravityPlanType credentials =
     (if trimSpace (stringAt credentials ''plan_type'') \<noteq> [] then stringAt credentials ''plan_type'' else ''Google Antigravity'')"

definition loadAntigravityQuota :: "quota_env \<Rightarrow> object \<Rightarrow> bool \<Rightarrow> string \<Rightarrow> quota_result" where
  "loadAntigravityQuota env credentials useProxy proxyURL =
     (let accessToken = stringAt credentials ''access_token'' in
      if trimSpace accessToken = [] then failed ''Antigravity credentials are incomplete''
      else
        case proxyHTTPClient env useProxy proxyURL of
          Inl _ \<Rightarrow> failed ''quota request failed''
        | Inr client \<Rightarrow>
           (case qe_do env client \<lparr>hr_Method = ''POST'',
               hr_URL = ''https://cloudcode-pa.googleapis.com/v1internal:retrieveUserQuota'',
               hr_Header = [(''Authorization'', ''Bearer '' @ accessToken), (''Accept'', ''*/*''),
                 (''Content-Type'', ''application/json''), (''User-Agent'', ''antigravity'')], hr_Body = bytes_of ''{}''\<rparr> of
              Inl _ \<Rightarrow> failed ''quota request failed''
            | Inr (status, b) \<Rightarrow>
               (case readLimited (2 ^ 20) b of
                  Inl _ \<Rightarrow> failed ''quota request failed''
                | Inr data \<Rightarrow>
                    if \<not> okStatus status then statusError status
                    else
                      case qe_antigravity env data of
                        None \<Rightarrow> failed ''invalid quota response''
                      | Some buckets \<Rightarrow>
                          if buckets = [] then failed ''quota unavailable''
                          else Quota \<lparr>pq_Quotas = map (\<lambda>b. Some (antigravityQuotaWindow b)) buckets,
                            pq_PlanType = antigravityPlanType credentials, pq_Error = []\<rparr>)))"

section \<open>Codex\<close>

definition quotaResetString :: "quota_env \<Rightarrow> json \<Rightarrow> string" where
  "quotaResetString env v = (case v of JStr reset \<Rightarrow> reset | JNum reset \<Rightarrow> qe_formatUnix env reset | _ \<Rightarrow> [])"

definition quotaWindowToProto :: "quota_env \<Rightarrow> codexUsageWindow option \<Rightarrow> ProviderQuotaWindow option" where
  "quotaWindowToProto env window0 =
     map_option (\<lambda>window.
       \<lparr>qw_Name = [], qw_UsedPercent = cw_UsedPercent window, qw_ResetsAt = quotaResetString env (cw_ResetAt window),
        qw_WindowMinutes = (if cw_WindowMinutes window = 0 \<and> cw_WindowSeconds window > 0 then cw_WindowSeconds window div 60
          else cw_WindowMinutes window)\<rparr>) window0"

definition orElse :: "'a option \<Rightarrow> 'a option \<Rightarrow> 'a option" where
  "orElse a b = (case a of None \<Rightarrow> b | Some _ \<Rightarrow> a)"

definition loadCodexQuota :: "quota_env \<Rightarrow> object \<Rightarrow> bool \<Rightarrow> string \<Rightarrow> quota_result" where
  "loadCodexQuota env credentials useProxy proxyURL =
     (let accessToken = stringAt credentials ''access_token'';
          accountID = stringAt credentials ''account_id''
      in
      if credentials = [] then failed ''quota unavailable''
      else if accessToken = [] \<or> accountID = [] then failed ''Codex credentials are incomplete''
      else
        case proxyHTTPClient env useProxy proxyURL of
          Inl e \<Rightarrow> failed (''quota request failed: '' @ e)
        | Inr client \<Rightarrow>
           (case qe_do env client \<lparr>hr_Method = ''GET'', hr_URL = ''https://chatgpt.com/backend-api/wham/usage'',
               hr_Header = [(''Authorization'', ''Bearer '' @ accessToken), (''Chatgpt-Account-Id'', accountID),
                 (''Accept'', ''application/json''), (''Originator'', ''codex_cli_rs'')], hr_Body = []\<rparr> of
              Inl e \<Rightarrow> failed (''quota request failed: '' @ e)
            | Inr (status, b) \<Rightarrow>
                if status \<noteq> 200 then statusError status
                else
                  case qe_codex env b of
                    None \<Rightarrow> failed ''invalid quota response''
                  | Some usage \<Rightarrow>
                     (let (primary, secondary) =
                        (case cu_RateLimit usage of
                           None \<Rightarrow> (cu_Primary usage, cu_Secondary usage)
                         | Some r \<Rightarrow> (orElse (cu_Primary usage) (orElse (cl_PrimaryWindow r) (cl_Primary r)),
                                      orElse (cu_Secondary usage) (orElse (cl_SecondaryWindow r) (cl_Secondary r))))
                      in Quota \<lparr>pq_Quotas = [quotaWindowToProto env primary, quotaWindowToProto env secondary],
                           pq_PlanType = cu_PlanType usage, pq_Error = []\<rparr>)))"

section \<open>Kimi\<close>

text \<open>
  Numbers of a decoder with \<open>UseNumber\<close> keep their text.  A number that cannot be parsed still has a
  value: zero, or an infinity when it is out of range.
\<close>

definition kimiNumberFloat :: "quota_env \<Rightarrow> json \<Rightarrow> float64 \<times> bool" where
  "kimiNumberFloat env v =
     (case v of JNum n \<Rightarrow> qe_parseFloat env n | JStr n \<Rightarrow> qe_parseFloat env n | _ \<Rightarrow> (Fin 0, False))"

text \<open>The minutes are computed in \<open>int64\<close>, where the multiplication wraps around, and converted to \<open>int32\<close>.\<close>

definition narrow32 :: "64 word \<Rightarrow> int" where
  "narrow32 minutes = (if sint minutes > 2 ^ 31 - 1 then 0 else sint (ucast minutes :: 32 word))"

definition kimiWindowMinutes :: "kimiUsageWindow \<Rightarrow> int" where
  "kimiWindowMinutes window =
     (let duration = word_of_int (kw_Duration window) in
      if kw_Duration window \<le> 0 then 0
      else if kw_TimeUnit window = ''TIME_UNIT_HOUR'' then narrow32 (duration * 60)
      else if kw_TimeUnit window = ''TIME_UNIT_DAY'' then narrow32 (duration * (24 * 60))
      else if kw_TimeUnit window = ''TIME_UNIT_WEEK'' then narrow32 (duration * (7 * 24 * 60))
      else if kw_TimeUnit window = ''TIME_UNIT_MINUTE'' then narrow32 duration
      else 0)"

definition kimiQuotaWindowToProto :: "quota_env \<Rightarrow> kimiUsageDetail option \<Rightarrow> kimiUsageWindow \<Rightarrow> ProviderQuotaWindow option" where
  "kimiQuotaWindowToProto env detail0 window =
     (case detail0 of
        None \<Rightarrow> None
      | Some detail \<Rightarrow>
         (let (used, usedOK) = kimiNumberFloat env (kd_Used detail);
              (limit, limitOK) = kimiNumberFloat env (kd_Limit detail)
          in
          if \<not> usedOK \<and> \<not> limitOK then None
          else Some \<lparr>qw_Name = [],
            qw_UsedPercent = (if flt (Fin 0) limit then fmul (fdiv used limit) (Fin 100) else Fin 0),
            qw_ResetsAt = kd_ResetTime detail, qw_WindowMinutes = kimiWindowMinutes window\<rparr>))"

definition kimiErrorMessage :: "json \<Rightarrow> string" where
  "kimiErrorMessage v = (case v of JStr e \<Rightarrow> e | JObj m \<Rightarrow> stringAt m ''message'' | _ \<Rightarrow> [])"

fun kimiDetailError :: "(string \<times> string) list \<Rightarrow> string option" where
  "kimiDetailError [] = None"
| "kimiDetailError ((reason, localized) # details) =
     (if reason = ''REASON_FEATURE_NO_PERMISSION'' then Some ''Kimi Code quota requires an active subscription''
      else if localized \<noteq> [] then Some localized
      else kimiDetailError details)"

definition kimiQuotaError :: "quota_env \<Rightarrow> int \<Rightarrow> bytes \<Rightarrow> string" where
  "kimiQuotaError env statusCode data =
     (let fallback = ''quota returned status '' @ itoa statusCode in
      case qe_kimiError env data of
        None \<Rightarrow> fallback
      | Some response \<Rightarrow>
         (case kimiDetailError (kr_Details response) of
            Some e \<Rightarrow> e
          | None \<Rightarrow>
              if kr_Message response \<noteq> [] then kr_Message response
              else if kimiErrorMessage (kr_Error response) \<noteq> [] then kimiErrorMessage (kr_Error response)
              else fallback))"

definition kimiPlanType :: "object \<Rightarrow> string" where
  "kimiPlanType credentials =
     (if trimSpace (stringAt credentials ''user_level_name'') \<noteq> [] then stringAt credentials ''user_level_name'' else ''Kimi Code'')"

definition loadKimiQuota :: "quota_env \<Rightarrow> object \<Rightarrow> bool \<Rightarrow> string \<Rightarrow> quota_result" where
  "loadKimiQuota env credentials useProxy proxyURL =
     (let accessToken = stringAt credentials ''access_token'';
          deviceID = stringAt credentials ''device_id''
      in
      if trimSpace accessToken = [] then failed ''Kimi credentials are incomplete''
      else
        case proxyHTTPClient env useProxy proxyURL of
          Inl _ \<Rightarrow> failed ''quota request failed''
        | Inr client \<Rightarrow>
           (case qe_do env client \<lparr>hr_Method = ''GET'', hr_URL = ''https://api.kimi.com/coding/v1/usages'',
               hr_Header = [(''Authorization'', ''Bearer '' @ accessToken), (''Accept'', ''application/json'')] @
                 (if trimSpace deviceID \<noteq> [] then [(''X-Msh-Device-Id'', deviceID)] else []), hr_Body = []\<rparr> of
              Inl _ \<Rightarrow> failed ''quota request failed''
            | Inr (status, b) \<Rightarrow>
               (case readLimited (2 ^ 20) b of
                  Inl _ \<Rightarrow> failed ''quota request failed''
                | Inr data \<Rightarrow>
                    if \<not> okStatus status then failed (kimiQuotaError env status data)
                    else
                      case qe_kimi env data of
                        None \<Rightarrow> failed ''invalid quota response''
                      | Some usage \<Rightarrow>
                         (let limits = List.map_filter (\<lambda>l. kimiQuotaWindowToProto env (kl_Detail l) (kl_Window l)) (ku_Limits usage);
                              weekly = kimiQuotaWindowToProto env (ku_Usage usage) \<lparr>kw_Duration = 1, kw_TimeUnit = ''TIME_UNIT_WEEK''\<rparr>;
                              windows = (if limits = [] then (case weekly of None \<Rightarrow> [] | Some w \<Rightarrow> [w]) else limits)
                          in
                          if windows = [] then failed ''quota unavailable''
                          else Quota \<lparr>pq_Quotas = map Some windows, pq_PlanType = kimiPlanType credentials, pq_Error = []\<rparr>))))"

section \<open>xAI\<close>

datatype xai_error = InvalidXAIQuotaResponse | XAIError string

definition xaiQuotaResponseMaxSize :: nat where
  "xaiQuotaResponseMaxSize = 64 * 1024"

definition loadXAIQuotaJSON :: "quota_env \<Rightarrow> (bytes \<Rightarrow> 'a option) \<Rightarrow> transport \<Rightarrow> string \<Rightarrow> string \<Rightarrow> string \<Rightarrow>
    int \<times> (xai_error + 'a)" where
  "loadXAIQuotaJSON env decode client endpoint accessToken userID =
     (case qe_do env client \<lparr>hr_Method = ''GET'', hr_URL = endpoint,
         hr_Header = [(''Authorization'', ''Bearer '' @ accessToken), (''Accept'', ''application/json''),
           (''X-XAI-Token-Auth'', ''xai-grok-cli''), (''x-grok-client-version'', ''0.2.120''), (''x-grok-client-mode'', ''headless'')] @
           (if userID \<noteq> [] then [(''x-userid'', userID)] else []), hr_Body = []\<rparr> of
        Inl e \<Rightarrow> (0, Inl (XAIError e))
      | Inr (status, b) \<Rightarrow>
          if \<not> okStatus status then (status, Inl (XAIError (''quota returned status '' @ itoa status)))
          else
            case readLimited (xaiQuotaResponseMaxSize + 1) b of
              Inl e \<Rightarrow> (0, Inl (XAIError e))
            | Inr data \<Rightarrow>
                if length data > xaiQuotaResponseMaxSize then (0, Inl InvalidXAIQuotaResponse)
                else
                  case decode data of
                    None \<Rightarrow> (0, Inl InvalidXAIQuotaResponse)
                  | Some v \<Rightarrow> (status, Inr v))"

definition xaiQuotaRequestError :: "int \<Rightarrow> xai_error \<Rightarrow> quota_result" where
  "xaiQuotaRequestError statusCode e =
     (if statusCode \<noteq> 0 then statusError statusCode
      else if e = InvalidXAIQuotaResponse then failed ''invalid quota response''
      else failed ''quota request failed'')"

definition validXAIUserID :: "string \<Rightarrow> bool" where
  "validXAIUserID userID \<longleftrightarrow> userID \<noteq> [] \<and> length userID \<le> 256 \<and>
     list_all (\<lambda>c. 33 \<le> (of_char c :: nat) \<and> (of_char c :: nat) \<le> 126) userID"

definition finite64 :: "float64 \<Rightarrow> bool" where
  "finite64 v \<longleftrightarrow> v \<noteq> NaN \<and> v \<noteq> PosInf \<and> v \<noteq> NegInf"

text \<open>\<open>Sub\<close> saturates at the largest duration.\<close>

definition xaiQuotaWindowMinutes :: "quota_env \<Rightarrow> string \<Rightarrow> string \<Rightarrow> int \<Rightarrow> int" where
  "xaiQuotaWindowMinutes env start finish fallback =
     (case (qe_parseTime env start, qe_parseTime env finish) of
        (Some startAt, Some endAt) \<Rightarrow>
         (let minutes = min (endAt - startAt) (2 ^ 63 - 1) div minute in
          if \<not> endAt > startAt then fallback
          else if minutes \<le> 0 \<or> minutes > 2 ^ 31 - 1 then fallback
          else minutes)
      | _ \<Rightarrow> fallback)"

definition xaiUsedPercent :: "float64 \<Rightarrow> float64" where
  "xaiUsedPercent v = (if flt v (Fin 0) then Fin 0 else if flt (Fin 100) v then Fin 100 else v)"

definition xaiWeeklyQuotaWindow :: "quota_env \<Rightarrow> xaiBillingConfig \<Rightarrow> ProviderQuotaWindow option" where
  "xaiWeeklyQuotaWindow env config =
     (case xc_CreditUsagePercent config of
        None \<Rightarrow> None
      | Some percent \<Rightarrow>
          if \<not> finite64 percent then None
          else
            let (resetAt, windowMinutes) =
              (case xc_CurrentPeriod config of
                 None \<Rightarrow> (xc_BillingPeriodEnd config, 7 * 24 * 60)
               | Some period \<Rightarrow>
                   (if trimSpace (xp_End period) \<noteq> [] then xp_End period else xc_BillingPeriodEnd config,
                    xaiQuotaWindowMinutes env (xp_Start period) (xp_End period) (7 * 24 * 60)))
            in Some \<lparr>qw_Name = ''Weekly'', qw_UsedPercent = xaiUsedPercent percent, qw_ResetsAt = resetAt,
                     qw_WindowMinutes = windowMinutes\<rparr>)"

definition xaiMonthlyQuotaWindow :: "quota_env \<Rightarrow> xaiBillingConfig \<Rightarrow> ProviderQuotaWindow option" where
  "xaiMonthlyQuotaWindow env config =
     (case (xc_MonthlyLimit config, xc_Used config) of
        (Some (Some limit), Some (Some used)) \<Rightarrow>
          if fle limit (Fin 0) \<or> flt used (Fin 0) \<or> \<not> finite64 limit \<or> \<not> finite64 used then None
          else Some \<lparr>qw_Name = ''Monthly'', qw_UsedPercent = xaiUsedPercent (fmul (fdiv used limit) (Fin 100)),
            qw_ResetsAt = xc_BillingPeriodEnd config,
            qw_WindowMinutes = xaiQuotaWindowMinutes env (xc_BillingPeriodStart config) (xc_BillingPeriodEnd config) (30 * 24 * 60)\<rparr>
      | _ \<Rightarrow> None)"

definition xaiPlanType :: "object \<Rightarrow> string" where
  "xaiPlanType credentials =
     (case firstText [''subscription_tier'', ''subscription_type'', ''plan_type''] credentials of None \<Rightarrow> ''Grok'' | Some v \<Rightarrow> v)"

definition loadXAIQuota :: "quota_env \<Rightarrow> object \<Rightarrow> bool \<Rightarrow> string \<Rightarrow> quota_result" where
  "loadXAIQuota env credentials useProxy proxyURL =
     (let accessToken = trimSpace (stringAt credentials ''access_token'') in
      if accessToken = [] then failed ''xAI credentials are incomplete''
      else
        case proxyHTTPClient env useProxy proxyURL of
          Inl _ \<Rightarrow> failed ''quota request failed''
        | Inr client \<Rightarrow>
           (case loadXAIQuotaJSON env (qe_xaiUser env) client ''https://cli-chat-proxy.grok.com/v1/user'' accessToken [] of
              (statusCode, Inl e) \<Rightarrow> xaiQuotaRequestError statusCode e
            | (_, Inr userID) \<Rightarrow>
                if \<not> validXAIUserID userID then failed ''invalid quota response''
                else
                  case loadXAIQuotaJSON env (qe_xaiBilling env) client
                      ''https://cli-chat-proxy.grok.com/v1/billing?format=credits'' accessToken userID of
                    (statusCode, Inl e) \<Rightarrow> xaiQuotaRequestError statusCode e
                  | (_, Inr billing) \<Rightarrow>
                     (case xb_Config billing of
                        None \<Rightarrow> failed ''quota unavailable''
                      | Some config \<Rightarrow>
                         (let primary0 = xaiWeeklyQuotaWindow env config;
                              secondary0 = xaiMonthlyQuotaWindow env config;
                              (primary, secondary) = (if primary0 = None then (secondary0, None) else (primary0, secondary0));
                              planType = trimSpace (xb_SubscriptionTier billing)
                          in
                          if primary = None then failed ''quota unavailable''
                          else Quota \<lparr>pq_Quotas = [primary, secondary],
                            pq_PlanType = (if planType = [] then xaiPlanType credentials else planType), pq_Error = []\<rparr>))))"

section \<open>All vendors\<close>

fun LoadQuota :: "quota_env \<Rightarrow> vendor \<Rightarrow> object \<Rightarrow> bool \<Rightarrow> string \<Rightarrow> quota_result" where
  "LoadQuota env Anthropic = loadAnthropicQuota env"
| "LoadQuota env Antigravity = loadAntigravityQuota env"
| "LoadQuota env Codex = loadCodexQuota env"
| "LoadQuota env Kimi = loadKimiQuota env"
| "LoadQuota env XAI = loadXAIQuota env"
| "LoadQuota env Custom = (\<lambda>_ _ _. failed ''not supported'')"
| "LoadQuota env OpencodeZen = (\<lambda>_ _ _. failed ''not supported'')"
| "LoadQuota env OpencodeGo = (\<lambda>_ _ _. failed ''not supported'')"
| "LoadQuota env Cline = (\<lambda>_ _ _. QuotaNil)"
| "LoadQuota env CursorVendor = (\<lambda>_ _ _. QuotaNil)"

section \<open>Percentages and window lengths\<close>

definition percent :: "float64 \<Rightarrow> bool" where
  "percent v \<longleftrightarrow> fle (Fin 0) v \<and> fle v (Fin 100)"

lemma percent_iff: "percent v \<longleftrightarrow> (\<exists>y. v = Fin y \<and> 0 \<le> y \<and> y \<le> 100)"
  by (cases v) (auto simp: percent_def)

lemma clampPercent_range: "v \<noteq> NaN \<Longrightarrow> percent (clampPercent v)"
  by (cases v) (auto simp: clampPercent_def percent_def flt_def)

lemma xaiUsedPercent_range: "v \<noteq> NaN \<Longrightarrow> percent (xaiUsedPercent v)"
  by (cases v) (auto simp: xaiUsedPercent_def percent_def flt_def)

lemma float_of_not_NaN: "float_of x \<noteq> NaN"
  by (simp add: float_of_def Let_def)

lemma share_not_NaN:
  assumes "finite64 used" "finite64 limit" "\<not> fle limit (Fin 0)"
  shows "fmul (fdiv used limit) (Fin 100) \<noteq> NaN"
proof -
  obtain a b where ab: "used = Fin a" "limit = Fin b" using assms(1,2) by (cases used; cases limit) (auto simp: finite64_def)
  then have "fdiv used limit \<noteq> NaN" using assms(3) float_of_not_NaN by simp
  then show ?thesis by (cases "fdiv used limit") (simp_all add: float_of_not_NaN)
qed

lemma antigravity_percent:
  assumes "ab_RemainingFraction bucket \<noteq> NaN"
  shows "percent (qw_UsedPercent (antigravityQuotaWindow bucket))"
proof -
  define r where "r = (let r = ab_RemainingFraction bucket; r = (if flt r (Fin 0) then Fin 0 else r)
    in if flt (Fin 1) r then Fin 1 else r)"
  have "fle (Fin 0) r \<and> fle r (Fin 1)"
    using assms by (cases "ab_RemainingFraction bucket") (auto simp: r_def flt_def Let_def)
  then obtain y where y: "r = Fin y" "0 \<le> y" "y \<le> 1" by (cases r) auto
  obtain z where z: "float_of (1 - y) = Fin z" "0 \<le> z" "z \<le> 1"
    using float_of_between [of "1 - y" 1] y by auto
  obtain u where u: "float_of (100 * z) = Fin u" "0 \<le> u" "u \<le> 100"
    using float_of_between [of "100 * z" 100] z by auto
  have "qw_UsedPercent (antigravityQuotaWindow bucket) = fmul (Fin 100) (fsub (Fin 1) r)"
    by (simp add: antigravityQuotaWindow_def r_def Let_def)
  then show ?thesis using y z u by (simp add: percent_def)
qed

lemma xaiQuotaWindowMinutes_range:
  "0 < fallback \<Longrightarrow> fallback < 2 ^ 31 \<Longrightarrow> 0 < xaiQuotaWindowMinutes env a b fallback \<and> xaiQuotaWindowMinutes env a b fallback < 2 ^ 31"
  by (auto simp: xaiQuotaWindowMinutes_def Let_def split: option.splits)

text \<open>The windows of a quota that are there.\<close>

definition windowsOK :: "quota_result \<Rightarrow> bool" where
  "windowsOK r \<longleftrightarrow> (\<forall>q w. r = Quota q \<longrightarrow> Some w \<in> set (pq_Quotas q) \<longrightarrow>
     percent (qw_UsedPercent w) \<and> 0 \<le> qw_WindowMinutes w \<and> qw_WindowMinutes w < 2 ^ 31)"

lemma windowsOK_failed [simp]: "windowsOK (failed msg)" "windowsOK (statusError n)" "windowsOK QuotaPanic" "windowsOK QuotaNil"
  "windowsOK (xaiQuotaRequestError n e)"
  by (simp_all add: windowsOK_def quotaError_def statusError_def xaiQuotaRequestError_def)

lemma windowsOK_Quota:
  "windowsOK (Quota q) \<longleftrightarrow> (\<forall>w. Some w \<in> set (pq_Quotas q) \<longrightarrow>
     percent (qw_UsedPercent w) \<and> 0 \<le> qw_WindowMinutes w \<and> qw_WindowMinutes w < 2 ^ 31)"
  by (simp add: windowsOK_def)

lemma anthropicQuotaWindow_range:
  assumes "anthropicQuotaWindow w m = Some v" "\<And>p. w \<noteq> None \<Longrightarrow> aw_Utilization (the w) = Some p \<Longrightarrow> p \<noteq> NaN"
  shows "percent (qw_UsedPercent v) \<and> qw_WindowMinutes v = m"
  using assms by (auto simp: anthropicQuotaWindow_def clampPercent_range split: option.splits)

lemma xaiWeekly_range:
  assumes "xaiWeeklyQuotaWindow env config = Some w"
  shows "percent (qw_UsedPercent w) \<and> 0 \<le> qw_WindowMinutes w \<and> qw_WindowMinutes w < 2 ^ 31"
  using assms xaiQuotaWindowMinutes_range [of "7 * 24 * 60" env]
  by (auto simp: xaiWeeklyQuotaWindow_def finite64_def intro!: xaiUsedPercent_range intro: less_imp_le
      split: option.splits if_splits prod.splits)

lemma xaiMonthly_range:
  assumes "xaiMonthlyQuotaWindow env config = Some w"
  shows "percent (qw_UsedPercent w) \<and> 0 \<le> qw_WindowMinutes w \<and> qw_WindowMinutes w < 2 ^ 31"
proof -
  obtain limit used where "finite64 used" "finite64 limit" "\<not> fle limit (Fin 0)"
    and "qw_UsedPercent w = xaiUsedPercent (fmul (fdiv used limit) (Fin 100))"
    and "qw_WindowMinutes w = xaiQuotaWindowMinutes env (xc_BillingPeriodStart config) (xc_BillingPeriodEnd config) (30 * 24 * 60)"
    using assms by (auto simp: xaiMonthlyQuotaWindow_def split: option.splits if_splits)
  then show ?thesis
    using xaiUsedPercent_range [OF share_not_NaN] xaiQuotaWindowMinutes_range [of "30 * 24 * 60" env] by (auto intro: less_imp_le)
qed

text \<open>JSON has no number that is not a number.\<close>

definition decodersFinite :: "quota_env \<Rightarrow> bool" where
  "decodersFinite env \<longleftrightarrow>
     (\<forall>b u w p. qe_anthropic env b = Some u \<longrightarrow> ar_FiveHour u = Some w \<or> ar_SevenDay u = Some w \<longrightarrow>
        aw_Utilization w = Some p \<longrightarrow> p \<noteq> NaN) \<and>
     (\<forall>b bs. qe_antigravity env b = Some bs \<longrightarrow> list_all (\<lambda>b. ab_RemainingFraction b \<noteq> NaN) bs)"

lemma loadAnthropicQuota_range:
  assumes "decodersFinite env"
  shows "windowsOK (loadAnthropicQuota env credentials useProxy proxyURL)"
proof -
  have "windowsOK (Quota \<lparr>pq_Quotas = [p, s], pq_PlanType = t, pq_Error = []\<rparr>)"
    if "qe_anthropic env b = Some u" "ar_FiveHour u = Some five" "ar_SevenDay u = Some seven"
      "{p, s} \<subseteq> {anthropicQuotaWindow (Some (five\<lparr>aw_Name := ''rate-limit''\<rparr>)) (5 * 60),
                   anthropicQuotaWindow (Some (seven\<lparr>aw_Name := ''weekly''\<rparr>)) (7 * 24 * 60), None}"
    for b u five seven p s t
  proof -
    have "aw_Utilization five = Some x \<Longrightarrow> x \<noteq> NaN" "aw_Utilization seven = Some x \<Longrightarrow> x \<noteq> NaN" for x
      using assms that(1-3) unfolding decodersFinite_def by blast+
    then have "anthropicQuotaWindow (Some (five\<lparr>aw_Name := ''rate-limit''\<rparr>)) (5 * 60) = Some w \<Longrightarrow> percent (qw_UsedPercent w) \<and> qw_WindowMinutes w = 300"
      "anthropicQuotaWindow (Some (seven\<lparr>aw_Name := ''weekly''\<rparr>)) (7 * 24 * 60) = Some w \<Longrightarrow> percent (qw_UsedPercent w) \<and> qw_WindowMinutes w = 10080" for w
      using anthropicQuotaWindow_range [of "Some (five\<lparr>aw_Name := ''rate-limit''\<rparr>)" "5 * 60" w]
        anthropicQuotaWindow_range [of "Some (seven\<lparr>aw_Name := ''weekly''\<rparr>)" "7 * 24 * 60" w] by simp_all
    then show ?thesis using that(4) by (auto simp: windowsOK_Quota)
  qed
  then show ?thesis
    by (auto simp: loadAnthropicQuota_def Let_def split: sum.splits option.splits)
qed

lemma loadAntigravityQuota_range:
  assumes "decodersFinite env"
  shows "windowsOK (loadAntigravityQuota env credentials useProxy proxyURL)"
proof -
  have "windowsOK (Quota \<lparr>pq_Quotas = map (\<lambda>b. Some (antigravityQuotaWindow b)) bs, pq_PlanType = t, pq_Error = []\<rparr>)"
    if "qe_antigravity env b = Some bs" for b bs t
    using assms that antigravity_percent
    by (fastforce simp: windowsOK_Quota decodersFinite_def list_all_iff antigravityQuotaWindow_def Let_def)
  then show ?thesis
    by (auto simp: loadAntigravityQuota_def Let_def split: sum.splits option.splits)
qed

lemma loadXAIQuota_range: "windowsOK (loadXAIQuota env credentials useProxy proxyURL)"
proof -
  have "windowsOK (Quota \<lparr>pq_Quotas = [p, s], pq_PlanType = t, pq_Error = []\<rparr>)"
    if "{p, s} \<subseteq> {xaiWeeklyQuotaWindow env config, xaiMonthlyQuotaWindow env config, None}" for p s t config
    using that xaiWeekly_range [of env config] xaiMonthly_range [of env config] by (auto simp: windowsOK_Quota)
  then show ?thesis
    by (auto simp: loadXAIQuota_def Let_def split: sum.splits option.splits prod.splits)
qed


text \<open>The window of Kimi in minutes, as long as the multiplication stays within 64 bits.\<close>

definition unitMinutes :: "string \<Rightarrow> int" where
  "unitMinutes u = (if u = ''TIME_UNIT_HOUR'' then 60 else if u = ''TIME_UNIT_DAY'' then 24 * 60
     else if u = ''TIME_UNIT_WEEK'' then 7 * 24 * 60 else if u = ''TIME_UNIT_MINUTE'' then 1 else 0)"

lemma sint_small: "0 \<le> i \<Longrightarrow> i < 2 ^ 63 \<Longrightarrow> sint (word_of_int i :: 64 word) = i"
  by (simp add: int_word_sint)

lemma narrow_small: "0 \<le> i \<Longrightarrow> i < 2 ^ 31 \<Longrightarrow> sint (ucast (word_of_int i :: 64 word) :: 32 word) = i"
proof -
  assume i: "0 \<le> i" "i < 2 ^ 31"
  then have "uint (word_of_int i :: 64 word) = i" by (simp add: uint_word_of_int)
  then have "(ucast (word_of_int i :: 64 word) :: 32 word) = word_of_int i" by (metis ucast_eq)
  then show ?thesis using i by (simp add: int_word_sint)
qed

lemma narrow32_prod:
  assumes "0 < d" "d * 10080 < 2 ^ 63" "0 \<le> k" "k \<le> 10080"
  shows "narrow32 (word_of_int d * word_of_int k) = (if d * k < 2 ^ 31 then d * k else 0)"
proof -
  have w: "(word_of_int d * word_of_int k :: 64 word) = word_of_int (d * k)" by simp
  have "d * k \<le> d * 10080" using assms by (intro mult_left_mono) auto
  then have m: "d * k < 2 ^ 63" using assms(2) by linarith
  have m0: "0 \<le> d * k" using assms by simp
  show ?thesis unfolding w narrow32_def using sint_small [OF m0 m] narrow_small [OF m0] by auto
qed

text \<open>
  C32: the used share of a window is a percentage for the vendors that clamp it (Anthropic, Antigravity
  and xAI), rounding of \<open>float64\<close> included, and the length of the window fits the \<open>int32\<close> of the message.
\<close>

theorem quota_windows_in_range:
  assumes "decodersFinite env" "v \<in> {Anthropic, Antigravity, XAI}"
    and "LoadQuota env v credentials useProxy proxyURL = Quota q" "Some w \<in> set (pq_Quotas q)"
  shows "percent (qw_UsedPercent w) \<and> 0 \<le> qw_WindowMinutes w \<and> qw_WindowMinutes w < 2 ^ 31"
proof -
  have "windowsOK (LoadQuota env v credentials useProxy proxyURL)"
    using assms(1,2) loadAnthropicQuota_range loadAntigravityQuota_range loadXAIQuota_range by auto
  then show ?thesis using assms(3,4) by (simp add: windowsOK_def)
qed

text \<open>
  the length of a Kimi window is its duration in minutes, or zero when that does not fit an
  \<open>int32\<close> or the unit is unknown, as long as the multiplication stays within 64 bits; beyond, it wraps around and
  a negative length can be reported.
\<close>

lemma kimi_window_minutes:
  assumes "0 < kw_Duration w" "kw_Duration w * 10080 < 2 ^ 63"
  shows "kimiWindowMinutes w =
      (let m = kw_Duration w * unitMinutes (kw_TimeUnit w) in if m < 2 ^ 31 then m else 0) \<and>
    kimiWindowMinutes \<lparr>kw_Duration = 2 ^ 58 + 2 ^ 26, kw_TimeUnit = ''TIME_UNIT_WEEK''\<rparr> = - (2 ^ 31)"
proof
  have "narrow32 (word_of_int (kw_Duration w) * word_of_int k) = (let m = kw_Duration w * k in if m < 2 ^ 31 then m else 0)"
    if "0 \<le> k" "k \<le> 10080" for k
    using narrow32_prod [of "kw_Duration w" k] assms that by (simp add: Let_def)
  note prod = this [of 60] this [of 1440] this [of 10080] this [of 1]
  show "kimiWindowMinutes w = (let m = kw_Duration w * unitMinutes (kw_TimeUnit w) in if m < 2 ^ 31 then m else 0)"
    using assms(1) prod [simplified] by (simp add: kimiWindowMinutes_def unitMinutes_def Let_def)
qed (code_simp)

text \<open>
  An answer of Anthropic that lacks one of the two windows makes loading the quota panic,
  although both are optional in the structure it is decoded into.
\<close>

lemma missing_window_panics:
  assumes "trimSpace (stringAt credentials ''access_token'') \<noteq> []"
    and "\<And>client req. qe_do env client req = Inr (200, b)" "qe_anthropic env b = Some usage"
    and "ar_FiveHour usage = None \<or> ar_SevenDay usage = None"
  shows "LoadQuota env Anthropic credentials False proxyURL = QuotaPanic"
  using assms by (auto simp: loadAnthropicQuota_def proxyHTTPClient_def okStatus_def Let_def split: option.splits)


section \<open>Witnesses\<close>

definition sample_quota_env :: quota_env where
  "sample_quota_env = \<lparr>qe_parseURL = (\<lambda>_. Inl ''no url''), qe_quote = (\<lambda>s. s), qe_do = (\<lambda>_ _. Inr (200, ([1], None))),
     qe_anthropic = (\<lambda>_. Some \<lparr>ar_FiveHour = None, ar_SevenDay = None, ar_PlanType = []\<rparr>),
     qe_antigravity = (\<lambda>_. Some [\<lparr>ab_ModelID = ''m'', ab_RemainingFraction = Fin (1 / 4), ab_ResetTime = []\<rparr>]),
     qe_codex = (\<lambda>_. None), qe_kimi = (\<lambda>_. None), qe_kimiError = (\<lambda>_. None), qe_xaiUser = (\<lambda>_. None), qe_xaiBilling = (\<lambda>_. None),
     qe_parseFloat = (\<lambda>_. (Fin 0, False)), qe_parseTime = (\<lambda>_. None), qe_formatUnix = (\<lambda>s. s)\<rparr>"

lemma sample_token: "trimSpace (stringAt [(''access_token'', JStr ''t'')] ''access_token'') = ''t''"
proof -
  have "trimSpace ''t'' = ''t''" by code_simp
  then show ?thesis by (simp add: stringAt_def)
qed

theorem quota_windows_in_range_witness:
  "\<exists>q w. LoadQuota sample_quota_env Antigravity [(''access_token'', JStr ''t'')] False [] = Quota q \<and> Some w \<in> set (pq_Quotas q) \<and>
     percent (qw_UsedPercent w) \<and> qw_WindowMinutes w < 2 ^ 31"
proof -
  define w where "w = antigravityQuotaWindow \<lparr>ab_ModelID = ''m'', ab_RemainingFraction = Fin (1 / 4), ab_ResetTime = []\<rparr>"
  have fin: "decodersFinite sample_quota_env" by (simp add: decodersFinite_def sample_quota_env_def)
  obtain q where q: "LoadQuota sample_quota_env Antigravity [(''access_token'', JStr ''t'')] False [] = Quota q" "Some w \<in> set (pq_Quotas q)"
    using sample_token
    by (simp add: loadAntigravityQuota_def Let_def proxyHTTPClient_def sample_quota_env_def readLimited_def okStatus_def w_def)
  show ?thesis using quota_windows_in_range [OF fin _ q] q by auto
qed

end
