(* ===== verification/Push.thy ===== *)
theory Push
  imports Push_Repo Provider_Repo Provider_Quota
begin

text \<open>
  Push notifications: the notifier and the quota watcher (\<open>src/internal/app/push\<close>) and the handlers of
  \<open>src/internal/driver/server/notifications.go\<close>.

  The notifier caches the VAPID keys it resolved; its cache is passed along with the database.
  Sending a push message (\<open>webpush-go\<close>), generating keys and encoding the payload are arguments;
  the messages handed to the push services are returned in order.
\<close>

section \<open>The notifier\<close>

record Payload =
  pl_Title :: string
  pl_Body :: string
  pl_Tag :: string
  pl_ProviderID :: string
  pl_Subject :: string
  pl_URL :: string
  pl_Urgent :: bool

record webpush =
  wp_Body :: bytes
  wp_Endpoint :: string
  wp_P256dh :: string
  wp_Auth :: string
  wp_Subscriber :: string
  wp_PublicKey :: string
  wp_PrivateKey :: string
  wp_TTL :: int
  wp_High :: bool

text \<open>\<open>pe_generate\<close> yields the private and the public key; an answer to a message is an error or a status.\<close>

record push_env =
  pe_VapidPublicKey :: string
  pe_VapidPrivateKey :: string
  pe_VapidSubject :: string
  pe_generate :: "string + (string \<times> string)"
  pe_marshal :: "Payload \<Rightarrow> bytes"
  pe_send :: "webpush \<Rightarrow> string + int"
  pe_now :: go_time

definition resolveKeys :: "push_env \<Rightarrow> VapidKeys option \<Rightarrow> db \<Rightarrow> (err + VapidKeys) \<times> VapidKeys option \<times> db" where
  "resolveKeys env cached d =
     (let op = ''push.Notifier.resolveKeys'' in
      case cached of
        Some keys \<Rightarrow> (Inr keys, cached, d)
      | None \<Rightarrow>
          if pe_VapidPublicKey env \<noteq> [] \<and> pe_VapidPrivateKey env \<noteq> [] then
            (let keys = \<lparr>vk_PublicKey = pe_VapidPublicKey env, vk_PrivateKey = pe_VapidPrivateKey env\<rparr>
             in (Inr keys, Some keys, d))
          else
            case GetVapidKeys d of
              (Inl e, d) \<Rightarrow> (Inl (Wrap op e), None, d)
            | (Inr (Some stored), d) \<Rightarrow> (Inr stored, Some stored, d)
            | (Inr None, d) \<Rightarrow>
               (case pe_generate env of
                  Inl e \<Rightarrow> (Inl (Wrap op (Plain e)), None, d)
                | Inr (privateKey, publicKey) \<Rightarrow>
                   (case SaveVapidKeys \<lparr>vk_PublicKey = publicKey, vk_PrivateKey = privateKey\<rparr> d of
                      (Inl e, d) \<Rightarrow> (Inl (Wrap op e), None, d)
                    | (Inr saved, d) \<Rightarrow> (Inr saved, Some saved, d))))"

definition PublicKey :: "push_env \<Rightarrow> VapidKeys option \<Rightarrow> db \<Rightarrow> (err + string) \<times> VapidKeys option \<times> db" where
  "PublicKey env cached d =
     (case resolveKeys env cached d of
        (Inl e, cached, d) \<Rightarrow> (Inl (Wrap ''push.Notifier.PublicKey'' e), cached, d)
      | (Inr keys, cached, d) \<Rightarrow> (Inr (vk_PublicKey keys), cached, d))"

definition Enabled :: "push_env \<Rightarrow> VapidKeys option \<Rightarrow> db \<Rightarrow> bool \<times> VapidKeys option \<times> db" where
  "Enabled env cached d =
     (case resolveKeys env cached d of
        (Inl e, cached, d) \<Rightarrow> (False, cached, d)
      | (Inr keys, cached, d) \<Rightarrow> (vk_PublicKey keys \<noteq> [] \<and> vk_PrivateKey keys \<noteq> [], cached, d))"

definition notificationTTL :: int where
  "notificationTTL = 86400"

definition message :: "push_env \<Rightarrow> VapidKeys \<Rightarrow> Payload \<Rightarrow> PushSubscription \<Rightarrow> webpush" where
  "message env keys payload sub =
     \<lparr>wp_Body = pe_marshal env payload, wp_Endpoint = ps_Endpoint sub, wp_P256dh = ps_P256dh sub, wp_Auth = ps_Auth sub,
      wp_Subscriber = pe_VapidSubject env, wp_PublicKey = vk_PublicKey keys, wp_PrivateKey = vk_PrivateKey keys,
      wp_TTL = notificationTTL, wp_High = pl_Urgent payload\<rparr>"

record delivery =
  dl_attempted :: nat
  dl_failed :: nat
  dl_lastErr :: "err option"
  dl_db :: db
  dl_sent :: "webpush list"

definition deliver :: "push_env \<Rightarrow> VapidKeys \<Rightarrow> Payload \<Rightarrow> PushSubscription \<Rightarrow> delivery \<Rightarrow> delivery" where
  "deliver env keys payload sub st =
     (if IsInAppEndpoint (ps_Endpoint sub) then st
      else
        let m = message env keys payload sub;
            st = st\<lparr>dl_attempted := dl_attempted st + 1, dl_sent := dl_sent st @ [m]\<rparr>
        in
        case pe_send env m of
          Inl e \<Rightarrow> st\<lparr>dl_failed := dl_failed st + 1, dl_lastErr := Some (Plain e)\<rparr>
        | Inr statusCode \<Rightarrow>
            if statusCode = 404 \<or> statusCode = 410 then
              st\<lparr>dl_db := snd (DeleteByEndpoint (ps_Endpoint sub) (dl_db st)), dl_failed := dl_failed st + 1,
                 dl_lastErr := Some (Plain (''push subscription gone: '' @ itoa statusCode))\<rparr>
            else if statusCode < 200 \<or> statusCode > 299 then
              st\<lparr>dl_failed := dl_failed st + 1, dl_lastErr := Some (Plain (''push endpoint returned '' @ itoa statusCode))\<rparr>
            else st)"

definition notifyResult :: "delivery \<Rightarrow> err + unit" where
  "notifyResult st =
     (case dl_lastErr st of
        Some e \<Rightarrow> if dl_attempted st > 0 \<and> dl_failed st = dl_attempted st then Inl (Wrap ''push.Notifier.Notify'' e) else Inr ()
      | None \<Rightarrow> Inr ())"

definition Notify :: "push_env \<Rightarrow> string \<Rightarrow> Payload \<Rightarrow> VapidKeys option \<Rightarrow> db \<Rightarrow>
    (err + unit) \<times> webpush list \<times> VapidKeys option \<times> db" where
  "Notify env subject payload0 cached d =
     (let op = ''push.Notifier.Notify'' in
      case resolveKeys env cached d of
        (Inl e, cached, d) \<Rightarrow> (Inl (Wrap op e), [], cached, d)
      | (Inr keys, cached, d) \<Rightarrow>
         (case SubscribersOf subject d of
            (Inl e, d) \<Rightarrow> (Inl (Wrap op e), [], cached, d)
          | (Inr subs, d) \<Rightarrow>
              if subs = [] then (Inr (), [], cached, d)
              else
                let payload = payload0\<lparr>pl_Subject := subject\<rparr>;
                    d = snd (AppendEvent (pe_now env)
                      \<lparr>ne_ID = 0, ne_Subject = subject, ne_Title = pl_Title payload, ne_Body = pl_Body payload,
                       ne_Tag = pl_Tag payload, ne_ProviderID = pl_ProviderID payload, ne_URL = pl_URL payload,
                       ne_CreatedAt = zeroTime\<rparr> d);
                    st = fold (deliver env keys payload) subs
                      \<lparr>dl_attempted = 0, dl_failed = 0, dl_lastErr = None, dl_db = d, dl_sent = []\<rparr>
                in
                (notifyResult st, dl_sent st, cached, dl_db st)))"

section \<open>The quota watcher\<close>

definition windowKey :: "ProviderQuotaWindow \<Rightarrow> string" where
  "windowKey window = qw_Name window @ ''|'' @ itoa (qw_WindowMinutes window)"

definition windowLabel :: "ProviderQuotaWindow \<Rightarrow> string" where
  "windowLabel window =
     (let minutes = qw_WindowMinutes window in
      if qw_Name window \<noteq> [] then qw_Name window
      else if minutes \<le> 0 then ''quota window''
      else if minutes mod 1440 = 0 then itoa (minutes div 1440) @ ''d window''
      else if minutes mod 60 = 0 then itoa (minutes div 60) @ ''h window''
      else itoa minutes @ ''m window'')"

text \<open>The constants 99.999 and 1.0 as \<open>float64\<close>.\<close>

definition exhaustedThreshold :: float64 where
  "exhaustedThreshold = float_of (99999 / 1000)"

definition resetDropThreshold :: float64 where
  "resetDropThreshold = Fin 1"

datatype event_kind = Exhausted | Reset

fun kindText :: "event_kind \<Rightarrow> string" where
  "kindText Exhausted = ''exhausted''"
| "kindText Reset = ''reset''"

record event =
  ev_kind :: event_kind
  ev_payload :: Payload

definition windowEvent :: "string \<Rightarrow> string \<Rightarrow> ProviderQuotaWindow \<Rightarrow> ProviderQuotaWindow \<Rightarrow> event option" where
  "windowEvent providerName providerID previous window =
     (let label = windowLabel window;
          tag = (\<lambda>kind. providerID @ '':'' @ label @ '':'' @ kindText kind)
      in
      if flt (qw_UsedPercent previous) (Fin 100) \<and> fle exhaustedThreshold (qw_UsedPercent window) then
        Some \<lparr>ev_kind = Exhausted, ev_payload =
          \<lparr>pl_Title = providerName @ '': quota exhausted'',
           pl_Body = (if qw_ResetsAt window \<noteq> [] then label @ '' is fully used. Resets at '' @ qw_ResetsAt window @ ''.''
                      else label @ '' is fully used.''),
           pl_Tag = tag Exhausted, pl_ProviderID = providerID, pl_Subject = [], pl_URL = ''/providers'', pl_Urgent = True\<rparr>\<rparr>
      else if flt (Fin 0) (qw_UsedPercent previous) \<and>
              fle (qw_UsedPercent window) (fsub (qw_UsedPercent previous) resetDropThreshold) then
        Some \<lparr>ev_kind = Reset, ev_payload =
          \<lparr>pl_Title = providerName @ '': quota refreshed'',
           pl_Body = label @ '' has '' @ showTenths (fsub (Fin 100) (qw_UsedPercent window)) @ ''% remaining.'',
           pl_Tag = tag Reset, pl_ProviderID = providerID, pl_Subject = [], pl_URL = ''/providers'', pl_Urgent = False\<rparr>\<rparr>
      else None)"

text \<open>A nil window is skipped; of two windows with the same key the later one counts.\<close>

definition present :: "ProviderQuota \<Rightarrow> ProviderQuotaWindow list" where
  "present quota = List.map_filter id (pq_Quotas quota)"

definition previousWindow :: "ProviderQuota \<Rightarrow> string \<Rightarrow> ProviderQuotaWindow option" where
  "previousWindow quota key = map_of (rev (map (\<lambda>w. (windowKey w, w)) (present quota))) key"

definition diffQuota :: "ProviderQuota \<Rightarrow> ProviderQuota \<Rightarrow> string \<Rightarrow> string \<Rightarrow> event list" where
  "diffQuota prev next1 providerName providerID =
     List.map_filter (\<lambda>window.
       case previousWindow prev (windowKey window) of
         None \<Rightarrow> None
       | Some previous \<Rightarrow> windowEvent providerName providerID previous window) (present next1)"

text \<open>The watcher: the last quota of each provider, the cache of the notifier, the database, what was sent.\<close>

record watcher =
  wa_previous :: "(string \<times> ProviderQuota) list"
  wa_keys :: "VapidKeys option"
  wa_db :: db
  wa_sent :: "webpush list"

definition notifyOne :: "push_env \<Rightarrow> string \<Rightarrow> event \<Rightarrow> watcher \<Rightarrow> watcher" where
  "notifyOne env subject ev w =
     (case Notify env subject (ev_payload ev) (wa_keys w) (wa_db w) of
        (_, sent, cached, d) \<Rightarrow> w\<lparr>wa_keys := cached, wa_db := d, wa_sent := wa_sent w @ sent\<rparr>)"

definition Observe :: "push_env \<Rightarrow> string \<Rightarrow> string \<Rightarrow> ProviderQuota \<Rightarrow> watcher \<Rightarrow> watcher" where
  "Observe env providerID providerName quota w =
     (let w' = w\<lparr>wa_previous := setKey providerID quota (wa_previous w)\<rparr> in
      case map_of (wa_previous w) providerID of
        None \<Rightarrow> w'
      | Some prev \<Rightarrow> fold (notifyOne env (QuotaTopic providerID)) (diffQuota prev quota providerName providerID) w')"

definition SubscribedProviderIDs :: "string list sql" where
  "SubscribedProviderIDs d =
     (case SubscribedSubjects d of
        (Inl e, d) \<Rightarrow> (Inl (Wrap ''push.QuotaWatcher.SubscribedProviderIDs'' e), d)
      | (Inr subjects, d) \<Rightarrow> (Inr (List.map_filter ProviderIDFromQuotaTopic subjects), d))"

section \<open>Handlers\<close>

text \<open>
  A subscription in a request: \<open>si_Keys\<close> is nil or the two keys; the getters of a nil message return
  empty strings.
\<close>

record subscription_input =
  si_Endpoint :: string
  si_Keys :: "(string \<times> string) option"
  si_ExpirationTime :: "int option"

definition keysOf :: "subscription_input \<Rightarrow> string \<times> string" where
  "keysOf s = (case si_Keys s of None \<Rightarrow> ([], []) | Some k \<Rightarrow> k)"

definition newSubscription :: "subscription_input \<Rightarrow> string \<Rightarrow> (string \<times> string) list \<Rightarrow> PushSubscription" where
  "newSubscription s userAgent labels =
     \<lparr>ps_ID = [], ps_Endpoint = si_Endpoint s, ps_P256dh = fst (keysOf s), ps_Auth = snd (keysOf s),
      ps_ExpirationTime = si_ExpirationTime s, ps_UserAgent = userAgent, ps_Labels = labels,
      ps_CreatedAt = zeroTime, ps_UpdatedAt = zeroTime\<rparr>"

definition Subscribe :: "go_time \<Rightarrow> string \<Rightarrow> ApiKey option option \<Rightarrow> string \<Rightarrow> subscription_input option \<Rightarrow> string \<Rightarrow>
    (string \<times> string) list \<Rightarrow> (string \<times> bool) sql" where
  "Subscribe now newID requester subject0 subscription userAgent labels d =
     (let subject = trimSpace subject0 in
      case requester of
        None \<Rightarrow> (Inl (Status Unauthenticated ''unauthenticated''), d)
      | Some r \<Rightarrow>
          if subject = [] then (Inl (Status InvalidArgument ''subject is required''), d)
          else
            case subscription of
              None \<Rightarrow> (Inl (Status InvalidArgument ''subscription endpoint is required''), d)
            | Some s \<Rightarrow>
                if trimSpace (si_Endpoint s) = [] then (Inl (Status InvalidArgument ''subscription endpoint is required''), d)
                else if \<not> IsInAppEndpoint (si_Endpoint s) \<and> (fst (keysOf s) = [] \<or> snd (keysOf s) = [])
                then (Inl (Status InvalidArgument ''subscription keys are required''), d)
                else
                  let store = (\<lambda>d.
                    case SubscribeRow now newID subject (newSubscription s userAgent labels) d of
                      (Inl e, d) \<Rightarrow> (Inl (Status Internal ''failed to store subscription''), d)
                    | (Inr r, d) \<Rightarrow> (Inr r, d))
                  in
                  case ProviderIDFromQuotaTopic subject of
                    None \<Rightarrow> store d
                  | Some providerID \<Rightarrow>
                      if (case r of None \<Rightarrow> False | Some k \<Rightarrow> \<not> ak_IsAdmin k \<and> providerID \<in> set (ak_RestrictedProviders k))
                      then (Inl (Status PermissionDenied ''permission denied''), d)
                      else
                        case GetProvider providerID d of
                          (Inl e, d) \<Rightarrow> (Inl (Status NotFound ''provider not found''), d)
                        | (Inr _, d) \<Rightarrow> store d)"

definition Unsubscribe :: "ApiKey option option \<Rightarrow> string \<Rightarrow> string \<Rightarrow> bool sql" where
  "Unsubscribe requester subject0 endpoint0 d =
     (let subject = trimSpace subject0; endpoint = trimSpace endpoint0 in
      if requester = None then (Inl (Status Unauthenticated ''unauthenticated''), d)
      else if subject = [] then (Inl (Status InvalidArgument ''subject is required''), d)
      else if endpoint = [] then (Inl (Status InvalidArgument ''endpoint is required''), d)
      else
        case UnsubscribeRow subject endpoint d of
          (Inl e, d) \<Rightarrow> (Inl (Status Internal ''failed to remove subscription''), d)
        | (Inr removed, d) \<Rightarrow> (Inr removed, d))"

definition ListSubscriptions :: "(string list \<Rightarrow> string list) \<Rightarrow> ApiKey option option \<Rightarrow> string \<Rightarrow> string list sql" where
  "ListSubscriptions collate requester endpoint0 d =
     (let endpoint = trimSpace endpoint0 in
      if requester = None then (Inl (Status Unauthenticated ''unauthenticated''), d)
      else if endpoint = [] then (Inl (Status InvalidArgument ''endpoint is required''), d)
      else
        case SubjectsByEndpoint collate endpoint d of
          (Inl e, d) \<Rightarrow> (Inl (Status Internal ''failed to list subscriptions''), d)
        | (Inr subjects, d) \<Rightarrow> (Inr subjects, d))"

definition notificationEventsLimit :: int where
  "notificationEventsLimit = 50"

text \<open>The answer holds the events themselves (the time is formatted for the client) and the last identifier.\<close>

definition lastID :: "int \<Rightarrow> NotificationEvent list \<Rightarrow> int" where
  "lastID afterID events = fold (\<lambda>ev l. if ne_ID ev > l then ne_ID ev else l) events afterID"

definition ListNotificationEvents :: "ApiKey option option \<Rightarrow> string \<Rightarrow> int \<Rightarrow> (NotificationEvent list \<times> int) sql" where
  "ListNotificationEvents requester endpoint0 afterID d =
     (let endpoint = trimSpace endpoint0 in
      if requester = None then (Inl (Status Unauthenticated ''unauthenticated''), d)
      else if endpoint = [] then (Inl (Status InvalidArgument ''endpoint is required''), d)
      else
        case EventsForEndpoint endpoint afterID notificationEventsLimit d of
          (Inl e, d) \<Rightarrow> (Inl (Status Internal ''failed to list notification events''), d)
        | (Inr events, d) \<Rightarrow> (Inr (events, lastID afterID events), d))"

text \<open>The public key and whether push is enabled; \<open>None\<close> is a server without a notifier.\<close>

definition GetPushConfig :: "push_env option \<Rightarrow> ApiKey option option \<Rightarrow> VapidKeys option \<Rightarrow> db \<Rightarrow>
    (err + (string \<times> bool)) \<times> VapidKeys option \<times> db" where
  "GetPushConfig notifier requester cached d =
     (if requester = None then (Inl (Status Unauthenticated ''unauthenticated''), cached, d)
      else
        case notifier of
          None \<Rightarrow> (Inr ([], False), cached, d)
        | Some env \<Rightarrow>
           (case PublicKey env cached d of
              (Inl e, cached, d) \<Rightarrow> (Inr ([], False), cached, d)
            | (Inr publicKey, cached, d) \<Rightarrow> (Inr (publicKey, publicKey \<noteq> []), cached, d)))"

section \<open>Events are delivered once\<close>

text \<open>The events a subscriber has not seen, in the order of their identifiers.\<close>

definition pending :: "db \<Rightarrow> string \<Rightarrow> int \<Rightarrow> NotificationEvent list" where
  "pending d endpoint afterID =
     filter (\<lambda>ev. (endpoint, ne_Subject ev) \<in> subscribed d \<and> ne_ID ev > afterID) (db_events d)"

text \<open>A client that asks again with the last identifier it got, \<open>n\<close> times.\<close>

fun pages :: "ApiKey option option \<Rightarrow> string \<Rightarrow> nat \<Rightarrow> int \<Rightarrow> db \<Rightarrow> NotificationEvent list" where
  "pages requester endpoint 0 afterID d = []"
| "pages requester endpoint (Suc n) afterID d =
     (case ListNotificationEvents requester endpoint afterID d of
        (Inl e, d) \<Rightarrow> []
      | (Inr (events, l), d) \<Rightarrow> events @ pages requester endpoint n l d)"

lemma sorted_events:
  assumes "pushWF d"
  shows "sort_key ne_ID (filter P (db_events d)) = filter P (db_events d)"
proof -
  have "sorted_wrt (<) (map ne_ID (filter P (db_events d)))"
    using assms by (simp add: pushWF_def sorted_wrt_map sorted_wrt_filter)
  then show ?thesis by (intro sort_key_id_if_sorted) (simp add: strict_sorted_imp_sorted)
qed

lemma EventsForEndpoint_pending:
  assumes "pushWF d" "db_faults d = []"
  shows "EventsForEndpoint endpoint afterID notificationEventsLimit d = (Inr (take 50 (pending d endpoint afterID)), d)"
  using assms
  by (simp add: EventsForEndpoint_def stmt_no_fault notificationEventsLimit_def set_topicsOf pending_def sorted_events)

lemma pending_sorted: "pushWF d \<Longrightarrow> sorted_wrt (<) (map ne_ID (pending d endpoint afterID))"
  by (simp add: pushWF_def pending_def sorted_wrt_map sorted_wrt_filter)

lemma lastID_sorted:
  assumes "sorted_wrt (<) (map ne_ID evs)" "\<forall>ev\<in>set evs. ne_ID ev > l"
  shows "lastID l evs = (if evs = [] then l else ne_ID (last evs))"
  using assms
proof (induction evs arbitrary: l)
  case (Cons ev evs)
  then have "lastID (ne_ID ev) evs = (if evs = [] then ne_ID ev else ne_ID (last evs))" by simp
  then show ?case using Cons.prems by (simp add: lastID_def)
qed (simp add: lastID_def)

text \<open>What is pending after a page is what was left out of it.\<close>

lemma filter_after_take:
  assumes "sorted_wrt (<) (map f xs)" "\<forall>x\<in>set xs. f x > (l :: int)"
  shows "filter (\<lambda>x. f x > (if take n xs = [] then l else f (last (take n xs)))) xs = drop n xs"
proof (cases "take n xs = []")
  case True
  then show ?thesis using assms(2) by (cases "n = 0") auto
next
  case False
  define p where "p = last (take n xs)"
  have split: "xs = take n xs @ drop n xs" by simp
  have "x \<in> set (take n xs) \<Longrightarrow> f x \<le> f p" for x
  proof -
    assume x: "x \<in> set (take n xs)"
    have "sorted (map f (take n xs))"
      unfolding take_map [symmetric] using strict_sorted_imp_sorted [OF assms(1)] by (rule sorted_wrt_take)
    moreover obtain ys where "take n xs = ys @ [p]" using False p_def by (metis append_butlast_last_id)
    ultimately show "f x \<le> f p" using x by (auto simp: sorted_append)
  qed
  moreover have "x \<in> set (drop n xs) \<Longrightarrow> f x > f p" for x
  proof -
    assume x: "x \<in> set (drop n xs)"
    have "p \<in> set (take n xs)" using False by (simp add: p_def)
    moreover have "sorted_wrt (<) (map f (take n xs @ drop n xs))" using assms(1) by simp
    ultimately show "f x > f p" using x by (auto simp only: map_append sorted_wrt_append set_map)
  qed
  ultimately have "filter (\<lambda>x. f x > f p) (take n xs) = []" "filter (\<lambda>x. f x > f p) (drop n xs) = drop n xs"
    by (auto simp: filter_empty_conv not_less filter_id_conv)
  then have "filter (\<lambda>x. f x > f p) xs = drop n xs" by (metis append_Nil filter_append split)
  then show ?thesis using False by (simp add: p_def)
qed


lemma pages_take:
  assumes "pushWF d" "db_faults d = []" "requester \<noteq> None" "trimSpace endpoint = endpoint" "endpoint \<noteq> []"
  shows "pages requester endpoint n afterID d = take (50 * n) (pending d endpoint afterID)"
proof (induction n arbitrary: afterID)
  case (Suc n)
  define p where "p = pending d endpoint afterID"
  define l where "l = lastID afterID (take 50 p)"
  have after: "\<forall>ev\<in>set p. ne_ID ev > afterID" by (simp add: p_def pending_def)
  have sorted: "sorted_wrt (<) (map ne_ID p)" using assms(1) by (simp add: p_def pending_sorted)
  have "sorted_wrt (<) (map ne_ID (take 50 p))" unfolding take_map [symmetric] using sorted by (rule sorted_wrt_take)
  then have l: "l = (if take 50 p = [] then afterID else ne_ID (last (take 50 p)))"
    unfolding l_def using after by (intro lastID_sorted) (auto dest: in_set_takeD)
  have "take 50 p \<noteq> [] \<Longrightarrow> last (take 50 p) \<in> set p" by (metis in_set_takeD last_in_set)
  then have ge: "l \<ge> afterID" using after l by (auto simp: less_imp_le split: if_splits)
  have "pending d endpoint l = filter (\<lambda>ev. ne_ID ev > l) p" using ge by (auto simp: p_def pending_def intro: filter_cong)
  also have "\<dots> = drop 50 p" using filter_after_take [OF sorted after, of 50] l by simp
  finally have "pages requester endpoint n l d = take (50 * n) (drop 50 p)" using Suc by simp
  moreover have "ListNotificationEvents requester endpoint afterID d = (Inr (take 50 p, l), d)"
    using assms EventsForEndpoint_pending [OF assms(1,2)] by (simp add: ListNotificationEvents_def p_def l_def)
  ultimately show ?case using take_add [of 50 "50 * n" p] by (simp add: p_def)
qed simp

text \<open>
  C21: a client that keeps asking with the last identifier it was given gets every event of its
  subjects exactly once and in order: after \<open>n\<close> requests the first \<open>50 n\<close> of them, so all of them once
  enough requests were made.
\<close>

theorem events_delivered_once:
  assumes "pushWF d" "db_faults d = []" "requester \<noteq> None" "trimSpace endpoint = endpoint" "endpoint \<noteq> []"
  shows "pages requester endpoint n afterID d = take (50 * n) (pending d endpoint afterID) \<and>
    (length (pending d endpoint afterID) \<le> 50 * n \<longrightarrow> pages requester endpoint n afterID d = pending d endpoint afterID) \<and>
    sorted_wrt (<) (map ne_ID (pages requester endpoint n afterID d))"
  using pages_take [OF assms, of n afterID] pending_sorted [OF assms(1), of endpoint afterID]
  by (simp flip: take_map add: sorted_wrt_take)

text \<open>
  \<open>Subscribe\<close> stores the endpoint as it was sent, while \<open>Unsubscribe\<close> and the listing trim it: a
  subscription whose endpoint has spaces around it stays, and can be neither listed nor ended.
\<close>

lemma untrimmed_endpoint_stuck:
  assumes "pushWF d" "(endpoint, subject) \<in> subscribed d" "trimSpace endpoint \<noteq> endpoint"
  shows "(endpoint, subject) \<in> subscribed (snd (Unsubscribe requester subject endpoint d)) \<and>
    (\<forall>subjects d'. ListSubscriptions id requester endpoint d = (Inr subjects, d') \<longrightarrow>
       set subjects = {s. (trimSpace endpoint, s) \<in> subscribed d})"
proof
  obtain r e where c: "UnsubscribeRow (trimSpace subject) (trimSpace endpoint) d = (r, e)" by fastforce
  have "subscribed e \<in> {subscribed d, subscribed d - {(trimSpace endpoint, trimSpace subject)}}"
    using UnsubscribeRow_effect [OF assms(1) c] by (cases r) simp_all
  moreover have "(endpoint, subject) \<noteq> (trimSpace endpoint, trimSpace subject)" using assms(3) by simp
  ultimately have "(endpoint, subject) \<in> subscribed e" using assms(2) by blast
  then show "(endpoint, subject) \<in> subscribed (snd (Unsubscribe requester subject endpoint d))"
    using c assms(2) by (simp add: Unsubscribe_def Let_def split: sum.splits)
  show "\<forall>subjects d'. ListSubscriptions id requester endpoint d = (Inr subjects, d') \<longrightarrow>
       set subjects = {s. (trimSpace endpoint, s) \<in> subscribed d}"
    by (auto simp: ListSubscriptions_def SubjectsByEndpoint_def stmt_def Let_def set_topicsOf
        split: list.splits option.splits if_splits sum.splits prod.splits)
qed

section \<open>Delivery\<close>

definition gone :: "push_env \<Rightarrow> VapidKeys \<Rightarrow> Payload \<Rightarrow> PushSubscription \<Rightarrow> bool" where
  "gone env keys payload sub \<longleftrightarrow> \<not> IsInAppEndpoint (ps_Endpoint sub) \<and> pe_send env (message env keys payload sub) \<in> {Inr 404, Inr 410}"

definition accepted :: "push_env \<Rightarrow> VapidKeys \<Rightarrow> Payload \<Rightarrow> PushSubscription \<Rightarrow> bool" where
  "accepted env keys payload sub \<longleftrightarrow> (\<exists>s. pe_send env (message env keys payload sub) = Inr s \<and> 200 \<le> s \<and> s \<le> 299)"

definition external :: "PushSubscription list \<Rightarrow> PushSubscription list" where
  "external subs = filter (\<lambda>sub. \<not> IsInAppEndpoint (ps_Endpoint sub)) subs"

definition started :: "db \<Rightarrow> delivery" where
  "started d = \<lparr>dl_attempted = 0, dl_failed = 0, dl_lastErr = None, dl_db = d, dl_sent = []\<rparr>"

lemma DeleteByEndpoint_frame:
  "db_events (snd (DeleteByEndpoint e d)) = db_events d" "db_faults d = [] \<Longrightarrow> db_faults (snd (DeleteByEndpoint e d)) = []"
  by (auto simp: DeleteByEndpoint_def stmt_def split: list.splits option.splits)

lemma DeleteByEndpoint_no_fault:
  assumes "pushWF d" "db_faults d = []"
  shows "pushWF (snd (DeleteByEndpoint e d)) \<and> subscribed (snd (DeleteByEndpoint e d)) = {p \<in> subscribed d. fst p \<noteq> e}"
proof -
  obtain r d' where c: "DeleteByEndpoint e d = (r, d')" by fastforce
  moreover from this have "r = Inr ()" using assms(2) by (auto simp: DeleteByEndpoint_def stmt_def)
  ultimately show ?thesis using DeleteByEndpoint_effect [OF assms(1) c] by simp
qed

text \<open>What a delivery to \<open>subs\<close> has done.\<close>

definition delivered :: "push_env \<Rightarrow> VapidKeys \<Rightarrow> Payload \<Rightarrow> PushSubscription list \<Rightarrow> db \<Rightarrow> delivery \<Rightarrow> bool" where
  "delivered env keys payload subs d st \<longleftrightarrow>
     dl_sent st = map (message env keys payload) (external subs) \<and>
     dl_attempted st = length (external subs) \<and>
     dl_failed st = length (filter (\<lambda>s. \<not> accepted env keys payload s) (external subs)) \<and>
     (dl_lastErr st = None \<longleftrightarrow> dl_failed st = 0) \<and>
     pushWF (dl_db st) \<and> db_faults (dl_db st) = [] \<and> db_events (dl_db st) = db_events d \<and>
     subscribed (dl_db st) = {p \<in> subscribed d. fst p \<notin> ps_Endpoint ` {s \<in> set subs. gone env keys payload s}}"

lemma deliver_step:
  assumes "delivered env keys payload subs d st"
  shows "delivered env keys payload (subs @ [s]) d (deliver env keys payload s st)"
proof (cases "gone env keys payload s")
  case True
  then obtain c where c: "\<not> IsInAppEndpoint (ps_Endpoint s)" "pe_send env (message env keys payload s) = Inr c" "c = 404 \<or> c = 410"
    by (auto simp: gone_def)
  have na: "\<not> accepted env keys payload s" using c by (auto simp: accepted_def)
  define st' where "st' = deliver env keys payload s st"
  have st': "dl_db st' = snd (DeleteByEndpoint (ps_Endpoint s) (dl_db st))" "dl_failed st' = dl_failed st + 1" "dl_lastErr st' \<noteq> None"
    "dl_attempted st' = dl_attempted st + 1" "dl_sent st' = dl_sent st @ [message env keys payload s]"
    using c by (auto simp: st'_def deliver_def Let_def)
  have del: "pushWF (dl_db st')" "subscribed (dl_db st') = {p \<in> subscribed (dl_db st). fst p \<noteq> ps_Endpoint s}"
    "db_faults (dl_db st') = []" "db_events (dl_db st') = db_events d"
    using assms DeleteByEndpoint_no_fault [of "dl_db st"] by (simp_all add: delivered_def st' DeleteByEndpoint_frame)
  have "ps_Endpoint ` {x \<in> set (subs @ [s]). gone env keys payload x} =
      insert (ps_Endpoint s) (ps_Endpoint ` {x \<in> set subs. gone env keys payload x})" using True by auto
  then have "subscribed (dl_db st') = {p \<in> subscribed d. fst p \<notin> ps_Endpoint ` {x \<in> set (subs @ [s]). gone env keys payload x}}"
    using assms del(2) by (auto simp: delivered_def)
  then show ?thesis using assms c(1) na st' del unfolding st'_def [symmetric] by (simp add: delivered_def external_def)
next
  case False
  then have "{x \<in> set (subs @ [s]). gone env keys payload x} = {x \<in> set subs. gone env keys payload x}" by auto
  then show ?thesis using assms False
    by (cases "pe_send env (message env keys payload s)")
      (auto simp: delivered_def deliver_def external_def accepted_def gone_def Let_def)
qed

lemma deliver_all:
  assumes "pushWF d" "db_faults d = []"
  shows "delivered env keys payload subs d (fold (deliver env keys payload) subs (started d))"
proof (induction subs rule: rev_induct)
  case Nil
  then show ?case using assms by (simp add: delivered_def external_def started_def)
next
  case (snoc s subs)
  then show ?case using deliver_step by simp
qed

text \<open>Resolving the keys touches nothing but the key table; a stored pair is never replaced.\<close>

lemma GetVapidKeys_result:
  assumes "GetVapidKeys d = (r, d')"
  shows "d' = d\<lparr>db_faults := tl (db_faults d)\<rparr> \<and> (\<forall>v. r = Inr v \<longrightarrow> v = db_vapid d)"
  by (cases rule: stmt_cases [of "''postgres.push_repo.GetVapidKeys''" "\<lambda>d. (Inr (db_vapid d), d)" d])
    (use assms in \<open>auto simp: GetVapidKeys_def\<close>)

lemma SaveVapidKeys_result:
  assumes "SaveVapidKeys keys d = (r, d')"
  shows "(\<exists>v fs. d' = d\<lparr>db_vapid := v, db_faults := fs\<rparr> \<and> (db_faults d = [] \<longrightarrow> fs = []) \<and>
    (\<forall>k. db_vapid d = Some k \<longrightarrow> v = Some k) \<and> (\<forall>k. r = Inr k \<longrightarrow> v = Some k))"
proof -
  obtain r1 d1 where c1: "stmt ''postgres.push_repo.SaveVapidKeys'' (\<lambda>d.
      (Inr (), case db_vapid d of None \<Rightarrow> d\<lparr>db_vapid := Some keys\<rparr> | Some _ \<Rightarrow> d)) d = (r1, d1)" by fastforce
  obtain r2 d2 where c2: "GetVapidKeys d1 = (r2, d2)" by fastforce
  have e1: "\<exists>v fs. d1 = d\<lparr>db_vapid := v, db_faults := fs\<rparr> \<and> (db_faults d = [] \<longrightarrow> fs = []) \<and> (\<forall>k. db_vapid d = Some k \<longrightarrow> v = Some k)"
  proof -
    have "d1 = d\<lparr>db_faults := tl (db_faults d)\<rparr> \<or>
        db_vapid d = None \<and> d1 = d\<lparr>db_vapid := Some keys, db_faults := tl (db_faults d)\<rparr>"
      by (cases rule: stmt_cases [of "''postgres.push_repo.SaveVapidKeys''" "\<lambda>d.
          (Inr (), case db_vapid d of None \<Rightarrow> d\<lparr>db_vapid := Some keys\<rparr> | Some _ \<Rightarrow> d)" d]; cases "db_vapid d")
        (use c1 in auto)
    then show ?thesis
    proof
      assume "d1 = d\<lparr>db_faults := tl (db_faults d)\<rparr>"
      then show ?thesis by (intro exI [of _ "db_vapid d"] exI [of _ "tl (db_faults d)"]) simp
    next
      assume "db_vapid d = None \<and> d1 = d\<lparr>db_vapid := Some keys, db_faults := tl (db_faults d)\<rparr>"
      then show ?thesis by (intro exI [of _ "Some keys"] exI [of _ "tl (db_faults d)"]) simp
    qed
  qed
  have res: "(r, d') = (case r1 of Inl e \<Rightarrow> (Inl e, d1) | Inr _ \<Rightarrow>
      (case r2 of Inl e \<Rightarrow> (Inl e, d2)
       | Inr None \<Rightarrow> (Inl (Plain ''postgres.push_repo.SaveVapidKeys: keys missing after insert''), d2)
       | Inr (Some stored) \<Rightarrow> (Inr stored, d2)))"
    using assms c1 c2 by (simp add: SaveVapidKeys_def split: sum.splits option.splits)
  from e1 obtain v fs where v: "d1 = d\<lparr>db_vapid := v, db_faults := fs\<rparr>" "db_faults d = [] \<longrightarrow> fs = []"
    "\<forall>k. db_vapid d = Some k \<longrightarrow> v = Some k" by blast
  have d2: "d2 = d\<lparr>db_vapid := v, db_faults := tl fs\<rparr>" "\<forall>w. r2 = Inr w \<longrightarrow> w = v"
    using GetVapidKeys_result [OF c2] v(1) by auto
  have "d' = d\<lparr>db_vapid := v, db_faults := fs\<rparr> \<and> (\<exists>e. r = Inl e) \<or>
      d' = d\<lparr>db_vapid := v, db_faults := tl fs\<rparr> \<and> (\<forall>k. r = Inr k \<longrightarrow> v = Some k)"
    using res v(1) d2 by (auto split: sum.splits option.splits)
  then show ?thesis using v(2,3) by force
qed

lemma resolveKeys_result:
  assumes "resolveKeys env cached d = (r, c, d')"
  shows "(\<exists>v fs. d' = d\<lparr>db_vapid := v, db_faults := fs\<rparr> \<and> (db_faults d = [] \<longrightarrow> fs = []) \<and>
    (\<forall>k. db_vapid d = Some k \<longrightarrow> v = Some k) \<and>
    (\<forall>k. r = Inr k \<longrightarrow> c = Some k \<and> (cached = None \<and> (pe_VapidPublicKey env = [] \<or> pe_VapidPrivateKey env = []) \<longrightarrow> v = Some k)))"
proof (cases "cached \<noteq> None \<or> pe_VapidPublicKey env \<noteq> [] \<and> pe_VapidPrivateKey env \<noteq> []")
  case True
  then have "d' = d \<and> (\<forall>k. r = Inr k \<longrightarrow> c = Some k)" using assms by (auto simp: resolveKeys_def Let_def split: option.splits if_splits)
  then show ?thesis using True by (intro exI [of _ "db_vapid d"] exI [of _ "db_faults d"]) auto
next
  case False
  obtain r1 d1 where c1: "GetVapidKeys d = (r1, d1)" by fastforce
  have e1: "d1 = d\<lparr>db_faults := tl (db_faults d)\<rparr>" "\<forall>v. r1 = Inr v \<longrightarrow> v = db_vapid d" using GetVapidKeys_result [OF c1] by auto
  show ?thesis
  proof (cases "\<exists>priv pub. r1 = Inr None \<and> pe_generate env = Inr (priv, pub)")
    case True
    then obtain priv pub where g: "r1 = Inr None" "pe_generate env = Inr (priv, pub)" by blast
    obtain r2 d2 where c2: "SaveVapidKeys \<lparr>vk_PublicKey = pub, vk_PrivateKey = priv\<rparr> d1 = (r2, d2)" by fastforce
    have "d' = d2 \<and> (\<forall>k. r = Inr k \<longrightarrow> c = Some k \<and> r2 = Inr k)"
      using assms False c1 g c2 by (auto simp: resolveKeys_def Let_def split: sum.splits)
    moreover obtain v fs where "d2 = d1\<lparr>db_vapid := v, db_faults := fs\<rparr>" "db_faults d1 = [] \<longrightarrow> fs = []"
      "\<forall>k. db_vapid d1 = Some k \<longrightarrow> v = Some k" "\<forall>k. r2 = Inr k \<longrightarrow> v = Some k"
      using SaveVapidKeys_result [OF c2] by auto
    ultimately show ?thesis using e1 by (intro exI [of _ v] exI [of _ fs]) auto
  next
    case ng: False
    have "d' = d1 \<and> (\<forall>k. r = Inr k \<longrightarrow> c = Some k \<and> r1 = Inr (Some k))"
      using assms False c1 ng by (auto simp: resolveKeys_def Let_def split: sum.splits option.splits prod.splits)
    then show ?thesis using e1 by (intro exI [of _ "db_vapid d"] exI [of _ "tl (db_faults d)"]) auto
  qed
qed

lemma SubscribersOf_no_fault:
  "pushWF d \<Longrightarrow> db_faults d = [] \<Longrightarrow> SubscribersOf subject d = (Inr (subscribersOf subject d), d)"
  by (simp add: SubscribersOf_def stmt_no_fault SubscribersOf_eq subscribersOf_def)


lemma subscribersOf_order:
  assumes "pushWF d"
  shows "map ps_Endpoint (subscribersOf subject d) = filter (\<lambda>e. (e, subject) \<in> subscribed d) (map ps_Endpoint (db_subs d))"
proof -
  have "x \<in> set (db_subs d) \<Longrightarrow> (ps_ID x, subject) \<in> set (db_topics d) \<longleftrightarrow> (ps_Endpoint x, subject) \<in> subscribed d" for x
    unfolding subscribed_iff using sub_eq [OF assms] by blast
  then show ?thesis by (auto simp: subscribersOf_def filter_map comp_def cong: filter_cong)
qed

lemma all_failed_iff: "length (filter P xs) = length xs \<longleftrightarrow> (\<forall>x\<in>set xs. P x)"
  by (induction xs) (auto simp: not_less intro: le_SucI dest: sym, metis Suc_n_not_le_n length_filter_le)

lemma AppendEvent_no_fault:
  assumes "db_faults d = []"
  shows "db_faults (snd (AppendEvent now ev d)) = []" "db_subs (snd (AppendEvent now ev d)) = db_subs d"
    "map ne_Subject (db_events (snd (AppendEvent now ev d))) = map ne_Subject (db_events d) @ [ne_Subject ev]"
  using assms by (simp_all add: AppendEvent_def stmt_no_fault)

text \<open>
  C22: a notification reaches every subscriber of its subject: with the database answering, exactly one
  message per subscription that is not an in-app one is handed to the push services, in the order of
  the table; one event is stored if anybody is subscribed, which in-app subscribers read; endpoints
  that are gone lose all their subscriptions and nothing else changes; and an error is returned exactly
  when there were messages and none was accepted.
\<close>

theorem notify_reaches_subscribers:
  assumes "pushWF d" "db_faults d = []" "resolveKeys env cached d = (Inr keys, cached', d1)"
    and "Notify env subject payload cached d = (r, sent, cached', d')"
  defines "subs \<equiv> subscribersOf subject d" and "p \<equiv> payload\<lparr>pl_Subject := subject\<rparr>"
  shows "sent = map (message env keys p) (external subs) \<and>
    map ps_Endpoint subs = filter (\<lambda>e. (e, subject) \<in> subscribed d) (map ps_Endpoint (db_subs d)) \<and>
    map ne_Subject (db_events d') = map ne_Subject (db_events d) @ (if subs = [] then [] else [subject]) \<and>
    subscribed d' = {q \<in> subscribed d. fst q \<notin> ps_Endpoint ` {s \<in> set subs. gone env keys p s}} \<and>
    ((\<exists>e. r = Inl e) \<longleftrightarrow> external subs \<noteq> [] \<and> (\<forall>s\<in>set (external subs). \<not> accepted env keys p s))"
proof -
  obtain v where d1: "d1 = d\<lparr>db_vapid := v, db_faults := []\<rparr>"
    using resolveKeys_result [OF assms(3)] assms(2) by auto
  have wf1: "pushWF d1" "db_faults d1 = []" "subscribed d1 = subscribed d" "db_events d1 = db_events d"
    using assms(1,2) by (simp_all add: d1 pushWF_def subscribed_def)
  have subs: "SubscribersOf subject d1 = (Inr subs, d1)"
    using SubscribersOf_no_fault [OF wf1(1,2), of subject] by (simp add: subs_def subscribersOf_def d1)
  have eps: "map ps_Endpoint subs = filter (\<lambda>e. (e, subject) \<in> subscribed d) (map ps_Endpoint (db_subs d))"
    unfolding subs_def by (rule subscribersOf_order [OF assms(1)])
  show ?thesis
  proof (cases "subs = []")
    case True
    then have "(r, sent, d') = (Inr (), [], d1)" using assms(3,4) subs by (simp add: Notify_def)
    then show ?thesis using True wf1 eps by (simp add: external_def)
  next
    case False
    define ev where "ev = \<lparr>ne_ID = 0, ne_Subject = subject, ne_Title = pl_Title p, ne_Body = pl_Body p, ne_Tag = pl_Tag p,
      ne_ProviderID = pl_ProviderID p, ne_URL = pl_URL p, ne_CreatedAt = zeroTime\<rparr>"
    define d2 where "d2 = snd (AppendEvent (pe_now env) ev d1)"
    define st where "st = fold (deliver env keys p) subs (started d2)"
    have wf2: "pushWF d2" "db_faults d2 = []" "subscribed d2 = subscribed d" "map ne_Subject (db_events d2) = map ne_Subject (db_events d) @ [subject]"
      using AppendEvent_wf [OF wf1(1), of "pe_now env" ev] AppendEvent_no_fault [OF wf1(2), of "pe_now env" ev] wf1(3,4)
      by (simp_all add: d2_def ev_def)
    have st: "delivered env keys p subs d2 st" unfolding st_def by (rule deliver_all [OF wf2(1,2)])
    have out: "(r, sent, d') = (notifyResult st, dl_sent st, dl_db st)"
      using assms(3,4) subs False by (simp add: Notify_def Let_def st_def started_def d2_def ev_def p_def)
    have "(\<exists>e. r = Inl e) \<longleftrightarrow> dl_attempted st > 0 \<and> dl_failed st = dl_attempted st"
      using out st by (auto simp: delivered_def notifyResult_def split: option.splits)
    also have "\<dots> \<longleftrightarrow> external subs \<noteq> [] \<and> (\<forall>s\<in>set (external subs). \<not> accepted env keys p s)"
      using st by (simp add: delivered_def all_failed_iff)
    finally show ?thesis using out st wf2 eps False by (simp add: delivered_def)
  qed
qed


text \<open>
  The watcher compares the last percentage with 100 and the new one with 99.999, so a quota
  that stays between the two is announced as exhausted again at every observation.
\<close>

lemma exhausted_announced_again:
  assumes "present q = [w]" "fle exhaustedThreshold (qw_UsedPercent w)" "flt (qw_UsedPercent w) (Fin 100)"
  shows "\<exists>ev. diffQuota q q providerName providerID = [ev] \<and> ev_kind ev = Exhausted"
  using assms by (simp add: diffQuota_def previousWindow_def windowEvent_def Let_def List.map_filter_def)


section \<open>Witnesses\<close>

definition sample_push_env :: push_env where
  "sample_push_env = \<lparr>pe_VapidPublicKey = [], pe_VapidPrivateKey = [], pe_VapidSubject = ''mailto:admin'',
     pe_generate = Inr (''priv'', ''pub''), pe_marshal = (\<lambda>p. bytes_of (pl_Title p)), pe_send = (\<lambda>_. Inr 410), pe_now = 5\<rparr>"

definition laptop :: PushSubscription where
  "laptop = phone\<lparr>ps_ID := ''s1'', ps_Endpoint := ''https://push/1''\<rparr>"

definition laptop_db :: db where
  "laptop_db = push_db\<lparr>db_subs := [laptop], db_topics := [(''s1'', ''news'')]\<rparr>"

definition news :: Payload where
  "news = \<lparr>pl_Title = ''t'', pl_Body = ''b'', pl_Tag = [], pl_ProviderID = [], pl_Subject = [], pl_URL = [], pl_Urgent = False\<rparr>"

lemma laptop_db_wf: "pushWF laptop_db" "db_faults laptop_db = []"
  by (simp_all add: pushWF_def laptop_db_def push_db_def laptop_def phone_def)

lemma laptop_external: "\<not> IsInAppEndpoint ''https://push/1''"
proof -
  have "trimSpace ''https://push/1'' = ''https://push/1''" by code_simp
  then show ?thesis by (simp add: IsInAppEndpoint_def InAppEndpointPrefix_def hasPrefix_def)
qed

definition new_keys :: VapidKeys where
  "new_keys = \<lparr>vk_PublicKey = ''pub'', vk_PrivateKey = ''priv''\<rparr>"

lemma laptop_keys: "resolveKeys sample_push_env None laptop_db = (Inr new_keys, Some new_keys, laptop_db\<lparr>db_vapid := Some new_keys\<rparr>)"
  by (simp add: resolveKeys_def sample_push_env_def GetVapidKeys_def SaveVapidKeys_def stmt_no_fault laptop_db_def push_db_def
      Let_def new_keys_def)

lemma laptop_subscribers: "subscribersOf ''news'' laptop_db = [laptop]"
  by (simp add: subscribersOf_def laptop_db_def laptop_def push_db_def)

text \<open>The only subscriber of a subject is gone: its subscription ends and the call reports the failure.\<close>

theorem notify_reaches_subscribers_witness:
  "\<exists>e m c d'. Notify sample_push_env ''news'' news None laptop_db = (Inl e, [m], c, d') \<and>
     wp_Endpoint m = ''https://push/1'' \<and> subscribed d' = {} \<and> map ne_Subject (db_events d') = [''news'']"
proof -
  obtain r sent c d' where n: "Notify sample_push_env ''news'' news None laptop_db = (r, sent, c, d')" by (metis prod_cases4)
  have "c = Some new_keys" using n laptop_keys by (auto simp: Notify_def Let_def split: prod.splits sum.splits if_splits)
  note p = notify_reaches_subscribers [OF laptop_db_wf laptop_keys n [unfolded this], unfolded laptop_subscribers]
  have ext: "external [laptop] = [laptop]" using laptop_external by (simp add: external_def laptop_def)
  have ng: "gone sample_push_env new_keys p laptop" "\<not> accepted sample_push_env new_keys p laptop" for p
    using laptop_external by (auto simp: gone_def accepted_def sample_push_env_def laptop_def)
  have "subscribed laptop_db = {(''https://push/1'', ''news'')}" "db_events laptop_db = []"
    by (auto simp: subscribed_def laptop_db_def laptop_def push_db_def)
  then show ?thesis using p n ext ng by (auto simp: message_def laptop_def)
qed


definition nearly :: ProviderQuotaWindow where
  "nearly = \<lparr>qw_Name = ''weekly'', qw_UsedPercent = Fin (199999 / 2000), qw_ResetsAt = [], qw_WindowMinutes = 10080\<rparr>"

theorem exhausted_announced_again_witness:
  "\<exists>ev. diffQuota \<lparr>pq_Quotas = [Some nearly], pq_PlanType = [], pq_Error = []\<rparr>
      \<lparr>pq_Quotas = [Some nearly], pq_PlanType = [], pq_Error = []\<rparr> ''P'' ''p1'' = [ev] \<and> ev_kind ev = Exhausted"
proof -
  have thr: "exhaustedThreshold = Fin (3518402024511111 / 35184372088832)" by code_simp
  have "fle exhaustedThreshold (qw_UsedPercent nearly)" "flt (qw_UsedPercent nearly) (Fin 100)"
    unfolding thr nearly_def by (simp_all add: flt_def)
  then show ?thesis
    by (intro exhausted_announced_again [where w = nearly]) (simp add: present_def List.map_filter_def)
qed

definition spaced_db :: db where
  "spaced_db = push_db\<lparr>db_subs := [phone\<lparr>ps_ID := ''s1'', ps_Endpoint := ''inapp:phone ''\<rparr>], db_topics := [(''s1'', ''a'')]\<rparr>"

definition phone_events :: db where
  "phone_events = push_db\<lparr>db_subs := [phone\<lparr>ps_ID := ''s1''\<rparr>], db_topics := [(''s1'', ''a'')], db_nextEvent := 3,
     db_events := [\<lparr>ne_ID = 1, ne_Subject = ''a'', ne_Title = ''x'', ne_Body = [], ne_Tag = [], ne_ProviderID = [], ne_URL = [], ne_CreatedAt = 0\<rparr>,
       \<lparr>ne_ID = 2, ne_Subject = ''b'', ne_Title = ''y'', ne_Body = [], ne_Tag = [], ne_ProviderID = [], ne_URL = [], ne_CreatedAt = 0\<rparr>]\<rparr>"

theorem events_delivered_once_witness:
  "map ne_Title (pages (Some None) ''inapp:phone'' 1 0 phone_events) = [''x'']"
proof -
  have "pushWF phone_events" "db_faults phone_events = []" by (simp_all add: pushWF_def phone_events_def push_db_def phone_def)
  moreover have "trimSpace ''inapp:phone'' = ''inapp:phone''" by code_simp
  moreover have "map ne_Title (pending phone_events ''inapp:phone'' 0) = [''x'']" "length (pending phone_events ''inapp:phone'' 0) = 1"
    by (auto simp: pending_def subscribed_def phone_events_def push_db_def phone_def)
  ultimately show ?thesis using events_delivered_once [of phone_events "Some None" "''inapp:phone''" 1 0] by simp
qed

end
