(* ===== verification/Warp.thy ===== *)
theory Warp
  imports Store
begin

text \<open>
  The pool of Cloudflare WARP proxies (\<open>src/internal/adapter/warp/proxy.go\<close>) and the list of functions
  to run at shutdown (\<open>src/internal/closer/closer.go\<close>), which every started proxy is added to.

  The WARP SDK is an argument: creating an identity and a proxy may fail, and so may starting the
  proxy.  Go iterates over a map in an arbitrary order, which is an argument too.  A method holds the
  mutex of its object from its first to its last step, so calls do not overlap.
\<close>

section \<open>Shutdown\<close>

text \<open>\<open>cl_done\<close> is the \<open>sync.Once\<close> of \<open>CloseAll\<close> together with the closed channel.\<close>

record 'f closer =
  cl_funcs :: "'f list"
  cl_done :: bool

definition newCloser :: "'f closer" where
  "newCloser = \<lparr>cl_funcs = [], cl_done = False\<rparr>"

definition Add :: "'f list \<Rightarrow> 'f closer \<Rightarrow> 'f closer" where
  "Add fs c = c\<lparr>cl_funcs := cl_funcs c @ fs\<rparr>"

text \<open>The functions a call runs (concurrently, waiting for all of them), and the state it leaves.\<close>

definition CloseAll :: "'f closer \<Rightarrow> 'f list \<times> 'f closer" where
  "CloseAll c = (if cl_done c then ([], c) else (cl_funcs c, \<lparr>cl_funcs = [], cl_done = True\<rparr>))"

definition WaitTimeout :: "bool \<Rightarrow> err + unit" where
  "WaitTimeout doneInTime = (if doneInTime then Inr () else Inl (Plain ''closer: timed out waiting for shutdown''))"

section \<open>The pool\<close>

record Endpoint =
  en_AddrPort :: string
  en_RTT :: int

record Proxy =
  px_Name :: string
  px_Addr :: string

record warp_env =
  wv_order :: "(Endpoint \<times> bool) list \<Rightarrow> (Endpoint \<times> bool) list"
  wv_GenerateIdentity :: "string \<Rightarrow> string + string"
  wv_NewProxy :: "string \<Rightarrow> Endpoint \<Rightarrow> string + Proxy"
  wv_Start :: "Proxy \<Rightarrow> string option"

record Warp =
  wr_proxies :: "(string \<times> (string \<times> Proxy) list) list"
  wr_endpoints :: "(Endpoint \<times> bool) list"
  wr_closer :: "Proxy closer"

definition newWarp :: "Endpoint list \<Rightarrow> Proxy closer \<Rightarrow> Warp" where
  "newWarp endpoints c = \<lparr>wr_proxies = [], wr_endpoints = map (\<lambda>e. (e, False)) (remdups endpoints), wr_closer = c\<rparr>"

text \<open>The identity of the start and the result of the scan are arguments.\<close>

definition New :: "bool \<Rightarrow> (string + string) \<Rightarrow> (string \<Rightarrow> string + Endpoint list) \<Rightarrow> Proxy closer \<Rightarrow> Warp" where
  "New notUseCloudflare identity scan c =
     (if notUseCloudflare then newWarp [] c
      else
        case identity of
          Inl _ \<Rightarrow> newWarp [] c
        | Inr i \<Rightarrow> (case scan i of Inl _ \<Rightarrow> newWarp [] c | Inr endpoints \<Rightarrow> newWarp endpoints c))"

definition createProxy :: "warp_env \<Rightarrow> string \<Rightarrow> Endpoint \<Rightarrow> Warp \<Rightarrow> Proxy option \<times> Warp" where
  "createProxy env name endpoint w =
     (case wv_GenerateIdentity env (''proxy/'' @ name @ ''/'') of
        Inl _ \<Rightarrow> (None, w)
      | Inr identity \<Rightarrow>
         (case wv_NewProxy env identity endpoint of
            Inl _ \<Rightarrow> (None, w)
          | Inr proxy \<Rightarrow>
             (case wv_Start env proxy of
                Some _ \<Rightarrow> (None, w)
              | None \<Rightarrow>
                 (let key = en_AddrPort endpoint;
                      byName = (case map_of (wr_proxies w) key of None \<Rightarrow> [] | Some m \<Rightarrow> m)
                  in (Some proxy,
                      w\<lparr>wr_proxies := setKey key (setKey name proxy byName) (wr_proxies w),
                        wr_endpoints := map (\<lambda>(e, used). (e, used \<or> e = endpoint)) (wr_endpoints w),
                        wr_closer := Add [proxy] (wr_closer w)\<rparr>)))))"

definition CreateProxy :: "warp_env \<Rightarrow> string \<Rightarrow> Warp \<Rightarrow> Proxy option \<times> Warp" where
  "CreateProxy env name w =
     (case find (\<lambda>(e, used). \<not> used \<and> map_of (wr_proxies w) (en_AddrPort e) = None) (wv_order env (wr_endpoints w)) of
        None \<Rightarrow> (None, w)
      | Some (endpoint, _) \<Rightarrow> createProxy env name endpoint w)"

text \<open>\<open>Proxies\<close> and \<open>Endpoints\<close> return copies of the maps.\<close>

definition Proxies :: "Warp \<Rightarrow> (string \<times> (string \<times> Proxy) list) list" where
  "Proxies w = wr_proxies w"

definition Endpoints :: "Warp \<Rightarrow> (Endpoint \<times> bool) list" where
  "Endpoints w = wr_endpoints w"

section \<open>Allocation\<close>

text \<open>All registered proxies, with the address they occupy.\<close>

definition running :: "Warp \<Rightarrow> (string \<times> Proxy) list" where
  "running w = concat (map (\<lambda>(key, byName). map (\<lambda>(n, p). (key, p)) byName) (wr_proxies w))"

definition warpOK :: "Warp \<Rightarrow> bool" where
  "warpOK w \<longleftrightarrow> distinct (map fst (running w)) \<and> distinct (map fst (wr_proxies w)) \<and> distinct (map fst (wr_endpoints w)) \<and>
     set (map fst (running w)) = (\<lambda>(e, used). en_AddrPort e) ` {p \<in> set (wr_endpoints w). snd p} \<and>
     fst ` set (wr_proxies w) = set (map fst (running w)) \<and>
     length (filter snd (wr_endpoints w)) = length (running w)"

lemma setKey_fresh: "map_of m k = None \<Longrightarrow> setKey k v m = (k, v) # m"
  by (auto simp: setKey_def map_of_eq_None_iff filter_id_conv image_iff)

lemma createProxy_result:
  assumes "map_of (wr_proxies w) (en_AddrPort endpoint) = None" "createProxy env name endpoint w = (r, w')"
  shows "r = None \<and> w' = w \<or>
    (\<exists>p. r = Some p \<and> running w' = (en_AddrPort endpoint, p) # running w \<and>
       map fst (wr_proxies w') = en_AddrPort endpoint # map fst (wr_proxies w) \<and>
       wr_endpoints w' = map (\<lambda>(e, used). (e, used \<or> e = endpoint)) (wr_endpoints w) \<and>
       wr_closer w' = Add [p] (wr_closer w))"
  using assms by (auto simp: createProxy_def Let_def setKey_fresh running_def split: sum.splits option.splits)

lemma use_endpoint:
  assumes "distinct (map fst es)" "(e, False) \<in> set es"
  shows "length (filter snd (map (\<lambda>(x, used). (x, used \<or> x = e)) es)) = Suc (length (filter snd es))"
    "{p \<in> set (map (\<lambda>(x, used). (x, used \<or> x = e)) es). snd p} = insert (e, True) {p \<in> set es. snd p}"
proof -
  show "length (filter snd (map (\<lambda>(x, used). (x, used \<or> x = e)) es)) = Suc (length (filter snd es))"
    using assms
  proof (induction es)
    case (Cons q es)
    obtain x u where q: "q = (x, u)" by fastforce
    have "e \<notin> fst ` set es \<Longrightarrow> map (\<lambda>(x, used). (x, used \<or> x = e)) es = es" by (induction es) auto
    then show ?case using Cons q by (cases "x = e") (auto simp: image_iff)
  qed simp
  have "(e, True) \<notin> set es" using assms by (metis eq_key_imp_eq_value)
  then show "{p \<in> set (map (\<lambda>(x, used). (x, used \<or> x = e)) es). snd p} = insert (e, True) {p \<in> set es. snd p}"
    using assms(2) by (force split: prod.splits)
qed

lemma CreateProxy_step:
  assumes "warpOK w" "\<And>xs. set (wv_order env xs) = set xs" "CreateProxy env name w = (r, w')"
  shows "warpOK w' \<and> (r = None \<and> w' = w \<or>
    (\<exists>p addr. r = Some p \<and> addr \<notin> fst ` set (running w) \<and> running w' = (addr, p) # running w \<and>
       wr_closer w' = Add [p] (wr_closer w) \<and> map fst (wr_endpoints w') = map fst (wr_endpoints w)))"
proof (cases "find (\<lambda>(e, used). \<not> used \<and> map_of (wr_proxies w) (en_AddrPort e) = None) (wv_order env (wr_endpoints w))")
  case None
  then show ?thesis using assms by (simp add: CreateProxy_def)
next
  case (Some q)
  then obtain e where e: "q = (e, False)" "map_of (wr_proxies w) (en_AddrPort e) = None" "(e, False) \<in> set (wr_endpoints w)"
    using assms(2) by (auto simp: find_Some_iff) (metis nth_mem)
  have c: "createProxy env name e w = (r, w')" using assms(3) Some e(1) by (simp add: CreateProxy_def)
  have fresh: "en_AddrPort e \<notin> fst ` set (wr_proxies w)" using e(2) by (simp add: map_of_eq_None_iff)
  show ?thesis
  proof (cases r)
    case None
    then show ?thesis using createProxy_result [OF e(2) c] assms(1) by auto
  next
    case (Some p)
    then have w': "running w' = (en_AddrPort e, p) # running w" "map fst (wr_proxies w') = en_AddrPort e # map fst (wr_proxies w)"
      "wr_endpoints w' = map (\<lambda>(x, used). (x, used \<or> x = e)) (wr_endpoints w)" "wr_closer w' = Add [p] (wr_closer w)"
      using createProxy_result [OF e(2) c] by auto
    have d: "distinct (map fst (wr_endpoints w))" using assms(1) by (simp add: warpOK_def)
    note u = use_endpoint [OF d e(3)]
    have eps: "map fst (wr_endpoints w') = map fst (wr_endpoints w)" using w'(3) by (simp add: case_prod_unfold comp_def)
    have pk: "fst ` set (wr_proxies w') = insert (en_AddrPort e) (fst ` set (wr_proxies w))" using w'(2) by (metis list.set(2) set_map)
    have fr: "en_AddrPort e \<notin> fst ` set (running w)" using fresh assms(1) by (simp add: warpOK_def)
    have "warpOK w'"
      unfolding warpOK_def w'(3) u eps [unfolded w'(3)] using assms(1) w'(1,2) fresh fr pk
      by (simp add: warpOK_def)
    then show ?thesis using Some w' fr eps by auto
  qed
qed


definition handedOut :: "Proxy option list \<Rightarrow> Proxy list" where
  "handedOut rs = List.map_filter id rs"

lemma handedOut_simps [simp]: "handedOut [] = []" "handedOut (None # rs) = handedOut rs" "handedOut (Some p # rs) = p # handedOut rs"
  by (simp_all add: handedOut_def List.map_filter_def)

definition orderOK :: "warp_env \<times> string \<Rightarrow> bool" where
  "orderOK c \<longleftrightarrow> (\<forall>xs. set (wv_order (fst c) xs) = set xs)"

lemma warp_run:
  assumes "warpOK w" "list_all orderOK calls" "runAll (\<lambda>c. CreateProxy (fst c) (snd c)) calls w = (rs, w')"
  shows "warpOK w' \<and> map snd (running w') = rev (handedOut rs) @ map snd (running w) \<and>
    wr_closer w' = Add (handedOut rs) (wr_closer w) \<and> map fst (wr_endpoints w') = map fst (wr_endpoints w)"
  using assms
proof (induction calls arbitrary: w rs)
  case Nil
  then show ?case by (simp add: Add_def)
next
  case (Cons c calls)
  obtain r t where c: "CreateProxy (fst c) (snd c) w = (r, t)" by fastforce
  obtain rs' t' where cs: "runAll (\<lambda>c. CreateProxy (fst c) (snd c)) calls t = (rs', t')" by fastforce
  have rs: "rs = r # rs'" "w' = t'" using Cons.prems(3) c cs by simp_all
  have s: "warpOK t" "r = None \<and> t = w \<or> (\<exists>p addr. r = Some p \<and> running t = (addr, p) # running w \<and>
      wr_closer t = Add [p] (wr_closer w) \<and> map fst (wr_endpoints t) = map fst (wr_endpoints w))"
    using CreateProxy_step [OF Cons.prems(1) _ c] Cons.prems(2) by (auto simp: orderOK_def)
  have ih: "warpOK t' \<and> map snd (running t') = rev (handedOut rs') @ map snd (running t) \<and>
      wr_closer t' = Add (handedOut rs') (wr_closer t) \<and> map fst (wr_endpoints t') = map fst (wr_endpoints t)"
    using Cons.IH [OF s(1) _ cs [folded rs(2)]] Cons.prems(2) rs(2) by simp
  show ?case using ih s(2) rs by (auto simp: Add_def)
qed

lemma running_bound:
  assumes "warpOK w"
  shows "length (running w) \<le> card (en_AddrPort ` fst ` set (wr_endpoints w))"
proof -
  have "length (running w) = card (fst ` set (running w))"
    using assms by (metis distinct_card length_map list.set_map warpOK_def)
  also have "\<dots> \<le> card (en_AddrPort ` fst ` set (wr_endpoints w))"
  proof (rule card_mono)
    have "fst ` set (running w) = en_AddrPort ` fst ` {q \<in> set (wr_endpoints w). snd q}"
      using assms by (simp add: warpOK_def image_image case_prod_beta)
    then show "fst ` set (running w) \<subseteq> en_AddrPort ` fst ` set (wr_endpoints w)" by auto
  qed simp
  finally show ?thesis .
qed

text \<open>An SDK that works, and an address that is not in use: a proxy is handed out.\<close>

definition sdkWorks :: "warp_env \<Rightarrow> bool" where
  "sdkWorks env \<longleftrightarrow> (\<forall>i. \<exists>x. wv_GenerateIdentity env i = Inr x) \<and> (\<forall>x e. \<exists>p. wv_NewProxy env x e = Inr p) \<and> (\<forall>p. wv_Start env p = None)"

lemma CreateProxy_available:
  assumes ok: "warpOK w" and less: "length (running w) < card (en_AddrPort ` fst ` set (wr_endpoints w))"
    and ord: "orderOK (env, name)" and sdk: "sdkWorks env"
  shows "fst (CreateProxy env name w) \<noteq> None"
proof -
  have "card (fst ` set (running w)) < card (en_AddrPort ` fst ` set (wr_endpoints w))"
    using less card_image_le [of "set (running w)" fst] card_length [of "running w"] by simp
  then have "\<not> en_AddrPort ` fst ` set (wr_endpoints w) \<subseteq> fst ` set (running w)"
    using card_mono [of "fst ` set (running w)" "en_AddrPort ` fst ` set (wr_endpoints w)"] by auto
  then obtain e u where u: "(e, u) \<in> set (wr_endpoints w)" "en_AddrPort e \<notin> fst ` set (running w)" by force
  have "set (map fst (running w)) = (\<lambda>(e, used). en_AddrPort e) ` {p \<in> set (wr_endpoints w). snd p}"
    and "fst ` set (wr_proxies w) = set (map fst (running w))"
    using ok unfolding warpOK_def by blast+
  then have "\<not> u" "map_of (wr_proxies w) (en_AddrPort e) = None"
    using u by (force simp: map_of_eq_None_iff)+
  then have "find (\<lambda>(e, used). \<not> used \<and> map_of (wr_proxies w) (en_AddrPort e) = None) (wv_order env (wr_endpoints w)) \<noteq> None"
    using u ord by (auto simp: find_None_iff orderOK_def simp del: not_None_eq intro!: exI [of _ e])
  then obtain q where q: "find (\<lambda>(e, used). \<not> used \<and> map_of (wr_proxies w) (en_AddrPort e) = None) (wv_order env (wr_endpoints w)) = Some q"
    by blast
  obtain x where x: "wv_GenerateIdentity env (''proxy/'' @ name @ ''/'') = Inr x" using sdk unfolding sdkWorks_def by blast
  obtain p where "wv_NewProxy env x (fst q) = Inr p" using sdk unfolding sdkWorks_def by blast
  then show ?thesis using q x sdk
    by (auto simp: CreateProxy_def createProxy_def Let_def sdkWorks_def split: prod.splits)
qed

text \<open>
  C18: the pool of proxies: through any sequence of calls, whatever the SDK answers and in whatever order
  the map is iterated, every address serves at most one proxy, a failing call uses up nothing, at most
  as many proxies are handed out as there are addresses, and shutdown stops exactly the proxies
  that were handed out, each once.  As long as an address is free and the SDK works, a proxy is handed out.
\<close>

theorem warp_pool_allocation:
  assumes "list_all orderOK calls"
    and "runAll (\<lambda>c. CreateProxy (fst c) (snd c)) calls (newWarp endpoints newCloser) = (rs, w)"
    and "orderOK (env, name)" "sdkWorks env"
  shows "distinct (map fst (running w)) \<and> map snd (running w) = rev (handedOut rs) \<and>
    length (handedOut rs) \<le> card (en_AddrPort ` set endpoints) \<and>
    fst (CloseAll (wr_closer w)) = handedOut rs \<and> fst (CloseAll (snd (CloseAll (wr_closer w)))) = [] \<and>
    (length (handedOut rs) < card (en_AddrPort ` set endpoints) \<longrightarrow> fst (CreateProxy env name w) \<noteq> None)"
proof -
  have ok0: "warpOK (newWarp endpoints newCloser)"
    by (auto simp: warpOK_def newWarp_def running_def comp_def)
  have r0: "running (newWarp endpoints newCloser) = []" by (simp add: newWarp_def running_def)
  from warp_run [OF ok0 assms(1,2)] have w: "warpOK w" "map snd (running w) = rev (handedOut rs)"
    "wr_closer w = Add (handedOut rs) newCloser" "map fst (wr_endpoints w) = remdups endpoints"
    using r0 by (auto simp: newWarp_def comp_def)
  then have w4: "fst ` set (wr_endpoints w) = set endpoints" by (metis list.set_map set_remdups)
  have len: "length (running w) = length (handedOut rs)" using w(2) by (metis length_map length_rev)
  have "fst (CreateProxy env name w) \<noteq> None" if "length (handedOut rs) < card (en_AddrPort ` set endpoints)"
    using CreateProxy_available [OF w(1) _ assms(3,4)] that len w4 by simp
  then show ?thesis using w w4 running_bound [OF w(1)] len by (auto simp: warpOK_def CloseAll_def Add_def newCloser_def)
qed

section \<open>Witnesses\<close>

definition sample_warp_env :: warp_env where
  "sample_warp_env = \<lparr>wv_order = rev, wv_GenerateIdentity = Inr, wv_NewProxy = (\<lambda>i e. Inr \<lparr>px_Name = i, px_Addr = en_AddrPort e\<rparr>),
     wv_Start = (\<lambda>_. None)\<rparr>"

theorem warp_pool_allocation_witness:
  "\<exists>w. runAll (\<lambda>c. CreateProxy (fst c) (snd c)) [(sample_warp_env, ''a''), (sample_warp_env, ''b'')]
      (newWarp [\<lparr>en_AddrPort = ''1:1'', en_RTT = 3\<rparr>] newCloser) = ([Some \<lparr>px_Name = ''proxy/a/'', px_Addr = ''1:1''\<rparr>, None], w) \<and>
    fst (CloseAll (wr_closer w)) = [\<lparr>px_Name = ''proxy/a/'', px_Addr = ''1:1''\<rparr>]"
proof -
  let ?calls = "[(sample_warp_env, ''a''), (sample_warp_env, ''b'')]"
  obtain w where w: "runAll (\<lambda>c. CreateProxy (fst c) (snd c)) ?calls (newWarp [\<lparr>en_AddrPort = ''1:1'', en_RTT = 3\<rparr>] newCloser) =
      ([Some \<lparr>px_Name = ''proxy/a/'', px_Addr = ''1:1''\<rparr>, None], w)"
    by (simp add: CreateProxy_def createProxy_def newWarp_def sample_warp_env_def Let_def setKey_def)
  have o: "list_all orderOK ?calls" "orderOK (sample_warp_env, ''c'')" "sdkWorks sample_warp_env"
    by (simp_all add: orderOK_def sdkWorks_def sample_warp_env_def)
  show ?thesis using warp_pool_allocation [OF o(1) w o(2,3)] w by (auto simp: sample_warp_env_def)
qed

end
