(* ===== verification/Credential_Store.thy ===== *)
theory Credential_Store
  imports Provider_Repo Provider_Vendor
begin

text \<open>
  The store through which CLIProxyAPI reads and writes the credentials of OAuth providers
  (\<open>src/internal/app/cliproxyapi/provider_credential_store.go\<close>), on top of the provider repository.

  \<open>Auth\<close> holds the fields of the SDK's type that the store reads or writes.  Its \<open>Storage\<close> is an
  arbitrary value that is encoded to JSON: absent, not encodable, or a JSON value.  The
  attribute that marks the origin of a credential is a pair of constants of the SDK, an argument here.  A
  result \<open>None\<close> is
  a run-time panic.
\<close>

section \<open>Operations\<close>

record Auth =
  au_ID :: string
  au_Provider :: string
  au_Label :: string
  au_Active :: bool
  au_Attributes :: "(string \<times> string) list"
  au_Metadata :: object
  au_Storage :: "(string + json) option"
  au_CreatedAt :: go_time
  au_UpdatedAt :: go_time
  au_ProxyURL :: string
  au_Disabled :: bool
  au_Prefix :: string

text \<open>An unknown type has no credential type, a definition that is nil is dereferenced.\<close>

definition providerCredentialType :: "Provider \<Rightarrow> string option" where
  "providerCredentialType provider =
     (case ProviderOAuthConfig (pr_Type provider) of
        Inl _ \<Rightarrow> Some []
      | Inr v \<Rightarrow> map_option od_CredentialProvider (GetOAuthDefinition v))"

definition cloneCredentials :: "object \<Rightarrow> object" where
  "cloneCredentials credentials = copyInto [] credentials"

definition listed :: "string \<times> string \<Rightarrow> Provider \<Rightarrow> string \<Rightarrow> Auth" where
  "listed origin provider credentialType =
     \<lparr>au_ID = pr_ID provider, au_Provider = credentialType, au_Label = pr_Name provider, au_Active = True,
      au_Attributes = [origin, (''priority'', itoa (pr_Priority provider))],
      au_Metadata = setKey ''label'' (JStr (pr_Name provider)) (setKey ''provider_id'' (JStr (pr_ID provider))
        (setKey ''type'' (JStr credentialType) (cloneCredentials (pr_Credentials provider)))),
      au_Storage = None, au_CreatedAt = pr_CreatedAt provider, au_UpdatedAt = pr_UpdatedAt provider,
      au_ProxyURL = (if pr_UseProxy provider \<and> pr_Proxy provider \<noteq> [] then pr_Proxy provider else []),
      au_Disabled = pr_Disabled provider, au_Prefix = credentialType\<rparr>"

fun listAuths :: "string \<times> string \<Rightarrow> Provider list \<Rightarrow> Auth list option" where
  "listAuths origin [] = Some []"
| "listAuths origin (provider # rest) =
     (if pr_Type provider = 10 \<or> pr_Disabled provider \<or> pr_Credentials provider = [] then listAuths origin rest
      else
        case providerCredentialType provider of
          None \<Rightarrow> None
        | Some credentialType \<Rightarrow>
            if credentialType = [] then listAuths origin rest
            else map_option (\<lambda>auths. listed origin provider credentialType # auths) (listAuths origin rest))"

definition List :: "string \<times> string \<Rightarrow> db \<Rightarrow> ((err + Auth list) \<times> db) option" where
  "List origin d =
     (case GetProviders d of
        (Inl e, d) \<Rightarrow> Some (Inl e, d)
      | (Inr providers, d) \<Rightarrow> map_option (\<lambda>auths. (Inr auths, d)) (listAuths origin providers))"

text \<open>
  Decoding into the fresh map: an object is merged into it, null replaces it by a nil map, which
  panics at the next assignment.
\<close>

definition authCredentials :: "Auth \<Rightarrow> err + object option" where
  "authCredentials auth =
     (case au_Storage auth of
        None \<Rightarrow> Inr (Some (copyInto [] (au_Metadata auth)))
      | Some (Inl e) \<Rightarrow> Inl (Plain e)
      | Some (Inr (JObj stored)) \<Rightarrow> Inr (Some (copyInto (copyInto [] stored) (au_Metadata auth)))
      | Some (Inr JNull) \<Rightarrow> Inr None
      | Some (Inr _) \<Rightarrow> Inl (Plain ''json: cannot unmarshal into map''))"

definition Save :: "go_time \<Rightarrow> string \<Rightarrow> Auth option \<Rightarrow> db \<Rightarrow> ((err + string) \<times> db) option" where
  "Save now lastRefresh auth0 d =
     (case auth0 of
        None \<Rightarrow> Some (Inl (Plain ''provider credential store: auth ID is required''), d)
      | Some auth \<Rightarrow>
          if trimSpace (au_ID auth) = [] then Some (Inl (Plain ''provider credential store: auth ID is required''), d)
          else
            case GetProvider (au_ID auth) d of
              (Inl e, d) \<Rightarrow> Some (Inl (Wrap ''provider credential store: get provider'' e), d)
            | (Inr provider, d) \<Rightarrow>
               (case authCredentials auth of
                  Inl e \<Rightarrow> Some (Inl (Wrap ''provider credential store: encode credentials'' e), d)
                | Inr None \<Rightarrow> None
                | Inr (Some credentials0) \<Rightarrow>
                   (let credentials = setKey ''last_refresh'' (JStr lastRefresh) (setKey ''provider_id'' (JStr (pr_ID provider))
                          (setKey ''label'' (JStr (pr_Name provider)) (setKey ''type'' (JStr (au_Provider auth)) credentials0)));
                        clientSecret = (if pr_ClientSecret provider = ''oauth:pending'' then ''oauth:database''
                          else pr_ClientSecret provider)
                    in
                    case UpdateProviderCredentials now (pr_ID provider) clientSecret credentials d of
                      (Inl e, d) \<Rightarrow> Some (Inl (Wrap ''provider credential store: save credentials'' e), d)
                    | (Inr _, d) \<Rightarrow> Some (Inr (pr_ID provider), d))))"

definition Delete :: "go_time \<Rightarrow> string \<Rightarrow> db \<Rightarrow> (err + unit) \<times> db" where
  "Delete now i d =
     (case GetProvider i d of
        (Inl e, d) \<Rightarrow> (Inl (Wrap ''provider credential store: get provider'' e), d)
      | (Inr provider, d) \<Rightarrow>
         (case UpdateProviderCredentials now (pr_ID provider) (pr_ClientSecret provider) [] d of
            (Inl e, d) \<Rightarrow> (Inl e, d)
          | (Inr _, d) \<Rightarrow> (Inr (), d)))"

section \<open>Lemmas\<close>

text \<open>The entry of one provider in the list, and whether listing it panics.\<close>

definition skipped :: "Provider \<Rightarrow> bool" where
  "skipped p \<longleftrightarrow> pr_Type p = 10 \<or> pr_Disabled p \<or> pr_Credentials p = []"

definition entryOf :: "string \<times> string \<Rightarrow> Provider \<Rightarrow> Auth option" where
  "entryOf origin p =
     (if skipped p then None
      else case providerCredentialType p of None \<Rightarrow> None | Some t \<Rightarrow> if t = [] then None else Some (listed origin p t))"

definition listable :: "Provider \<Rightarrow> bool" where
  "listable p \<longleftrightarrow> skipped p \<or> providerCredentialType p \<noteq> None"

lemma listAuths_eq:
  "listAuths origin ps = (if list_all listable ps then Some (List.map_filter (entryOf origin) ps) else None)"
proof (induction ps)
  case (Cons p ps)
  then show ?case
    by (cases "providerCredentialType p")
      (auto simp: List.map_filter_simps entryOf_def [of origin p] listable_def [of p] skipped_def [of p])
qed (simp add: List.map_filter_simps)

lemma entryOf_ID: "entryOf origin p = Some a \<Longrightarrow> au_ID a = pr_ID p"
  by (auto simp: entryOf_def listed_def split: if_splits option.splits)

lemma filter_entries:
  "filter (\<lambda>a. Q (au_ID a)) (List.map_filter (entryOf origin) ps) = List.map_filter (entryOf origin) (filter (\<lambda>p. Q (pr_ID p)) ps)"
  by (induction ps) (auto simp: List.map_filter_simps entryOf_ID split: option.splits)

lemma filter_unique:
  "distinct (map f xs) \<Longrightarrow> x \<in> set xs \<Longrightarrow> filter (\<lambda>y. f y = f x) xs = [x]"
proof (induction xs)
  case (Cons y xs)
  have "f y \<notin> set (map f xs)" using Cons.prems(1) by simp
  then have "filter (\<lambda>z. f z = f y) xs = []" by (auto simp: filter_empty_conv image_iff)
  moreover have "f y \<noteq> f x" if "x \<in> set xs" using that \<open>f y \<notin> set (map f xs)\<close> by auto
  ultimately show ?case using Cons by auto
qed simp

lemma filter_updateWhere:
  assumes "\<And>p. pr_ID (f p) = pr_ID p"
  shows "filter (\<lambda>p. pr_ID p \<noteq> i) (updateWhere (\<lambda>p. pr_ID p = i) f ps) = filter (\<lambda>p. pr_ID p \<noteq> i) ps"
    "filter (\<lambda>p. pr_ID p = i) (updateWhere (\<lambda>p. pr_ID p = i) f ps) = map f (filter (\<lambda>p. pr_ID p = i) ps)"
  using assms by (induction ps) auto

text \<open>Rewriting the row of one provider rewrites its entry and no other.\<close>

lemma listAuths_update:
  assumes "distinct (map pr_ID ps)" "p \<in> set ps" "\<And>p. pr_ID (f p) = pr_ID p" "listAuths origin ps = Some auths"
    and "listable (f p)"
  shows "\<exists>auths'. listAuths origin (updateWhere (\<lambda>q. pr_ID q = pr_ID p) f ps) = Some auths' \<and>
    filter (\<lambda>a. au_ID a \<noteq> pr_ID p) auths' = filter (\<lambda>a. au_ID a \<noteq> pr_ID p) auths \<and>
    filter (\<lambda>a. au_ID a = pr_ID p) auths' = List.map_filter (entryOf origin) [f p]"
proof -
  have "q = p" if "q \<in> set ps" "pr_ID q = pr_ID p" for q using assms(1,2) that by (auto simp: distinct_map inj_on_def)
  then have ok: "list_all listable (updateWhere (\<lambda>q. pr_ID q = pr_ID p) f ps)"
    using assms(4,5) unfolding listAuths_eq updateWhere_def by (auto simp: list_all_iff split: if_splits)
  show ?thesis
    using ok assms(4) filter_unique [OF assms(1,2)] filter_updateWhere [of f "pr_ID p" ps, OF assms(3)]
      filter_entries [of "\<lambda>j. j \<noteq> pr_ID p" origin] filter_entries [of "\<lambda>j. j = pr_ID p" origin]
    by (auto simp: listAuths_eq split: if_splits)
qed

lemma rows_Provider:
  assumes "db_faults d = []" "GetProvider i d = (Inr p, d')"
  shows "d' = d" "p \<in> set (db_providers d)" "db_uuid d i = Some (pr_ID p)"
  using assms by (auto simp: GetProvider_def Let_def stmt_no_fault withUUID_def find_Some_iff split: option.splits)

lemma UpdateProviderCredentials_ok:
  assumes "db_faults d = []" "db_uuid d (pr_ID p) = Some (pr_ID p)" "UpdateProviderCredentials now (pr_ID p) secret creds d = (Inr q, d')"
  shows "d' = d\<lparr>db_providers := updateWhere (\<lambda>q. pr_ID q = pr_ID p)
    (\<lambda>q. q\<lparr>pr_ClientSecret := secret, pr_Credentials := creds, pr_UpdatedAt := now\<rparr>) (db_providers d)\<rparr>"
  using assms by (auto simp: UpdateProviderCredentials_def GetProvider_def Let_def stmt_no_fault withUUID_def split: option.splits)

lemma List_no_fault:
  "db_faults d = [] \<Longrightarrow> List origin d = map_option (\<lambda>auths. (Inr auths, d)) (listAuths origin (db_providers d))"
  by (simp add: List_def GetProviders_def stmt_no_fault)

text \<open>Storing credentials for a provider changes its entry in the list and no other.\<close>

lemma stored_listed:
  assumes "db_faults d = []" "distinct (map pr_ID (db_providers d))" "db_uuid d (pr_ID p) = Some (pr_ID p)"
    and "p \<in> set (db_providers d)" "\<not> pr_Disabled p" "pr_Type p \<noteq> 10" "providerCredentialType p = Some t" "t \<noteq> []"
    and "List origin d = Some (Inr auths, d)" "UpdateProviderCredentials now (pr_ID p) s c d = (Inr q, d')"
  shows "\<exists>auths'. List origin d' = Some (Inr auths', d') \<and>
      filter (\<lambda>a. au_ID a \<noteq> pr_ID p) auths' = filter (\<lambda>a. au_ID a \<noteq> pr_ID p) auths \<and>
      filter (\<lambda>a. au_ID a = pr_ID p) auths' =
        (if c = [] then [] else [listed origin (p\<lparr>pr_ClientSecret := s, pr_Credentials := c, pr_UpdatedAt := now\<rparr>) t])"
proof -
  let ?f = "\<lambda>q. q\<lparr>pr_ClientSecret := s, pr_Credentials := c, pr_UpdatedAt := now\<rparr>"
  have old: "listAuths origin (db_providers d) = Some auths" using assms(9) by (simp add: List_no_fault [OF assms(1)])
  have type: "providerCredentialType (?f p) = Some t" using assms(7) by (simp add: providerCredentialType_def)
  note d' = UpdateProviderCredentials_ok [OF assms(1,3,10)]
  have "listable (?f p)" using type by (simp add: listable_def)
  from listAuths_update [of _ _ ?f, OF assms(2,4) _ old this]
  obtain auths' where a: "listAuths origin (db_providers d') = Some auths'"
    "filter (\<lambda>a. au_ID a \<noteq> pr_ID p) auths' = filter (\<lambda>a. au_ID a \<noteq> pr_ID p) auths"
    "filter (\<lambda>a. au_ID a = pr_ID p) auths' = List.map_filter (entryOf origin) [?f p]"
    by (auto simp: d')
  have "db_faults d' = []" using assms(1) d' by simp
  then have "List origin d' = Some (Inr auths', d')" using a(1) by (simp add: List_no_fault)
  moreover have "List.map_filter (entryOf origin) [?f p] = (if c = [] then [] else [listed origin (?f p) t])"
    using assms(5,6,8) type by (simp add: List.map_filter_simps entryOf_def skipped_def)
  ultimately show ?thesis using a(2,3) by auto
qed

lemma Save_ok:
  assumes "db_faults d = []" "distinct (map pr_ID (db_providers d))" "p \<in> set (db_providers d)"
    and "Save now refresh (Some auth) d = Some (Inr (pr_ID p), d1)"
  obtains c q where "authCredentials auth = Inr (Some c)"
    "UpdateProviderCredentials now (pr_ID p)
       (if pr_ClientSecret p = ''oauth:pending'' then ''oauth:database'' else pr_ClientSecret p)
       (setKey ''last_refresh'' (JStr refresh) (setKey ''provider_id'' (JStr (pr_ID p))
         (setKey ''label'' (JStr (pr_Name p)) (setKey ''type'' (JStr (au_Provider auth)) c)))) d = (Inr q, d1)"
proof -
  obtain r d0 where g: "GetProvider (au_ID auth) d = (r, d0)" by fastforce
  then obtain p' where r: "r = Inr p'" using assms(4) by (cases r) (auto simp: Save_def split: if_splits)
  note row = rows_Provider [OF assms(1) g [unfolded r]]
  have "pr_ID p' = pr_ID p" using assms(4) g r
    by (auto simp: Save_def Let_def split: if_splits sum.splits option.splits prod.splits)
  then have "p' = p" using assms(2,3) row(2) by (auto simp: distinct_map inj_on_def)
  then show ?thesis using assms(4) g r row(1) that
    by (auto simp: Save_def Let_def split: if_splits sum.splits option.splits prod.splits)
qed

lemma Delete_ok:
  assumes "db_faults d = []" "distinct (map pr_ID (db_providers d))" "p \<in> set (db_providers d)" "db_uuid d (pr_ID p) = Some (pr_ID p)"
    and "Delete now (pr_ID p) d = (Inr (), d2)"
  obtains q where "UpdateProviderCredentials now (pr_ID p) (pr_ClientSecret p) [] d = (Inr q, d2)"
proof -
  obtain r d0 where g: "GetProvider (pr_ID p) d = (r, d0)" by fastforce
  then obtain p' where r: "r = Inr p'" using assms(5) by (cases r) (auto simp: Delete_def)
  note row = rows_Provider [OF assms(1) g [unfolded r]]
  have "p' = p" using assms(2,3,4) row(2,3) by (auto simp: distinct_map inj_on_def)
  then show ?thesis using assms(5) g r row(1) that by (auto simp: Delete_def split: sum.splits prod.splits)
qed

section \<open>Properties\<close>

text \<open>The credentials that an authentication carries: its storage, overridden by its metadata.\<close>

definition carried :: "Auth \<Rightarrow> string \<Rightarrow> json option" where
  "carried auth k =
     (case map_of (au_Metadata auth) k of
        Some v \<Rightarrow> Some v
      | None \<Rightarrow> (case au_Storage auth of Some (Inr (JObj stored)) \<Rightarrow> map_of (copyInto [] stored) k | _ \<Rightarrow> None))"

lemma authCredentials_carried:
  "authCredentials auth = Inr (Some c) \<Longrightarrow> distinct (map fst (au_Metadata auth)) \<Longrightarrow> map_of c k = carried auth k"
  by (auto simp: authCredentials_def carried_def map_of_copyInto split: option.splits sum.splits json.splits)

lemma distinct_setKey: "distinct (map fst m) \<Longrightarrow> distinct (map fst (setKey k v m))"
  by (auto simp: setKey_def distinct_map_filter)

lemma distinct_copyInto: "distinct (map fst dst) \<Longrightarrow> distinct (map fst (copyInto dst src))"
  by (induction dst src rule: copyInto.induct) (auto simp: distinct_setKey)

lemma authCredentials_distinct: "authCredentials auth = Inr (Some c) \<Longrightarrow> distinct (map fst c)"
  by (auto simp: authCredentials_def distinct_copyInto split: option.splits sum.splits json.splits)

text \<open>
  C15: credentials survive the way through the database: what is saved for a provider is what the next
  list shows for it, under the provider's own name, identifier and credential type, and no other entry
  changes; after deleting the credentials of a provider the list is the old one without its entry.
\<close>

theorem credentials_roundtrip:
  assumes "db_faults d = []" "distinct (map pr_ID (db_providers d))" "\<forall>p \<in> set (db_providers d). db_uuid d (pr_ID p) = Some (pr_ID p)"
    and "p \<in> set (db_providers d)" "\<not> pr_Disabled p" "pr_Type p \<noteq> 10" "providerCredentialType p = Some t" "t \<noteq> []"
    and "List origin d = Some (Inr auths, d)"
  shows "(distinct (map fst (au_Metadata auth)) \<longrightarrow> Save now refresh (Some auth) d = Some (Inr (pr_ID p), d1) \<longrightarrow>
      (\<exists>auths' a. List origin d1 = Some (Inr auths', d1) \<and>
        filter (\<lambda>a. au_ID a \<noteq> pr_ID p) auths' = filter (\<lambda>a. au_ID a \<noteq> pr_ID p) auths \<and>
        filter (\<lambda>a. au_ID a = pr_ID p) auths' = [a] \<and> au_Provider a = t \<and> au_Label a = pr_Name p \<and>
        (\<forall>k. map_of (au_Metadata a) k =
          (if k = ''type'' then Some (JStr t) else if k = ''label'' then Some (JStr (pr_Name p))
           else if k = ''provider_id'' then Some (JStr (pr_ID p)) else if k = ''last_refresh'' then Some (JStr refresh)
           else carried auth k)))) \<and>
    (Delete now (pr_ID p) d = (Inr (), d2) \<longrightarrow> List origin d2 = Some (Inr (filter (\<lambda>a. au_ID a \<noteq> pr_ID p) auths), d2))"
  (is "(_ \<longrightarrow> _ \<longrightarrow> ?listed) \<and> ?deleted")
proof
  have uuid: "db_uuid d (pr_ID p) = Some (pr_ID p)" using assms(3,4) by blast
  note listed = stored_listed [OF assms(1,2) uuid assms(4-9)]
  show ?deleted
  proof
    assume "Delete now (pr_ID p) d = (Inr (), d2)"
    then obtain q where "UpdateProviderCredentials now (pr_ID p) (pr_ClientSecret p) [] d = (Inr q, d2)"
      by (rule Delete_ok [OF assms(1,2,4) uuid])
    from listed [OF this] show "List origin d2 = Some (Inr (filter (\<lambda>a. au_ID a \<noteq> pr_ID p) auths), d2)"
      by (auto simp: filter_empty_conv)
  qed
  show "distinct (map fst (au_Metadata auth)) \<longrightarrow> Save now refresh (Some auth) d = Some (Inr (pr_ID p), d1) \<longrightarrow> ?listed"
  proof (intro impI)
    assume dist: "distinct (map fst (au_Metadata auth))"
    assume "Save now refresh (Some auth) d = Some (Inr (pr_ID p), d1)"
    then obtain c q where c: "authCredentials auth = Inr (Some c)" and
      u: "UpdateProviderCredentials now (pr_ID p)
       (if pr_ClientSecret p = ''oauth:pending'' then ''oauth:database'' else pr_ClientSecret p)
       (setKey ''last_refresh'' (JStr refresh) (setKey ''provider_id'' (JStr (pr_ID p))
         (setKey ''label'' (JStr (pr_Name p)) (setKey ''type'' (JStr (au_Provider auth)) c)))) d = (Inr q, d1)"
      by (rule Save_ok [OF assms(1,2,4)])
    show ?listed using listed [OF u] authCredentials_carried [OF c dist] authCredentials_distinct [OF c]
      by (auto simp: listed_def cloneCredentials_def map_of_copyInto distinct_setKey split: option.splits)
  qed
qed

text \<open>A custom provider with credentials makes the list panic, whatever the other providers are.\<close>

lemma custom_credentials_break_list:
  assumes "db_faults d = []" "p \<in> set (db_providers d)" "pr_Type p = 1" "\<not> pr_Disabled p" "pr_Credentials p \<noteq> []"
  shows "List origin d = None"
proof -
  have "\<not> listable p" using assms(3-5) by (simp add: listable_def skipped_def providerCredentialType_def ProviderOAuthConfig_def)
  then show ?thesis using assms(1,2) by (auto simp: List_no_fault listAuths_eq list_all_iff)
qed

section \<open>Witnesses\<close>

definition pending_codex :: Provider where
  "pending_codex = \<lparr>pr_ID = ''p1'', pr_Name = ''codex'', pr_Type = 2, pr_BaseUrl = [], pr_ClientSecret = ''oauth:pending'',
     pr_Credentials = [], pr_UseProxy = False, pr_Proxy = [], pr_IsCloudflare = False, pr_Priority = 0, pr_Disabled = False,
     pr_CreatedAt = 0, pr_UpdatedAt = 0\<rparr>"

definition codex_db :: db where
  "codex_db = \<lparr>db_keys = [], db_providers = [pending_codex], db_usage = [], db_subs = [], db_topics = [], db_events = [],
     db_vapid = None, db_nextEvent = 1, db_nextUsage = 1, db_faults = [], db_uuid = Some\<rparr>"

definition codex_auth :: Auth where
  "codex_auth = \<lparr>au_ID = ''p1'', au_Provider = ''codex'', au_Label = [], au_Active = True, au_Attributes = [],
     au_Metadata = [(''access_token'', JStr ''t'')], au_Storage = None, au_CreatedAt = 0, au_UpdatedAt = 0, au_ProxyURL = [],
     au_Disabled = False, au_Prefix = []\<rparr>"

theorem credentials_roundtrip_witness:
  "\<exists>d1 auths a. Save 5 ''now'' (Some codex_auth) codex_db = Some (Inr ''p1'', d1) \<and>
     List (''a'', ''b'') d1 = Some (Inr auths, d1) \<and> filter (\<lambda>a. au_ID a = ''p1'') auths = [a] \<and>
     map_of (au_Metadata a) ''access_token'' = Some (JStr ''t'')"
proof -
  have "trimSpace ''p1'' = ''p1''" by (rule trimSpace_graphic) auto
  then obtain d1 where d1: "Save 5 ''now'' (Some codex_auth) codex_db = Some (Inr (pr_ID pending_codex), d1)"
    by (simp add: Save_def codex_auth_def codex_db_def pending_codex_def GetProvider_def UpdateProviderCredentials_def
        authCredentials_def Let_def stmt_def withUUID_def)
  have l: "List (''a'', ''b'') codex_db = Some (Inr [], codex_db)"
    by (simp add: List_no_fault codex_db_def pending_codex_def)
  have t: "providerCredentialType pending_codex = Some ''codex''"
    by (simp add: providerCredentialType_def pending_codex_def ProviderOAuthConfig_def)
  have db: "db_faults codex_db = []" "distinct (map pr_ID (db_providers codex_db))"
    "\<forall>p \<in> set (db_providers codex_db). db_uuid codex_db (pr_ID p) = Some (pr_ID p)" "pending_codex \<in> set (db_providers codex_db)"
    "\<not> pr_Disabled pending_codex" "pr_Type pending_codex \<noteq> 10"
    by (simp_all add: codex_db_def pending_codex_def)
  have c: "carried codex_auth ''access_token'' = Some (JStr ''t'')" and dist: "distinct (map fst (au_Metadata codex_auth))"
    and i: "pr_ID pending_codex = ''p1''" and ne: "''codex'' \<noteq> ([] :: string)"
    by (simp_all add: carried_def codex_auth_def pending_codex_def)
  from credentials_roundtrip [OF db t ne l, THEN conjunct1, THEN mp, THEN mp, OF dist d1]
  obtain auths a where a: "List (''a'', ''b'') d1 = Some (Inr auths, d1)" "filter (\<lambda>a. au_ID a = pr_ID pending_codex) auths = [a]"
    "map_of (au_Metadata a) ''access_token'' = carried codex_auth ''access_token''" by fastforce
  show ?thesis using d1 a unfolding i c by blast
qed

end
