(* ===== verification/Provider_Service.thy ===== *)
theory Provider_Service
  imports Key_Service Provider_Repo Provider_Quota Warp
begin

text \<open>
  The handlers for providers: \<open>providers.go\<close>, \<open>provider_config.go\<close>, \<open>proxies.go\<close> and the health check of
  \<open>server.go\<close> (all in \<open>src/internal/driver/server\<close>), the quota cache (\<open>src/internal/cache\<close>), the client of the
  management interface (\<open>src/internal/app/cliproxyapi/management.go\<close>), and the part of
  \<open>src/internal/app/provider/cpapi.go\<close> that builds the configuration of CLIProxyAPI from the database.

  A call works on the state of the process, \<open>app\<close>.  The handlers keep the pointer to the configuration
  they were created with (\<open>sv_config\<close>), while a restart makes a new configuration object: \<open>ap_own\<close> is
  \<open>None\<close> as long as both are the same object.  A result \<open>None\<close> of a call is a run-time panic.
\<close>

section \<open>The quota cache\<close>

type_synonym cache = "(string \<times> ProviderQuota) list"

definition SaveQuota :: "string \<Rightarrow> ProviderQuota option \<Rightarrow> cache \<Rightarrow> (err + unit) \<times> cache" where
  "SaveQuota i quota c =
     (case quota of
        None \<Rightarrow> (Inl (Plain ''cache: provider ID and quota are required''), c)
      | Some q \<Rightarrow>
          if trimSpace i = [] then (Inl (Plain ''cache: provider ID and quota are required''), c)
          else (Inr (), setKey i q c))"

definition GetQuota :: "string \<Rightarrow> cache \<Rightarrow> ProviderQuota option" where
  "GetQuota i c = (if trimSpace i = [] then None else map_of c i)"

section \<open>The management interface\<close>

text \<open>
  \<open>mg_do\<close> sends a request; \<open>mg_error\<close> reads the field \<open>error\<close> of a body, empty when there is none.
  A body that is sent is encoded JSON (the values of the program always encode).
\<close>

record management =
  mg_Host :: string
  mg_Port :: int
  mg_Password :: string
  mg_Encode :: "(string \<times> string) list \<Rightarrow> string"
  mg_validURL :: "string \<Rightarrow> string option"
  mg_do :: "http_request \<Rightarrow> string + (int \<times> body)"
  mg_error :: "bytes \<Rightarrow> string"

definition ManagementJSON :: "management \<Rightarrow> string \<Rightarrow> string \<Rightarrow> (string \<times> string) list \<Rightarrow> bytes option \<Rightarrow> (bytes \<Rightarrow> err + 'a) \<Rightarrow> 'a \<Rightarrow>
    err + 'a" where
  "ManagementJSON mg method path qs body0 decode zero =
     (let endpoint0 = ''http://'' @ mg_Host mg @ '':'' @ itoa (mg_Port mg + 1) @ path;
          endpoint = (if qs \<noteq> [] then endpoint0 @ ''?'' @ mg_Encode mg qs else endpoint0);
          request = \<lparr>hr_Method = method, hr_URL = endpoint,
            hr_Header = [(''Authorization'', ''Bearer '' @ mg_Password mg), (''Accept'', ''application/json'')] @
              (case body0 of None \<Rightarrow> [] | Some _ \<Rightarrow> [(''Content-Type'', ''application/json'')]),
            hr_Body = (case body0 of None \<Rightarrow> [] | Some b \<Rightarrow> b)\<rparr>
      in
      case mg_validURL mg endpoint of
        Some e \<Rightarrow> Inl (Plain e)
      | None \<Rightarrow>
         (case mg_do mg request of
            Inl e \<Rightarrow> Inl (Plain e)
          | Inr (status, b) \<Rightarrow>
             (case readLimited (2 ^ 20) b of
                Inl e \<Rightarrow> Inl (Plain e)
              | Inr data \<Rightarrow>
                  if \<not> okStatus status then
                   (if mg_error mg data \<noteq> [] then Inl (Plain (mg_error mg data))
                    else Inl (Plain (''management API returned status '' @ itoa status)))
                  else if data = [] then Inr zero
                  else decode data)))"

section \<open>State\<close>

record app =
  ap_svc :: service
  ap_own :: "CPAPIConfig option"
  ap_warp :: Warp
  ap_held :: "Server option"
  ap_cache :: cache

type_synonym ('s, 'a) proc = "'s \<Rightarrow> ((err + 'a) \<times> 's) option"

type_synonym 'a call = "(app, 'a) proc"

text \<open>
  What a call depends on outside the process: the clock, a new UUID, the vendors' services, the WARP SDK, the
  management interface (nil in some tests), whether a restart function is configured, and how building
  CLIProxyAPI from its configuration ends.  \<open>ae_info\<close> asks a proxy for its WARP data, \<open>ae_ping\<close> sends a GET
  request.
\<close>

record app_env =
  ae_now :: go_time
  ae_newID :: string
  ae_vendor :: vendor_env
  ae_quota :: quota_env
  ae_warp :: warp_env
  ae_management :: "management option"
  ae_restarter :: bool
  ae_build :: "string option"
  ae_Host :: string
  ae_Port :: int
  ae_info :: "Proxy \<Rightarrow> string + string"
  ae_ping :: "string \<Rightarrow> string option"

definition ret :: "'a \<Rightarrow> ('s, 'a) proc" where
  "ret x a = Some (Inr x, a)"

definition fail :: "err \<Rightarrow> ('s, 'a) proc" where
  "fail e a = Some (Inl e, a)"

text \<open>One call after another, with an early return when the first one fails.\<close>

definition andThen :: "('s, 'a) proc \<Rightarrow> ('a \<Rightarrow> ('s, 'b) proc) \<Rightarrow> ('s, 'b) proc" where
  "andThen f g a =
     (case f a of
        None \<Rightarrow> None
      | Some (Inl e, a) \<Rightarrow> Some (Inl e, a)
      | Some (Inr x, a) \<Rightarrow> g x a)"

text \<open>A call whose error is dropped.\<close>

definition ignore :: "('s, 'a) proc \<Rightarrow> ('s, unit) proc" where
  "ignore f a = (case f a of None \<Rightarrow> None | Some (_, a) \<Rightarrow> Some (Inr (), a))"

text \<open>An operation on the database and the configuration of the handlers.\<close>

definition onSvc :: "'a handler \<Rightarrow> 'a call" where
  "onSvc h a = (case h (ap_svc a) of (r, s) \<Rightarrow> Some (r, a\<lparr>ap_svc := s\<rparr>))"

definition sql :: "'a sql \<Rightarrow> 'a call" where
  "sql f = onSvc (query f)"

text \<open>The same on the configuration that the running CLIProxyAPI was built from.\<close>

definition onOwn :: "'a handler \<Rightarrow> 'a call" where
  "onOwn h a =
     (case ap_own a of
        None \<Rightarrow> onSvc h a
      | Some c \<Rightarrow>
         (case h ((ap_svc a)\<lparr>sv_config := c\<rparr>) of
            (r, s) \<Rightarrow> Some (r, a\<lparr>ap_own := Some (sv_config s), ap_svc := s\<lparr>sv_config := sv_config (ap_svc a)\<rparr>\<rparr>)))"

definition adminOnly :: "ApiKey option option \<Rightarrow> string \<Rightarrow> ('s, unit) proc" where
  "adminOnly requester denied =
     (case requester of
        None \<Rightarrow> fail (Status Unauthenticated ''unauthenticated'')
      | Some (Some k) \<Rightarrow> if \<not> ak_IsAdmin k then fail (Status PermissionDenied denied) else ret ()
      | Some None \<Rightarrow> ret ())"

section \<open>The configuration of a provider\<close>

definition usesCallback :: "vendor \<Rightarrow> bool" where
  "usesCallback v = (case GetOAuthDefinition v of None \<Rightarrow> False | Some definition \<Rightarrow> od_Callback definition)"

definition addProviderConfig :: "app_env \<Rightarrow> Provider \<Rightarrow> unit call" where
  "addProviderConfig env provider0 a0 =
     (if pr_Disabled provider0 then Some (Inr (), a0)
      else
       (let (provider, a) =
              (if pr_UseProxy provider0 \<and> pr_Proxy provider0 = [] then
                (case CreateProxy (ae_warp env) (pr_ID provider0 @ ''-'' @ pr_Name provider0) (ap_warp a0) of
                   (None, w) \<Rightarrow> (provider0, a0\<lparr>ap_warp := w\<rparr>)
                 | (Some proxy, w) \<Rightarrow> (provider0\<lparr>pr_Proxy := ''http://'' @ px_Addr proxy\<rparr>, a0\<lparr>ap_warp := w\<rparr>))
               else (provider0, a0))
        in
        case ProviderOAuthConfig (pr_Type provider) of
          Inl _ \<Rightarrow> Some (Inr (), a)
        | Inr v \<Rightarrow>
            if usesCallback v then Some (Inr (), a)
            else
              case AddProviderConfig (ae_vendor env) v (sv_config (ap_svc a)) provider (ap_held a) of
                None \<Rightarrow> None
              | Some (cfg, _, held) \<Rightarrow> Some (Inr (), a\<lparr>ap_svc := (ap_svc a)\<lparr>sv_config := cfg\<rparr>, ap_held := held\<rparr>)))"

definition removeProviderConfig :: "Provider \<Rightarrow> unit call" where
  "removeProviderConfig provider a =
     (case ProviderOAuthConfig (pr_Type provider) of
        Inl _ \<Rightarrow> Some (Inr (), a)
      | Inr v \<Rightarrow>
          if usesCallback v then Some (Inr (), a)
          else
            case RemoveProviderConfig v (sv_config (ap_svc a)) provider of
              None \<Rightarrow> None
            | Some cfg \<Rightarrow> Some (Inr (), a\<lparr>ap_svc := (ap_svc a)\<lparr>sv_config := cfg\<rparr>\<rparr>))"

section \<open>Building CLIProxyAPI\<close>

definition ownConfig :: "app \<Rightarrow> CPAPIConfig" where
  "ownConfig a = (case ap_own a of None \<Rightarrow> sv_config (ap_svc a) | Some c \<Rightarrow> c)"

definition setOwn :: "CPAPIConfig \<Rightarrow> app \<Rightarrow> app" where
  "setOwn c a =
     (case ap_own a of
        None \<Rightarrow> a\<lparr>ap_svc := (ap_svc a)\<lparr>sv_config := c\<rparr>\<rparr>
      | Some _ \<Rightarrow> a\<lparr>ap_own := Some c\<rparr>)"

text \<open>A new configuration; the fields that are not part of the model are constants of the process.\<close>

definition newConfig :: "app_env \<Rightarrow> CPAPIConfig" where
  "newConfig env = \<lparr>cf_Port = ae_Port env + 1, cf_APIKeys = [], cf_ClaudeKey = [], cf_CodexKey = [], cf_GeminiKey = [],
     cf_XAIKey = [], cf_OpenAICompatibility = []\<rparr>"

definition registerProvider :: "app_env \<Rightarrow> Provider \<Rightarrow> unit call" where
  "registerProvider env provider0 a0 =
     (if pr_Disabled provider0 then Some (Inr (), a0)
      else
       (let (provider, a) =
              (if pr_UseProxy provider0 \<and> pr_IsCloudflare provider0 then
                (let (proxy, w) = CreateProxy (ae_warp env) (pr_ID provider0) (ap_warp a0);
                     provider = (case proxy of
                        None \<Rightarrow> provider0
                      | Some p \<Rightarrow> provider0\<lparr>pr_Proxy := ''http://'' @ px_Addr p\<rparr>);
                     (_, s) = query (UpdateProxyRow (pr_ID provider) (pr_Proxy provider) True True) (ap_svc a0)
                 in (provider, a0\<lparr>ap_warp := w, ap_svc := s\<rparr>))
               else (provider0, a0))
        in
        case (case ProviderOAuthConfig (pr_Type provider) of
                Inl _ \<Rightarrow> Some (ownConfig a, provider, ap_held a)
              | Inr v \<Rightarrow> AddProviderConfig (ae_vendor env) v (ownConfig a) provider (ap_held a)) of
          None \<Rightarrow> None
        | Some (cfg, provider, held) \<Rightarrow>
           (let a = (setOwn cfg a)\<lparr>ap_held := held\<rparr> in
            if pr_Type provider = 10
            then ignore (sql (UpdateProviderRow (ae_now env) (pr_ID provider) (pr_Name provider) (pr_Type provider)
                   (pr_BaseUrl provider) (pr_ClientSecret provider) (pr_UseProxy provider) (pr_Proxy provider)
                   (pr_IsCloudflare provider) (pr_Priority provider) (pr_Disabled provider))) a
            else Some (Inr (), a))))"

fun forEach :: "('p \<Rightarrow> ('s, unit) proc) \<Rightarrow> 'p list \<Rightarrow> ('s, unit) proc" where
  "forEach f [] = ret ()"
| "forEach f (p # ps) = andThen (f p) (\<lambda>_. forEach f ps)"

definition registerAllProvidersLocked :: "app_env \<Rightarrow> unit call" where
  "registerAllProvidersLocked env a0 =
     (let a = setOwn ((ownConfig a0)\<lparr>cf_CodexKey := [], cf_XAIKey := [], cf_ClaudeKey := [], cf_OpenAICompatibility := []\<rparr>) a0 in
      andThen (sql GetProviders) (\<lambda>providers.
      andThen (forEach (registerProvider env) providers) (\<lambda>_.
      ignore (onOwn saveConfig))) a)"

definition buildCPAPILocked :: "app_env \<Rightarrow> unit call" where
  "buildCPAPILocked env a =
     (case registerAllProvidersLocked env a of
        None \<Rightarrow> None
      | Some (Inl e, a) \<Rightarrow> Some (Inl (Wrap ''registerAllProviders error'' e), a)
      | Some (Inr _, a) \<Rightarrow>
         (case onOwn registerAllKeysLocked a of
            None \<Rightarrow> None
          | Some (Inl e, a) \<Rightarrow> Some (Inl (Wrap ''registerAllKeys error'' e), a)
          | Some (Inr _, a) \<Rightarrow>
             (case ae_build env of
                Some e \<Rightarrow> Some (Inl (Plain e), a)
              | None \<Rightarrow> Some (Inr (), a))))"

definition RestartCPAPI :: "app_env \<Rightarrow> unit call" where
  "RestartCPAPI env a = buildCPAPILocked env (a\<lparr>ap_own := Some (newConfig env)\<rparr>)"

section \<open>Handlers\<close>

text \<open>The text of an error.\<close>

fun codeText :: "grpc_code \<Rightarrow> string" where
  "codeText Unauthenticated = ''Unauthenticated''"
| "codeText PermissionDenied = ''PermissionDenied''"
| "codeText InvalidArgument = ''InvalidArgument''"
| "codeText NotFound = ''NotFound''"
| "codeText Internal = ''Internal''"
| "codeText FailedPrecondition = ''FailedPrecondition''"
| "codeText Unavailable = ''Unavailable''"
| "codeText AlreadyExists = ''AlreadyExists''"
| "codeText Unimplemented = ''Unimplemented''"
| "codeText (OtherCode n) = ''Code('' @ itoa n @ '')''"

fun errorText :: "err \<Rightarrow> string" where
  "errorText ErrApiKeyNotFound = ''api key not found''"
| "errorText ErrNoRows = ''no rows in result set''"
| "errorText (SQLError s) = s"
| "errorText (Plain s) = s"
| "errorText (Status c s) = ''rpc error: code = '' @ codeText c @ '' desc = '' @ s"
| "errorText (Wrap op e) = op @ '': '' @ errorText e"

definition addProvider :: "app_env \<Rightarrow> Provider \<Rightarrow> unit call" where
  "addProvider env provider =
     andThen (addProviderConfig env provider) (\<lambda>_.
     andThen (onSvc saveConfig) (\<lambda>_.
       if ae_restarter env then RestartCPAPI env else (\<lambda>_. None)))"

definition removeProvider :: "Provider \<Rightarrow> unit call" where
  "removeProvider provider =
     (if hasPrefix (pr_ClientSecret provider) ''oauth:'' then ret ()
      else andThen (removeProviderConfig provider) (\<lambda>_. onSvc saveConfig))"

record provider_input =
  pi_Name :: string
  pi_Type :: int
  pi_ClientId :: string
  pi_ClientSecret :: string
  pi_UseProxy :: bool
  pi_Proxy :: string
  pi_IsCloudflare :: bool
  pi_Priority :: int
  pi_Disabled :: bool

text \<open>A custom provider has no definition: \<open>GetOAuthDefinition().Callback\<close> panics.\<close>

definition CreateProvider :: "app_env \<Rightarrow> ApiKey option option \<Rightarrow> provider_input \<Rightarrow> string call" where
  "CreateProvider env requester req =
     andThen (adminOnly requester ''permission denied'') (\<lambda>_.
     case ProviderOAuthConfig (pi_Type req) of
       Inl _ \<Rightarrow> fail (Status InvalidArgument ''provider not supported'')
     | Inr v \<Rightarrow>
        (case GetOAuthDefinition v of
           None \<Rightarrow> (\<lambda>_. None)
         | Some definition \<Rightarrow>
             if od_Callback definition then fail (Status InvalidArgument ''use the provider authorization endpoint'')
             else
              (let clientId = (if pi_ClientId req = [] then od_DefaultURL definition else pi_ClientId req) in
               andThen (sql (CreateProviderRow (ae_now env) (ae_newID env) (pi_Name req) (pi_Type req) clientId
                   (pi_ClientSecret req) (pi_UseProxy req) (pi_Proxy req) (pi_Proxy req = []) (pi_Priority req))) (\<lambda>provider.
               andThen (addProvider env provider) (\<lambda>_. ret (pr_ID provider))))))"

definition DeleteProvider :: "ApiKey option option \<Rightarrow> string \<Rightarrow> string call" where
  "DeleteProvider requester providerId =
     andThen (adminOnly requester ''permission denied'') (\<lambda>_.
     andThen (sql (GetProvider providerId)) (\<lambda>provider.
     andThen (removeProvider provider) (\<lambda>_.
     andThen (sql (DeleteProviderRow providerId)) (\<lambda>_. ret ''ok''))))"

record provider_view =
  pv_Id :: string
  pv_Name :: string
  pv_Type :: int
  pv_ClientId :: string
  pv_ClientSecret :: string
  pv_UseProxy :: bool
  pv_Proxy :: string
  pv_IsCloudflare :: bool
  pv_Priority :: int
  pv_Disabled :: bool
  pv_Quota :: "ProviderQuota option"

definition providerToProto :: "Provider \<Rightarrow> provider_view" where
  "providerToProto p = \<lparr>pv_Id = pr_ID p, pv_Name = pr_Name p, pv_Type = pr_Type p, pv_ClientId = pr_BaseUrl p,
     pv_ClientSecret = ''null'', pv_UseProxy = pr_UseProxy p, pv_Proxy = pr_Proxy p, pv_IsCloudflare = pr_IsCloudflare p,
     pv_Priority = pr_Priority p, pv_Disabled = pr_Disabled p, pv_Quota = None\<rparr>"

definition restrictedFor :: "ApiKey option \<Rightarrow> string \<Rightarrow> bool" where
  "restrictedFor requester i =
     (case requester of None \<Rightarrow> False | Some k \<Rightarrow> \<not> ak_IsAdmin k \<and> i \<in> set (ak_RestrictedProviders k))"

definition GetProviderHandler :: "ApiKey option option \<Rightarrow> string \<Rightarrow> provider_view call" where
  "GetProviderHandler requester providerId =
     (case requester of
        None \<Rightarrow> fail (Status Unauthenticated ''unauthenticated'')
      | Some r \<Rightarrow>
          if restrictedFor r providerId then fail (Status PermissionDenied ''permission denied'')
          else andThen (sql (GetProvider providerId)) (\<lambda>provider. ret (providerToProto provider)))"

definition providerCredentialsCompleted :: "object \<Rightarrow> bool" where
  "providerCredentialsCompleted credentials = (trimSpace (stringAt credentials ''access_token'') \<noteq> [])"

definition providerOAuthReady :: "string \<Rightarrow> object \<Rightarrow> bool" where
  "providerOAuthReady clientSecret credentials =
     (if \<not> hasPrefix clientSecret ''oauth:'' then False
      else if clientSecret \<noteq> ''oauth:pending'' then True
      else providerCredentialsCompleted credentials)"

definition loadQuota :: "app_env \<Rightarrow> Provider \<Rightarrow> ProviderQuota option call" where
  "loadQuota env provider a =
     (if pr_Type provider \<in> {1, 7, 8} \<or> pr_Disabled provider then Some (Inr None, a)
      else
        case GetQuota (pr_ID provider) (ap_cache a) of
          Some quota \<Rightarrow> Some (Inr (Some quota), a)
        | None \<Rightarrow>
           (case ProviderOAuthConfig (pr_Type provider) of
              Inl e \<Rightarrow> Some (Inl e, a)
            | Inr v \<Rightarrow>
               (case LoadQuota (ae_quota env) v (pr_Credentials provider) (pr_UseProxy provider) (pr_Proxy provider) of
                  QuotaPanic \<Rightarrow> None
                | QuotaNil \<Rightarrow> Some (Inr None, a)
                | Quota quota \<Rightarrow>
                    Some (Inr (Some quota), a\<lparr>ap_cache := snd (SaveQuota (pr_ID provider) (Some quota) (ap_cache a))\<rparr>))))"

fun listProviders :: "app_env \<Rightarrow> ApiKey option \<Rightarrow> Provider list \<Rightarrow> provider_view list call" where
  "listProviders env r [] = ret []"
| "listProviders env r (provider # rest) =
     (if restrictedFor r (pr_ID provider) then listProviders env r rest
      else if providerOAuthReady (pr_ClientSecret provider) (pr_Credentials provider) then
       (\<lambda>a. case loadQuota env provider a of
          None \<Rightarrow> None
        | Some (q, a) \<Rightarrow>
            andThen (listProviders env r rest)
              (\<lambda>vs. ret ((providerToProto provider)\<lparr>pv_Quota := (case q of Inl _ \<Rightarrow> None | Inr quota \<Rightarrow> quota)\<rparr> # vs)) a)
      else andThen (listProviders env r rest) (\<lambda>vs. ret (providerToProto provider # vs)))"

definition GetProvidersList :: "app_env \<Rightarrow> ApiKey option option \<Rightarrow> provider_view list call" where
  "GetProvidersList env requester =
     andThen (sql GetProviders) (\<lambda>providers.
     case requester of
       None \<Rightarrow> fail (Status Unauthenticated ''unauthenticated'')
     | Some r \<Rightarrow> listProviders env r providers)"

definition ReloadProviders :: "app_env \<Rightarrow> ApiKey option option \<Rightarrow> unit call" where
  "ReloadProviders env requester =
     andThen (adminOnly requester ''permission denied, ask admin to reload providers'') (\<lambda>_.
       if \<not> ae_restarter env then fail (Status Unimplemented ''provider reload is not configured'')
       else (\<lambda>a. case RestartCPAPI env a of
               None \<Rightarrow> None
             | Some (Inl e, a) \<Rightarrow> Some (Inl (Status Internal (''reload providers: '' @ errorText e)), a)
             | Some (Inr _, a) \<Rightarrow> Some (Inr (), a)))"

text \<open>The body of the request to the management interface is an encoding of its two fields, an argument.\<close>

definition UpdateProvider :: "app_env \<Rightarrow> (string \<Rightarrow> bool \<Rightarrow> bytes) \<Rightarrow> ApiKey option option \<Rightarrow> string \<Rightarrow> provider_input \<Rightarrow> string call" where
  "UpdateProvider env statusBody requester providerId req =
     andThen (adminOnly requester ''permission denied, ask admin to update provider'') (\<lambda>_.
     case ProviderOAuthConfig (pi_Type req) of
       Inl e \<Rightarrow> fail e
     | Inr v \<Rightarrow>
        (case (if pi_ClientId req = [] \<and> pi_Type req \<noteq> 1 then map_option od_DefaultURL (GetOAuthDefinition v)
               else Some (pi_ClientId req)) of
           None \<Rightarrow> (\<lambda>_. None)
         | Some clientId \<Rightarrow>
             andThen (sql (GetProvider providerId)) (\<lambda>oldProvider.
             andThen (sql (UpdateProviderRow (ae_now env) providerId (pi_Name req) (pi_Type req) clientId (pi_ClientSecret req)
                 (pi_UseProxy req) (pi_Proxy req) (pi_IsCloudflare req) (pi_Priority req) (pi_Disabled req))) (\<lambda>provider.
             andThen
               (case ae_management env of
                  None \<Rightarrow> ret ()
                | Some mg \<Rightarrow>
                    if pr_Credentials provider = [] then ret ()
                    else
                      case ManagementJSON mg ''PATCH'' ''/v0/management/auth-files/status'' []
                             (Some (statusBody (pr_ID provider) (pr_Disabled provider))) (\<lambda>_. Inr ()) () of
                        Inl e \<Rightarrow> fail e
                      | Inr _ \<Rightarrow> ret ()) (\<lambda>_.
             andThen (removeProviderConfig oldProvider) (\<lambda>_.
             andThen (addProviderConfig env provider) (\<lambda>_.
             andThen (onSvc saveConfig) (\<lambda>_. ret ''ok''))))))))"

section \<open>Proxies and health\<close>

record proxies_view =
  xv_Endpoints :: "(string \<times> int) list"
  xv_Proxies :: "(string \<times> string \<times> string \<times> string) list"

text \<open>Name, URL, address and WARP data of every proxy; the first proxy without data ends the request.\<close>

fun proxyViews :: "(Proxy \<Rightarrow> string + string) \<Rightarrow> (string \<times> string \<times> Proxy) list \<Rightarrow> string + (string \<times> string \<times> string \<times> string) list" where
  "proxyViews info [] = Inr []"
| "proxyViews info ((addr, name, proxy) # rest) =
     (case info proxy of
        Inl e \<Rightarrow> Inl e
      | Inr i \<Rightarrow>
         (case proxyViews info rest of
            Inl e \<Rightarrow> Inl e
          | Inr vs \<Rightarrow> Inr ((name, px_Addr proxy, addr, i) # vs)))"

definition allProxies :: "Warp \<Rightarrow> (string \<times> string \<times> Proxy) list" where
  "allProxies w = concat (map (\<lambda>(addr, names). map (\<lambda>(name, proxy). (addr, name, proxy)) names) (Proxies w))"

definition GetProxies :: "app_env \<Rightarrow> ApiKey option option \<Rightarrow> proxies_view call" where
  "GetProxies env requester =
     andThen (adminOnly requester ''permission denied'') (\<lambda>_ a.
       case proxyViews (ae_info env) (allProxies (ap_warp a)) of
         Inl e \<Rightarrow> Some (Inl (Plain e), a)
       | Inr vs \<Rightarrow> Some (Inr \<lparr>xv_Endpoints = map (\<lambda>(e, _). (en_AddrPort e, en_RTT e)) (Endpoints (ap_warp a)), xv_Proxies = vs\<rparr>, a))"

definition UpdateProxy :: "unit call" where
  "UpdateProxy = fail (Status (OtherCode 418) ''method is obsolete'')"

text \<open>The messages of the health check, with what they are built from.\<close>

datatype issue =
    DatabaseUnreachable err
  | ProxyUnhealthy string string
  | CPAPIUnreachable string
  | AuthorizationIncomplete string string

definition checkCPAPIAlive :: "app_env \<Rightarrow> app \<Rightarrow> string option" where
  "checkCPAPIAlive env a = ae_ping env (''http://'' @ ae_Host env @ '':'' @ itoa (cf_Port (sv_config (ap_svc a)) + 1) @ ''/'')"

definition proxyIssues :: "(Proxy \<Rightarrow> string + string) \<Rightarrow> Warp \<Rightarrow> issue list" where
  "proxyIssues info w =
     List.map_filter (\<lambda>(_, name, proxy). case info proxy of Inl e \<Rightarrow> Some (ProxyUnhealthy name e) | Inr _ \<Rightarrow> None) (allProxies w)"

definition pendingIssues :: "Provider list \<Rightarrow> issue list" where
  "pendingIssues ps =
     map (\<lambda>p. AuthorizationIncomplete (pr_Name p) (pr_ID p))
       (filter (\<lambda>p. \<not> pr_Disabled p \<and> pr_ClientSecret p \<noteq> [] \<and> pr_ClientSecret p = ''oauth:pending'') ps)"

definition HealthCheck :: "app_env \<Rightarrow> app \<Rightarrow> (string \<times> issue list) \<times> app" where
  "HealthCheck env a0 =
     (let (r1, s1) = query GetProviders (ap_svc a0);
          a = a0\<lparr>ap_svc := s1\<rparr>;
          issues = (case r1 of Inl e \<Rightarrow> [DatabaseUnreachable e] | Inr _ \<Rightarrow> []) @ proxyIssues (ae_info env) (ap_warp a);
          (issues, a) =
            (case checkCPAPIAlive env a of
               Some e \<Rightarrow> (issues @ [CPAPIUnreachable e], a)
             | None \<Rightarrow>
                (case query GetProviders (ap_svc a) of
                   (Inl _, s) \<Rightarrow> (issues, a\<lparr>ap_svc := s\<rparr>)
                 | (Inr ps, s) \<Rightarrow> (issues @ pendingIssues ps, a\<lparr>ap_svc := s\<rparr>)))
      in ((if issues = [] then ''ok'' else ''unhealthy'', issues), a))"

section \<open>A restart starts from the database\<close>

text \<open>
  Two states that differ at most in the configurations that are already there (of the handlers and
  on disk) and in the cache, and calls that cannot tell them apart and leave the handlers' one alone.
\<close>

definition agree :: "app \<Rightarrow> app \<Rightarrow> bool" where
  "agree a b \<longleftrightarrow> sv_db (ap_svc a) = sv_db (ap_svc b) \<and> sv_saves (ap_svc a) = sv_saves (ap_svc b) \<and> ap_warp a = ap_warp b \<and>
     ap_held a = ap_held b \<and> (\<exists>c. ap_own a = Some c \<and> ap_own b = Some c)"

definition untouched :: "app \<Rightarrow> app \<Rightarrow> bool" where
  "untouched a b \<longleftrightarrow> sv_config (ap_svc b) = sv_config (ap_svc a) \<and> (sv_saves (ap_svc a) = [] \<longrightarrow> sv_saves (ap_svc b) = [])"

lemma untouched_trans: "untouched a b \<Longrightarrow> untouched b c \<Longrightarrow> untouched a c"
  by (simp add: untouched_def)

lemma untouched_refl [simp]: "untouched a a"
  by (simp add: untouched_def)

definition uniform :: "'a call \<Rightarrow> bool" where
  "uniform f \<longleftrightarrow> (\<forall>a b. agree a b \<longrightarrow> f a = None \<and> f b = None \<or>
     (\<exists>r a' b'. f a = Some (r, a') \<and> f b = Some (r, b') \<and> agree a' b' \<and> untouched a a'))"

named_theorems uniform

lemma uniformI:
  assumes "\<And>a b. agree a b \<Longrightarrow> f a = None \<and> f b = None \<or>
     (\<exists>r a' b'. f a = Some (r, a') \<and> f b = Some (r, b') \<and> agree a' b' \<and> untouched a a')"
  shows "uniform f"
  using assms by (simp add: uniform_def)

lemma uniformE:
  assumes "uniform f" "agree a b"
  obtains (panic) "f a = None" "f b = None"
  | (run) r a' b' where "f a = Some (r, a')" "f b = Some (r, b')" "agree a' b'" "untouched a a'"
proof -
  from assms have "f a = None \<and> f b = None \<or>
     (\<exists>r a' b'. f a = Some (r, a') \<and> f b = Some (r, b') \<and> agree a' b' \<and> untouched a a')"
    by (simp add: uniform_def)
  then show ?thesis using panic run by blast
qed

lemma uniform_ret [uniform]: "uniform (ret x)"
  by (simp add: uniform_def ret_def)

lemma uniform_andThen [uniform]:
  assumes "uniform f" "\<And>x. uniform (g x)"
  shows "uniform (andThen f g)"
proof (rule uniformI)
  fix a b
  assume ab: "agree a b"
  show "andThen f g a = None \<and> andThen f g b = None \<or>
    (\<exists>r a' b'. andThen f g a = Some (r, a') \<and> andThen f g b = Some (r, b') \<and> agree a' b' \<and> untouched a a')"
    using assms(1) ab
  proof (cases rule: uniformE)
    case panic
    then show ?thesis by (simp add: andThen_def)
  next
    case (run r a' b')
    show ?thesis
    proof (cases r)
      case (Inl e)
      then show ?thesis using run by (simp add: andThen_def)
    next
      case (Inr x)
      show ?thesis using assms(2) [of x] run(3)
        by (cases rule: uniformE) (use run Inr in \<open>auto simp: andThen_def intro: untouched_trans\<close>)
    qed
  qed
qed

lemma uniform_ignore [uniform]:
  assumes "uniform f"
  shows "uniform (ignore f)"
proof (rule uniformI)
  fix a b
  assume "agree a b"
  with assms show "ignore f a = None \<and> ignore f b = None \<or>
    (\<exists>r a' b'. ignore f a = Some (r, a') \<and> ignore f b = Some (r, b') \<and> agree a' b' \<and> untouched a a')"
    by (cases rule: uniformE) (simp_all add: ignore_def)
qed

lemma uniform_sql [uniform]: "uniform (sql f)"
proof (rule uniformI)
  fix a b
  assume "agree a b"
  then show "sql f a = None \<and> sql f b = None \<or>
    (\<exists>r a' b'. sql f a = Some (r, a') \<and> sql f b = Some (r, b') \<and> agree a' b' \<and> untouched a a')"
    by (cases "f (sv_db (ap_svc b))") (simp add: sql_def onSvc_def query_def agree_def untouched_def)
qed

text \<open>A handler whose result depends on the database, its configuration and the failures of saving.\<close>

definition oblivious :: "'a handler \<Rightarrow> bool" where
  "oblivious h \<longleftrightarrow> (\<forall>s t. sv_db s = sv_db t \<longrightarrow> sv_saves s = sv_saves t \<longrightarrow> sv_config s = sv_config t \<longrightarrow>
     fst (h s) = fst (h t) \<and> sv_db (snd (h s)) = sv_db (snd (h t)) \<and> sv_saves (snd (h s)) = sv_saves (snd (h t)) \<and>
     sv_config (snd (h s)) = sv_config (snd (h t)) \<and> (sv_saves s = [] \<longrightarrow> sv_saves (snd (h s)) = []))"

lemma uniform_onOwn:
  assumes "oblivious h"
  shows "uniform (onOwn h)"
proof (rule uniformI)
  fix a b
  assume ab: "agree a b"
  then obtain c where c: "ap_own a = Some c" "ap_own b = Some c" by (auto simp: agree_def)
  let ?s = "(ap_svc a)\<lparr>sv_config := c\<rparr>" and ?t = "(ap_svc b)\<lparr>sv_config := c\<rparr>"
  have "fst (h ?s) = fst (h ?t) \<and> sv_db (snd (h ?s)) = sv_db (snd (h ?t)) \<and> sv_saves (snd (h ?s)) = sv_saves (snd (h ?t)) \<and>
     sv_config (snd (h ?s)) = sv_config (snd (h ?t)) \<and> (sv_saves ?s = [] \<longrightarrow> sv_saves (snd (h ?s)) = [])"
    using assms [unfolded oblivious_def, rule_format, of ?s ?t] ab by (auto simp: agree_def)
  then show "onOwn h a = None \<and> onOwn h b = None \<or>
    (\<exists>r a' b'. onOwn h a = Some (r, a') \<and> onOwn h b = Some (r, b') \<and> agree a' b' \<and> untouched a a')"
    using ab c by (auto simp: onOwn_def agree_def untouched_def split: prod.splits)
qed

lemma oblivious_saveConfig: "oblivious saveConfig"
  by (auto simp: oblivious_def saveConfig_def split: list.splits option.splits)

lemma saveConfig_keeps [simp]: "sv_db (snd (saveConfig s)) = sv_db s" "sv_config (snd (saveConfig s)) = sv_config s"
  "sv_saves (snd (saveConfig s)) = tl (sv_saves s)"
  by (auto simp: saveConfig_def split: list.splits option.splits)

lemma oblivious_registerAllKeys: "oblivious registerAllKeysLocked"
  unfolding oblivious_def
proof (intro allI impI)
  fix s t :: service
  assume eq: "sv_db s = sv_db t" "sv_saves s = sv_saves t" "sv_config s = sv_config t"
  obtain r d where g: "GetApiKeys (sv_db t) = (r, d)" by fastforce
  show "fst (registerAllKeysLocked s) = fst (registerAllKeysLocked t) \<and>
      sv_db (snd (registerAllKeysLocked s)) = sv_db (snd (registerAllKeysLocked t)) \<and>
      sv_saves (snd (registerAllKeysLocked s)) = sv_saves (snd (registerAllKeysLocked t)) \<and>
      sv_config (snd (registerAllKeysLocked s)) = sv_config (snd (registerAllKeysLocked t)) \<and>
      (sv_saves s = [] \<longrightarrow> sv_saves (snd (registerAllKeysLocked s)) = [])"
    using g eq by (cases r) (simp_all add: registerAllKeysLocked_def Let_def query_def setAPIKeys_def)
qed

lemmas uniform_saves [uniform] = uniform_onOwn [OF oblivious_saveConfig] uniform_onOwn [OF oblivious_registerAllKeys]

lemma agree_own [simp]: "agree a b \<Longrightarrow> ownConfig a = ownConfig b"
  by (auto simp: agree_def ownConfig_def)

lemma agree_setOwn: "agree a b \<Longrightarrow> agree ((setOwn c a)\<lparr>ap_held := h\<rparr>) ((setOwn c b)\<lparr>ap_held := h\<rparr>)"
  "agree a b \<Longrightarrow> agree (setOwn c a) (setOwn c b)"
  "agree a b \<Longrightarrow> untouched a (setOwn c a)" "agree a b \<Longrightarrow> untouched a ((setOwn c a)\<lparr>ap_held := h\<rparr>)"
  by (auto simp: agree_def setOwn_def untouched_def)

text \<open>The proxy of a provider and its row, then the rest of its registration.\<close>

definition takeProxy :: "app_env \<Rightarrow> Provider \<Rightarrow> app \<Rightarrow> Provider \<times> app" where
  "takeProxy env p a =
     (let (proxy, w) = CreateProxy (ae_warp env) (pr_ID p) (ap_warp a);
          provider = (case proxy of None \<Rightarrow> p | Some x \<Rightarrow> p\<lparr>pr_Proxy := ''http://'' @ px_Addr x\<rparr>);
          (_, s) = query (UpdateProxyRow (pr_ID provider) (pr_Proxy provider) True True) (ap_svc a)
      in (provider, a\<lparr>ap_warp := w, ap_svc := s\<rparr>))"

definition register :: "app_env \<Rightarrow> Provider \<Rightarrow> unit call" where
  "register env provider a =
     (case (case ProviderOAuthConfig (pr_Type provider) of
              Inl _ \<Rightarrow> Some (ownConfig a, provider, ap_held a)
            | Inr v \<Rightarrow> AddProviderConfig (ae_vendor env) v (ownConfig a) provider (ap_held a)) of
        None \<Rightarrow> None
      | Some (cfg, provider, held) \<Rightarrow>
         (let a = (setOwn cfg a)\<lparr>ap_held := held\<rparr> in
          if pr_Type provider = 10
          then ignore (sql (UpdateProviderRow (ae_now env) (pr_ID provider) (pr_Name provider) (pr_Type provider)
                 (pr_BaseUrl provider) (pr_ClientSecret provider) (pr_UseProxy provider) (pr_Proxy provider)
                 (pr_IsCloudflare provider) (pr_Priority provider) (pr_Disabled provider))) a
          else Some (Inr (), a)))"

lemma registerProvider_eq:
  "registerProvider env p a =
     (if pr_Disabled p then Some (Inr (), a)
      else if pr_UseProxy p \<and> pr_IsCloudflare p then (case takeProxy env p a of (q, b) \<Rightarrow> register env q b)
      else register env p a)"
  by (simp add: registerProvider_def takeProxy_def register_def Let_def split: prod.splits)

lemma uniform_register: "uniform (register env p)"
proof (rule uniformI)
  fix a b
  assume ab: "agree a b"
  define added where "added = (case ProviderOAuthConfig (pr_Type p) of
              Inl _ \<Rightarrow> Some (ownConfig a, p, ap_held a)
            | Inr v \<Rightarrow> AddProviderConfig (ae_vendor env) v (ownConfig a) p (ap_held a))"
  have b: "(case ProviderOAuthConfig (pr_Type p) of
              Inl _ \<Rightarrow> Some (ownConfig b, p, ap_held b)
            | Inr v \<Rightarrow> AddProviderConfig (ae_vendor env) v (ownConfig b) p (ap_held b)) = added"
    using ab by (simp add: added_def agree_def ownConfig_def split: sum.splits) auto
  show "register env p a = None \<and> register env p b = None \<or>
    (\<exists>r a' b'. register env p a = Some (r, a') \<and> register env p b = Some (r, b') \<and> agree a' b' \<and>
      untouched a a')"
  proof (cases added)
    case None
    then show ?thesis using b by (simp add: register_def added_def)
  next
    case (Some x)
    obtain cfg q h where x: "x = (cfg, q, h)" by (rule prod_cases3)
    let ?f = "ignore (sql (UpdateProviderRow (ae_now env) (pr_ID q) (pr_Name q) (pr_Type q)
                 (pr_BaseUrl q) (pr_ClientSecret q) (pr_UseProxy q) (pr_Proxy q) (pr_IsCloudflare q) (pr_Priority q) (pr_Disabled q)))"
    let ?a = "(setOwn cfg a)\<lparr>ap_held := h\<rparr>" and ?b = "(setOwn cfg b)\<lparr>ap_held := h\<rparr>"
    have r: "register env p a = (if pr_Type q = 10 then ?f ?a else Some (Inr (), ?a))"
      "register env p b = (if pr_Type q = 10 then ?f ?b else Some (Inr (), ?b))"
      using b Some x by (simp_all add: register_def added_def)
    have c: "agree ?a ?b" "untouched a ?a" using ab by (simp_all add: agree_setOwn)
    have f: "uniform ?f" by (intro uniform)
    show ?thesis
    proof (cases "pr_Type q = 10")
      case True
      from f c(1) show ?thesis by (cases rule: uniformE) (use True r c(2) in \<open>auto intro: untouched_trans\<close>)
    next
      case False
      then show ?thesis using r c by auto
    qed
  qed
qed

lemma takeProxy_agree:
  assumes "agree a b"
  obtains q a' b' where "takeProxy env p a = (q, a')" "takeProxy env p b = (q, b')" "agree a' b'"
    "untouched a a'"
proof -
  obtain x w where w: "CreateProxy (ae_warp env) (pr_ID p) (ap_warp b) = (x, w)" by fastforce
  let ?q = "case x of None \<Rightarrow> p | Some x \<Rightarrow> p\<lparr>pr_Proxy := ''http://'' @ px_Addr x\<rparr>"
  obtain r d where d: "UpdateProxyRow (pr_ID ?q) (pr_Proxy ?q) True True (sv_db (ap_svc b)) = (r, d)" by fastforce
  show ?thesis
    using w d assms that [of ?q "a\<lparr>ap_warp := w, ap_svc := (ap_svc a)\<lparr>sv_db := d\<rparr>\<rparr>" "b\<lparr>ap_warp := w, ap_svc := (ap_svc b)\<lparr>sv_db := d\<rparr>\<rparr>"]
    by (auto simp: takeProxy_def query_def agree_def untouched_def Let_def)
qed

lemma uniform_registerProvider [uniform]: "uniform (registerProvider env p)"
proof (rule uniformI)
  fix a b
  assume ab: "agree a b"
  show "registerProvider env p a = None \<and> registerProvider env p b = None \<or>
    (\<exists>r a' b'. registerProvider env p a = Some (r, a') \<and> registerProvider env p b = Some (r, b') \<and> agree a' b' \<and>
      untouched a a')"
  proof (cases "\<not> pr_Disabled p \<and> pr_UseProxy p \<and> pr_IsCloudflare p")
    case True
    obtain q a' b' where t: "takeProxy env p a = (q, a')" "takeProxy env p b = (q, b')" "agree a' b'"
      "untouched a a'" using takeProxy_agree [OF ab] .
    from uniform_register [of env q] t(3) show ?thesis
      by (cases rule: uniformE) (use True t in \<open>auto simp: registerProvider_eq intro: untouched_trans\<close>)
  next
    case False
    from uniform_register [of env p] ab show ?thesis
      by (cases rule: uniformE) (use False ab in \<open>auto simp: registerProvider_eq\<close>)
  qed
qed

lemma uniform_forEach [uniform]: "(\<And>p. uniform (f p)) \<Longrightarrow> uniform (forEach f ps)"
  by (induction ps) (auto intro: uniform)

lemma uniform_registerAllProviders: "uniform (registerAllProvidersLocked env)"
proof (rule uniformI)
  fix a b
  assume ab: "agree a b"
  let ?c = "(ownConfig b)\<lparr>cf_CodexKey := [], cf_XAIKey := [], cf_ClaudeKey := [], cf_OpenAICompatibility := []\<rparr>"
  have "uniform (andThen (sql GetProviders) (\<lambda>providers. andThen (forEach (registerProvider env) providers) (\<lambda>_. ignore (onOwn saveConfig))))"
    by (intro uniform)
  from this agree_setOwn(2) [OF ab, of ?c] show "registerAllProvidersLocked env a = None \<and> registerAllProvidersLocked env b = None \<or>
    (\<exists>r a' b'. registerAllProvidersLocked env a = Some (r, a') \<and> registerAllProvidersLocked env b = Some (r, b') \<and>
      agree a' b' \<and> untouched a a')"
    by (cases rule: uniformE)
      (use ab agree_setOwn(3) [OF ab, of ?c] in \<open>auto simp: registerAllProvidersLocked_def Let_def intro: untouched_trans\<close>)
qed

lemma registerAllKeys_result:
  assumes "registerAllKeysLocked s = (Inr (), s')"
  shows "set (cf_APIKeys (sv_config s')) = liveSecrets (sv_db s')" "sv_saves s = [] \<Longrightarrow> sv_disk s' = sv_config s'"
proof -
  obtain r d where g: "GetApiKeys (sv_db s) = (r, d)" by fastforce
  then obtain ks where r: "r = Inr ks" using assms by (cases r) (auto simp: registerAllKeysLocked_def Let_def query_def setAPIKeys_def)
  have s': "s' = snd (saveConfig (setAPIKeys (map ak_Key ks) ((setAPIKeys [] s)\<lparr>sv_db := d\<rparr>)))"
    using assms g r by (simp add: registerAllKeysLocked_def Let_def query_def setAPIKeys_def)
  have "set (map ak_Key ks) = liveSecrets d"
    using GetApiKeys_effect [OF g] r sig_frame [of d "sv_db s"] by (auto simp: liveSecrets_eq)
  then show "set (cf_APIKeys (sv_config s')) = liveSecrets (sv_db s')" by (simp add: s' setAPIKeys_def)
  show "sv_disk s' = sv_config s'" if "sv_saves s = []" using that by (simp add: s' setAPIKeys_def saveConfig_def)
qed


section \<open>Proxies of a restart\<close>

definition proxied :: "Provider \<Rightarrow> bool" where
  "proxied p \<longleftrightarrow> \<not> pr_Disabled p \<and> pr_UseProxy p \<and> pr_IsCloudflare p"

text \<open>The number of addresses of a pool.\<close>

definition capacity :: "Warp \<Rightarrow> nat" where
  "capacity w = card (en_AddrPort ` fst ` set (wr_endpoints w))"

text \<open>From one pool to the next: \<open>n\<close> more proxies, as far as there are addresses; none is stopped.\<close>

definition grows :: "nat \<Rightarrow> Warp \<Rightarrow> Warp \<Rightarrow> bool" where
  "grows n w w' \<longleftrightarrow> warpOK w' \<and> capacity w' = capacity w \<and> length (running w') = min (length (running w) + n) (capacity w) \<and>
     set (running w) \<subseteq> set (running w')"

lemma grows_0: "warpOK w \<Longrightarrow> grows 0 w w"
  using running_bound [of w] by (simp add: grows_def capacity_def)

lemma grows_trans: "grows m u v \<Longrightarrow> grows n v w \<Longrightarrow> grows (m + n) u w"
  by (auto simp: grows_def)

lemma CreateProxy_grows:
  assumes "warpOK w" "orderOK (env, name)" "sdkWorks env" "CreateProxy env name w = (r, w')"
  shows "grows 1 w w'"
proof -
  have cap: "capacity w' = capacity w" if "map fst (wr_endpoints w') = map fst (wr_endpoints w)"
    using that by (simp add: capacity_def flip: set_map)
  from CreateProxy_step [OF assms(1) _ assms(4)] assms(2)
  have "warpOK w'" and step: "r = None \<and> w' = w \<or> (\<exists>p addr. r = Some p \<and> running w' = (addr, p) # running w \<and>
       map fst (wr_endpoints w') = map fst (wr_endpoints w))" by (auto simp: orderOK_def)
  from step show ?thesis
  proof
    assume none: "r = None \<and> w' = w"
    then have "\<not> length (running w) < capacity w"
      using CreateProxy_available [OF assms(1) _ assms(2,3)] assms(4) by (auto simp: capacity_def)
    then show ?thesis using none assms(1) running_bound [OF assms(1)] by (simp add: grows_def capacity_def)
  next
    assume "\<exists>p addr. r = Some p \<and> running w' = (addr, p) # running w \<and> map fst (wr_endpoints w') = map fst (wr_endpoints w)"
    then show ?thesis using cap \<open>warpOK w'\<close> running_bound [OF \<open>warpOK w'\<close>] by (auto simp: grows_def capacity_def)
  qed
qed

lemma sql_warp: "sql f a = Some (r, a') \<Longrightarrow> ap_warp a' = ap_warp a"
  by (auto simp: sql_def onSvc_def split: prod.splits)

lemma onOwn_warp: "onOwn h a = Some (r, a') \<Longrightarrow> ap_warp a' = ap_warp a"
  by (auto simp: onOwn_def onSvc_def split: prod.splits option.splits)

lemma ignore_Some: "ignore f a = Some (r, a') \<Longrightarrow> \<exists>x. f a = Some (x, a')"
  by (auto simp: ignore_def split: option.splits)

lemma setOwn_warp [simp]: "ap_warp (setOwn c a) = ap_warp a"
  by (simp add: setOwn_def split: option.splits)

lemma register_warp: "register env p a = Some (r, a') \<Longrightarrow> ap_warp a' = ap_warp a"
  by (auto simp: register_def Let_def split: option.splits prod.splits if_splits dest!: ignore_Some sql_warp)

lemma registerProvider_grows:
  assumes "warpOK (ap_warp a)" "orderOK (ae_warp env, [])" "sdkWorks (ae_warp env)" "registerProvider env p a = Some (r, a')"
  shows "grows (if proxied p then 1 else 0) (ap_warp a) (ap_warp a')"
proof (cases "proxied p")
  case True
  obtain x w where w: "CreateProxy (ae_warp env) (pr_ID p) (ap_warp a) = (x, w)" by fastforce
  obtain q b where t: "takeProxy env p a = (q, b)" by fastforce
  have "ap_warp b = w" using t w by (auto simp: takeProxy_def Let_def split: prod.splits)
  moreover have "ap_warp a' = ap_warp b" using assms(4) t True register_warp by (auto simp: registerProvider_eq proxied_def)
  moreover have "orderOK (ae_warp env, pr_ID p)" using assms(2) by (simp add: orderOK_def)
  ultimately show ?thesis using CreateProxy_grows [OF assms(1) _ assms(3) w] True by simp
next
  case False
  then have "ap_warp a' = ap_warp a"
    using assms(4) register_warp by (auto simp: registerProvider_eq proxied_def split: if_splits)
  then show ?thesis using False grows_0 [OF assms(1)] by simp
qed

lemma forEach_grows:
  assumes "warpOK (ap_warp a)" "orderOK (ae_warp env, [])" "sdkWorks (ae_warp env)" "forEach (registerProvider env) ps a = Some (Inr (), a')"
  shows "grows (length (filter proxied ps)) (ap_warp a) (ap_warp a')"
  using assms
proof (induction ps arbitrary: a)
  case Nil
  then show ?case by (auto simp: ret_def intro: grows_0)
next
  case (Cons p ps)
  obtain r b where b: "registerProvider env p a = Some (r, b)" and rest: "forEach (registerProvider env) ps b = Some (Inr (), a')"
    using Cons.prems(4) by (auto simp: andThen_def split: option.splits sum.splits)
  note g = registerProvider_grows [OF Cons.prems(1-3) b]
  then have "warpOK (ap_warp b)" by (simp add: grows_def)
  from grows_trans [OF g Cons.IH [OF this Cons.prems(2,3) rest]] show ?case by (simp split: if_splits)
qed

text \<open>
  C36: a restart asks for a new proxy for every enabled provider behind Cloudflare and stops none: with a
  working SDK the pool grows by their number each time, until its addresses are used up.
\<close>

theorem restart_takes_new_proxies:
  assumes "warpOK (ap_warp a)" "orderOK (ae_warp env, [])" "sdkWorks (ae_warp env)" "db_faults (sv_db (ap_svc a)) = []"
    and "RestartCPAPI env a = Some (Inr (), a')"
  shows "length (running (ap_warp a')) =
      min (length (running (ap_warp a)) + length (filter proxied (db_providers (sv_db (ap_svc a))))) (capacity (ap_warp a)) \<and>
    set (running (ap_warp a)) \<subseteq> set (running (ap_warp a'))"
proof -
  obtain b where b: "registerAllProvidersLocked env (a\<lparr>ap_own := Some (newConfig env)\<rparr>) = Some (Inr (), b)"
    and "onOwn registerAllKeysLocked b = Some (Inr (), a')"
    using assms(5) by (auto simp: RestartCPAPI_def buildCPAPILocked_def split: option.splits sum.splits)
  then have "ap_warp a' = ap_warp b" by (simp add: onOwn_warp)
  moreover obtain c where "forEach (registerProvider env) (db_providers (sv_db (ap_svc a)))
      (setOwn (newConfig env) (a\<lparr>ap_own := Some (newConfig env)\<rparr>)) = Some (Inr (), c)" "ap_warp b = ap_warp c"
    using b assms(4)
    by (auto simp: registerAllProvidersLocked_def Let_def andThen_def sql_def onSvc_def query_def GetProviders_def stmt_no_fault
        newConfig_def ownConfig_def setOwn_def dest!: ignore_Some onOwn_warp split: option.splits sum.splits prod.splits)
  ultimately show ?thesis using forEach_grows [OF _ assms(2,3), of "setOwn (newConfig env) (a\<lparr>ap_own := Some (newConfig env)\<rparr>)"] assms(1)
    by (auto simp: grows_def)
qed

section \<open>The list of providers\<close>

lemma loadQuota_cached:
  assumes "loadQuota env p a = Some (q, a')" "trimSpace (pr_ID p) \<noteq> []"
  shows "a' = a\<lparr>ap_cache := ap_cache a'\<rparr>" "q = Inr (Some x) \<Longrightarrow> map_of (ap_cache a') (pr_ID p) = Some x"
    "i \<noteq> pr_ID p \<Longrightarrow> map_of (ap_cache a') i = map_of (ap_cache a) i"
    "map_of (ap_cache a) (pr_ID p) = Some x \<Longrightarrow> map_of (ap_cache a') (pr_ID p) = Some x"
  using assms
  by (auto simp: loadQuota_def GetQuota_def SaveQuota_def split: if_splits option.splits sum.splits quota_result.splits)

text \<open>What a request for the list has shown so far stays cached.\<close>

lemma listProviders_result:
  assumes "listProviders env r ps a = Some (res, a')" "\<forall>p \<in> set ps. trimSpace (pr_ID p) \<noteq> []" "distinct (map pr_ID ps)"
  shows "\<exists>vs. res = Inr vs \<and> ap_svc a' = ap_svc a \<and>
    map (\<lambda>v. v\<lparr>pv_Quota := None\<rparr>) vs = map providerToProto (filter (\<lambda>p. \<not> restrictedFor r (pr_ID p)) ps) \<and>
    (\<forall>v \<in> set vs. \<forall>x. pv_Quota v = Some x \<longrightarrow> map_of (ap_cache a') (pv_Id v) = Some x) \<and>
    (\<forall>i. i \<notin> pr_ID ` set ps \<longrightarrow> map_of (ap_cache a') i = map_of (ap_cache a) i)"
  using assms
proof (induction ps arbitrary: a res)
  case Nil
  then show ?case by (simp add: ret_def)
next
  case (Cons p ps)
  have prems: "\<forall>p \<in> set ps. trimSpace (pr_ID p) \<noteq> []" "distinct (map pr_ID ps)" "pr_ID p \<notin> pr_ID ` set ps" "trimSpace (pr_ID p) \<noteq> []"
    using Cons.prems(2,3) by auto
  consider (skip) "restrictedFor r (pr_ID p)" "listProviders env r ps a = Some (res, a')"
    | (plain) "\<not> restrictedFor r (pr_ID p)" "andThen (listProviders env r ps) (\<lambda>vs. ret (providerToProto p # vs)) a = Some (res, a')"
    | (quota) q b where "\<not> restrictedFor r (pr_ID p)" "loadQuota env p a = Some (q, b)"
        "andThen (listProviders env r ps)
           (\<lambda>vs. ret ((providerToProto p)\<lparr>pv_Quota := (case q of Inl _ \<Rightarrow> None | Inr quota \<Rightarrow> quota)\<rparr> # vs)) b = Some (res, a')"
    using Cons.prems(1) by (auto split: if_splits option.splits)
  then show ?case
  proof cases
    case skip
    then show ?thesis using Cons.IH [OF skip(2) prems(1,2)] by auto
  next
    case plain
    then obtain x where x: "listProviders env r ps a = Some (x, a')" by (auto simp: andThen_def ret_def split: option.splits sum.splits)
    from Cons.IH [OF x prems(1,2)] plain x show ?thesis by (auto simp: andThen_def ret_def providerToProto_def)
  next
    case quota
    then obtain x where x: "listProviders env r ps b = Some (x, a')" by (auto simp: andThen_def ret_def split: option.splits sum.splits)
    note c = loadQuota_cached [OF quota(2) prems(4)]
    have svc: "ap_svc b = ap_svc a" using c(1) by (metis app.select_convs(1) app.surjective app.update_convs(5))
    from Cons.IH [OF x prems(1,2)] obtain vs where vs: "x = Inr vs" "ap_svc a' = ap_svc b"
      "map (\<lambda>v. v\<lparr>pv_Quota := None\<rparr>) vs = map providerToProto (filter (\<lambda>p. \<not> restrictedFor r (pr_ID p)) ps)"
      "\<forall>v \<in> set vs. \<forall>x. pv_Quota v = Some x \<longrightarrow> map_of (ap_cache a') (pv_Id v) = Some x"
      "\<forall>i. i \<notin> pr_ID ` set ps \<longrightarrow> map_of (ap_cache a') i = map_of (ap_cache b) i" by blast
    have "res = Inr ((providerToProto p)\<lparr>pv_Quota := (case q of Inl _ \<Rightarrow> None | Inr quota \<Rightarrow> quota)\<rparr> # vs)"
      using quota(3) x vs(1) by (simp add: andThen_def ret_def)
    then show ?thesis using vs svc prems(3) quota(1) c(2,3)
      by (auto simp: providerToProto_def split: sum.splits)
  qed
qed

text \<open>
  C27: the list of providers: a caller gets every provider its key does not restrict, in the order of the
  database, never with its secret, and the quota shown for it is the one the cache now holds.  A caller
  that is not logged in gets nothing.
\<close>

theorem provider_list_exact:
  assumes "db_faults (sv_db (ap_svc a)) = []" "distinct (map pr_ID (db_providers (sv_db (ap_svc a))))"
    and "\<forall>p \<in> set (db_providers (sv_db (ap_svc a))). trimSpace (pr_ID p) \<noteq> []"
    and "GetProvidersList env requester a = Some (res, a')"
  shows "(case requester of
      None \<Rightarrow> res = Inl (Status Unauthenticated ''unauthenticated'')
    | Some r \<Rightarrow> \<exists>vs. res = Inr vs \<and>
        map pv_Id vs = filter (\<lambda>i. \<not> restrictedFor r i) (map pr_ID (db_providers (sv_db (ap_svc a)))) \<and>
        (\<forall>v \<in> set vs. pv_ClientSecret v = ''null'' \<and> (\<forall>x. pv_Quota v = Some x \<longrightarrow> map_of (ap_cache a') (pv_Id v) = Some x))) \<and>
    sv_db (ap_svc a') = sv_db (ap_svc a)"
proof (cases requester)
  case None
  then show ?thesis using assms(1,4)
    by (simp add: GetProvidersList_def andThen_def sql_def onSvc_def query_def GetProviders_def stmt_no_fault fail_def)
next
  case (Some r)
  have l: "listProviders env r (db_providers (sv_db (ap_svc a))) a = Some (res, a')"
    using assms(1,4) Some by (simp add: GetProvidersList_def andThen_def sql_def onSvc_def query_def GetProviders_def stmt_no_fault)
  from listProviders_result [OF l assms(3,2)] obtain vs where vs: "res = Inr vs" "ap_svc a' = ap_svc a"
    "map (\<lambda>v. v\<lparr>pv_Quota := None\<rparr>) vs = map providerToProto (filter (\<lambda>p. \<not> restrictedFor r (pr_ID p)) (db_providers (sv_db (ap_svc a))))"
    "\<forall>v \<in> set vs. \<forall>x. pv_Quota v = Some x \<longrightarrow> map_of (ap_cache a') (pv_Id v) = Some x" by blast
  have "map pv_Id vs = map pv_Id (map (\<lambda>v. v\<lparr>pv_Quota := None\<rparr>) vs)" by simp
  also have "\<dots> = filter (\<lambda>i. \<not> restrictedFor r i) (map pr_ID (db_providers (sv_db (ap_svc a))))"
    unfolding vs(3) by (simp add: filter_map comp_def providerToProto_def)
  finally have "map pv_Id vs = filter (\<lambda>i. \<not> restrictedFor r i) (map pr_ID (db_providers (sv_db (ap_svc a))))" .
  moreover have "pv_ClientSecret v = ''null''" if "v \<in> set vs" for v
  proof -
    have "v\<lparr>pv_Quota := None\<rparr> \<in> set (map providerToProto (filter (\<lambda>p. \<not> restrictedFor r (pr_ID p)) (db_providers (sv_db (ap_svc a)))))"
      using that unfolding vs(3) [symmetric] by simp
    then obtain p where "v\<lparr>pv_Quota := None\<rparr> = providerToProto p" by auto
    then have "pv_ClientSecret (v\<lparr>pv_Quota := None\<rparr>) = ''null''" by (simp add: providerToProto_def)
    then show ?thesis by simp
  qed
  ultimately show ?thesis using vs Some by simp
qed

section \<open>Witnesses\<close>

definition grok :: Provider where
  "grok = \<lparr>pr_ID = ''g'', pr_Name = ''grok'', pr_Type = 5, pr_BaseUrl = [], pr_ClientSecret = ''s'', pr_Credentials = [],
     pr_UseProxy = True, pr_Proxy = [], pr_IsCloudflare = True, pr_Priority = 0, pr_Disabled = False, pr_CreatedAt = 0, pr_UpdatedAt = 0\<rparr>"

definition grok_db :: db where
  "grok_db = \<lparr>db_keys = [], db_providers = [grok], db_usage = [], db_subs = [], db_topics = [], db_events = [],
     db_vapid = None, db_nextEvent = 1, db_nextUsage = 1, db_faults = [], db_uuid = Some\<rparr>"

definition grok_app :: "CPAPIConfig \<Rightarrow> app" where
  "grok_app cfg = \<lparr>ap_svc = \<lparr>sv_db = grok_db, sv_config = cfg, sv_disk = cfg, sv_saves = []\<rparr>, ap_own = None,
     ap_warp = newWarp [\<lparr>en_AddrPort = ''1:1'', en_RTT = 3\<rparr>, \<lparr>en_AddrPort = ''1:2'', en_RTT = 4\<rparr>] newCloser,
     ap_held = None, ap_cache = []\<rparr>"

definition grok_env :: app_env where
  "grok_env = \<lparr>ae_now = 0, ae_newID = ''n'', ae_vendor = sample_vendor_env, ae_quota = sample_quota_env, ae_warp = sample_warp_env,
     ae_management = None, ae_restarter = True, ae_build = None, ae_Host = ''h'', ae_Port = 80, ae_info = (\<lambda>p. Inr (px_Name p)), ae_ping = (\<lambda>_. None)\<rparr>"

lemmas grok_simps = grok_def grok_db_def grok_app_def grok_env_def sample_warp_env_def newWarp_def CreateProxy_def createProxy_def
  RestartCPAPI_def buildCPAPILocked_def registerAllProvidersLocked_def registerProvider_def newConfig_def ownConfig_def setOwn_def
  andThen_def ret_def ignore_def sql_def onSvc_def onOwn_def query_def GetProviders_def UpdateProxyRow_def stmt_def withUUID_def
  updateWhere_def ProviderOAuthConfig_def addXAI_def isOAuth_def providerKey_def saveConfig_def registerAllKeysLocked_def setAPIKeys_def
  GetApiKeys_def setKey_def Add_def newCloser_def

lemma grok_restart: "\<exists>a'. RestartCPAPI grok_env (grok_app cfg) = Some (Inr (), a')"
  by (simp add: grok_simps Let_def hasPrefix_def)


theorem restart_takes_new_proxies_witness:
  "\<exists>a'. RestartCPAPI grok_env (grok_app empty_config) = Some (Inr (), a') \<and> length (running (ap_warp a')) = 1"
proof -
  obtain a' where a': "RestartCPAPI grok_env (grok_app empty_config) = Some (Inr (), a')" using grok_restart by blast
  have w: "warpOK (ap_warp (grok_app empty_config))" by (auto simp: warpOK_def grok_app_def newWarp_def running_def)
  have e: "orderOK (ae_warp grok_env, [])" "sdkWorks (ae_warp grok_env)" "db_faults (sv_db (ap_svc (grok_app empty_config))) = []"
    by (simp_all add: orderOK_def sdkWorks_def grok_env_def sample_warp_env_def grok_app_def grok_db_def)
  have "length (running (ap_warp (grok_app empty_config))) = 0" "capacity (ap_warp (grok_app empty_config)) = 2"
    "length (filter proxied (db_providers (sv_db (ap_svc (grok_app empty_config))))) = 1"
    by (simp_all add: grok_app_def newWarp_def running_def capacity_def grok_db_def grok_def proxied_def)
  then show ?thesis using restart_takes_new_proxies [OF w e a'] a' by auto
qed

theorem provider_list_exact_witness:
  "\<exists>vs a'. GetProvidersList grok_env (Some None) (grok_app empty_config) = Some (Inr vs, a') \<and> map pv_Id vs = [''g'']"
proof -
  obtain x a' where g: "GetProvidersList grok_env (Some None) (grok_app empty_config) = Some (x, a')"
    by (simp add: GetProvidersList_def grok_simps restrictedFor_def providerOAuthReady_def hasPrefix_def Let_def)
  have "trimSpace ''g'' = ''g''" by (rule trimSpace_graphic) auto
  then show ?thesis using provider_list_exact [OF _ _ _ g] g by (auto simp: grok_app_def grok_db_def grok_def restrictedFor_def)
qed

end
