(* ===== verification/Provider_OAuth.thy ===== *)
theory Provider_OAuth
  imports Provider_Service
begin

text \<open>
  The handlers that authorize a provider through OAuth (\<open>provider_oauth.go\<close> and \<open>provider_oauth_cursor.go\<close> in
  \<open>src/internal/driver/server\<close>) and the job that removes authorizations nobody completed
  (\<open>provider_remover\<close> in \<open>src/internal/app/app.go\<close>).

  The registry of OAuth sessions belongs to the SDK of CLIProxyAPI.  It is an argument: a state of
  unknown type with the functions the program calls.  The map of running Cursor logins is part of the
  program.  A result \<open>None\<close> is a run-time panic.
\<close>

section \<open>State\<close>

text \<open>\<open>sd_Get\<close> yields the provider and the status of a session.\<close>

record 'o sdk =
  sd_Get :: "'o \<Rightarrow> string \<Rightarrow> (string \<times> string) option"
  sd_Register :: "string \<Rightarrow> string \<Rightarrow> 'o \<Rightarrow> 'o"
  sd_SetError :: "string \<Rightarrow> string \<Rightarrow> 'o \<Rightarrow> 'o"
  sd_Complete :: "string \<Rightarrow> 'o \<Rightarrow> 'o"

record cursorOAuthFlow =
  cf_providerID :: string
  cf_flow :: LoginFlow

record 'o oauth =
  oa_app :: app
  oa_flows :: "(string \<times> cursorOAuthFlow) list"
  oa_sessions :: 'o

definition onApp :: "'a call \<Rightarrow> ('o oauth, 'a) proc" where
  "onApp f s = (case f (oa_app s) of None \<Rightarrow> None | Some (r, a) \<Rightarrow> Some (r, s\<lparr>oa_app := a\<rparr>))"

definition change :: "('s \<Rightarrow> 's) \<Rightarrow> ('s, unit) proc" where
  "change f s = Some (Inr (), f s)"

definition dropFlow :: "string \<Rightarrow> 'o oauth \<Rightarrow> 'o oauth" where
  "dropFlow state s = s\<lparr>oa_flows := filter (\<lambda>p. fst p \<noteq> state) (oa_flows s)\<rparr>"

text \<open>The answers of the management interface and of the handlers.\<close>

record ManagementAuthorization =
  ma_Status :: string
  ma_URL :: string
  ma_State :: string
  ma_Flow :: string
  ma_UserCode :: string
  ma_ExpiresIn :: int
  ma_Error :: string

definition zeroAuthorization :: ManagementAuthorization where
  "zeroAuthorization = \<lparr>ma_Status = [], ma_URL = [], ma_State = [], ma_Flow = [], ma_UserCode = [], ma_ExpiresIn = 0, ma_Error = []\<rparr>"

record authorization =
  az_URL :: string
  az_State :: string
  az_ProviderId :: string
  az_Flow :: string
  az_UserCode :: string
  az_ExpiresIn :: int

record auth_status =
  as_Status :: string
  as_ProviderId :: string
  as_Error :: string

definition okStatusOf :: "string \<Rightarrow> auth_status" where
  "okStatusOf provider = \<lparr>as_Status = ''ok'', as_ProviderId = provider, as_Error = []\<rparr>"

record auth_input =
  ai_Name :: string
  ai_Type :: int
  ai_CustomUrl :: string
  ai_UseProxy :: bool
  ai_Proxy :: string
  ai_Priority :: int

text \<open>
  What these handlers need from outside besides \<open>app_env\<close>: the decoder of the management answers, the
  encoded body of a callback, the random bytes and the state of a Cursor login, and the answer to a poll.
\<close>

record 'o oauth_env =
  oe_app :: app_env
  oe_sdk :: "'o sdk"
  oe_decode :: "bytes \<Rightarrow> err + ManagementAuthorization"
  oe_callback :: "string \<Rightarrow> string \<Rightarrow> bytes"
  oe_random :: "string + bytes"
  oe_state :: string
  oe_poll :: "LoginFlow \<Rightarrow> poll_answer"

section \<open>Starting an authorization\<close>

definition createCursorProviderAuthorization :: "'o oauth_env \<Rightarrow> auth_input \<Rightarrow> ('o oauth, authorization) proc" where
  "createCursorProviderAuthorization env req =
     (let name = ai_Name req;
          customURL = (if ai_CustomUrl req = [] then ''https://api2.cursor.sh/'' else ai_CustomUrl req);
          e = oe_app env
      in
      if name = [] then fail (Status InvalidArgument ''provider name is required'')
      else
        andThen (onApp (sql (CreateProviderRow (ae_now e) (ae_newID e) name (ai_Type req) customURL ''oauth:pending''
            (ai_UseProxy req) (ai_Proxy req) (ai_Proxy req = []) (ai_Priority req)))) (\<lambda>provider.
        case NewLoginFlow (ve_bridge (ae_vendor e)) (oe_random env) (if ai_UseProxy req then ai_Proxy req else []) of
          Inl msg \<Rightarrow>
            andThen (ignore (onApp (sql (DeleteProviderRow (pr_ID provider))))) (\<lambda>_.
            fail (Status Internal (''cursor login init: '' @ msg)))
        | Inr flow \<Rightarrow>
            andThen (change (\<lambda>s. s\<lparr>oa_sessions := sd_Register (oe_sdk env) (oe_state env) (pr_ID provider) (oa_sessions s),
                oa_flows := setKey (oe_state env) \<lparr>cf_providerID = pr_ID provider, cf_flow = flow\<rparr> (oa_flows s)\<rparr>)) (\<lambda>_.
            ret \<lparr>az_URL = lf_LoginURL flow, az_State = oe_state env, az_ProviderId = pr_ID provider, az_Flow = ''device'',
              az_UserCode = [], az_ExpiresIn = 0\<rparr>)))"

text \<open>A custom provider has no definition, a server without management client has a nil pointer: both panic.\<close>

definition requestAuthorization :: "'o oauth_env \<Rightarrow> vendor \<Rightarrow> Provider \<Rightarrow> ('o oauth, authorization) proc" where
  "requestAuthorization env v provider =
     (case (GetOAuthDefinition v, ae_management (oe_app env)) of
        (Some definition, Some mg) \<Rightarrow>
         (case ManagementJSON mg ''GET'' (od_Endpoint definition) [(''provider_id'', pr_ID provider)] None
                 (oe_decode env) zeroAuthorization of
            Inl _ \<Rightarrow>
              andThen (ignore (onApp (sql (DeleteProviderRow (pr_ID provider))))) (\<lambda>_.
              fail (Status Internal (od_Provider definition @ '' authorization returned an incomplete response'')))
          | Inr response \<Rightarrow>
              ret \<lparr>az_URL = ma_URL response, az_State = ma_State response, az_ProviderId = pr_ID provider,
                az_Flow = (if ma_Flow response = [] \<and> od_Callback definition then ''callback'' else ma_Flow response),
                az_UserCode = ma_UserCode response, az_ExpiresIn = ma_ExpiresIn response\<rparr>)
      | _ \<Rightarrow> (\<lambda>_. None))"

definition CreateProviderAuthorization :: "'o oauth_env \<Rightarrow> ApiKey option option \<Rightarrow> auth_input \<Rightarrow> ('o oauth, authorization) proc" where
  "CreateProviderAuthorization env requester req =
     (let e = oe_app env; name = trimSpace (ai_Name req) in
      andThen (adminOnly requester ''permission denied'') (\<lambda>_.
      if name = [] then fail (Status InvalidArgument ''provider name is required'')
      else if ai_Type req = 10 then createCursorProviderAuthorization env req
      else
        case ProviderOAuthConfig (ai_Type req) of
          Inl err \<Rightarrow> fail err
        | Inr v \<Rightarrow>
           (case (if trimSpace (ai_CustomUrl req) = [] then map_option od_DefaultURL (GetOAuthDefinition v)
                  else Some (trimSpace (ai_CustomUrl req))) of
              None \<Rightarrow> (\<lambda>_. None)
            | Some customURL \<Rightarrow>
                andThen (onApp (sql (CreateProviderRow (ae_now e) (ae_newID e) name (ai_Type req) customURL ''oauth:pending''
                    (ai_UseProxy req) (ai_Proxy req) (ai_Proxy req = []) (ai_Priority req)))) (\<lambda>provider.
                requestAuthorization env v provider))))"

section \<open>Completing an authorization\<close>

definition findProviderOAuthCredentials :: "string \<Rightarrow> object call" where
  "findProviderOAuthCredentials i =
     andThen (sql (GetProvider i)) (\<lambda>provider.
       if pr_Credentials provider = [] then fail (Plain (''no '' @ pr_ID provider @ '' credentials in database''))
       else ret (pr_Credentials provider))"

definition completeStoredProviderAuthorization :: "app_env \<Rightarrow> string \<Rightarrow> bool call" where
  "completeStoredProviderAuthorization env provider a =
     (case findProviderOAuthCredentials provider a of
        None \<Rightarrow> None
      | Some (Inl _, a) \<Rightarrow> Some (Inr False, a)
      | Some (Inr credentials, a) \<Rightarrow>
          if \<not> providerCredentialsCompleted credentials then Some (Inr False, a)
          else
            andThen (sql (UpdateProviderCredentials (ae_now env) provider ''oauth:database'' credentials)) (\<lambda>_. ret True) a)"

definition cleanupProviderOAuth :: "string \<Rightarrow> unit call" where
  "cleanupProviderOAuth provider = ignore (sql (DeleteProviderRow provider))"

definition providerAuthorizationStatus :: "'o oauth_env \<Rightarrow> string \<Rightarrow> ('o oauth, auth_status) proc" where
  "providerAuthorizationStatus env state s =
     (case sd_Get (oe_sdk env) (oa_sessions s) state of
        None \<Rightarrow> fail (Status NotFound ''authorization session was not found or expired'') s
      | Some (provider, session) \<Rightarrow>
          if session \<in> {''wait'', ''pending'', []}
          then ret \<lparr>as_Status = ''pending'', as_ProviderId = provider, as_Error = []\<rparr> s
          else if session = ''error''
          then andThen (onApp (cleanupProviderOAuth provider)) (\<lambda>_.
            ret \<lparr>as_Status = ''error: '', as_ProviderId = provider, as_Error = session\<rparr>) s
          else if session = ''ok''
          then andThen (onApp (completeStoredProviderAuthorization (oe_app env) provider)) (\<lambda>completed.
            if \<not> completed then fail (Status Internal ''authorization completed but credentials could not be found'')
            else ret (okStatusOf provider)) s
          else fail (Status Internal (''unexpected authorization status '' @ qe_quote (ae_quota (oe_app env)) session)) s)"

definition CompleteProviderAuthorization :: "'o oauth_env \<Rightarrow> ApiKey option option \<Rightarrow> string \<Rightarrow> int \<Rightarrow> string \<Rightarrow> ('o oauth, auth_status) proc" where
  "CompleteProviderAuthorization env requester reqState reqType reqCallback =
     (let state = trimSpace reqState; e = oe_app env in
      andThen (adminOnly requester ''permission denied'') (\<lambda>_ s.
      case sd_Get (oe_sdk env) (oa_sessions s) state of
        None \<Rightarrow>
          ret \<lparr>as_Status = ''error'', as_ProviderId = [],
            as_Error = ''authorization session was not found or expired. Check provider list or recreate''\<rparr> s
      | Some (provider, _) \<Rightarrow>
          andThen (onApp (completeStoredProviderAuthorization e provider)) (\<lambda>completed.
          if completed then ret (okStatusOf provider)
          else
            case ProviderOAuthConfig reqType of
              Inl err \<Rightarrow> fail err
            | Inr v \<Rightarrow>
               (case GetOAuthDefinition v of
                  None \<Rightarrow> (\<lambda>_. None)
                | Some definition \<Rightarrow>
                    if \<not> od_Callback definition then providerAuthorizationStatus env state
                    else if trimSpace reqCallback = [] then fail (Status InvalidArgument ''callback URL is required'')
                    else
                      case ae_management e of
                        None \<Rightarrow> (\<lambda>_. None)
                      | Some mg \<Rightarrow>
                         (case ManagementJSON mg ''POST'' ''/v0/management/oauth-callback'' []
                                 (Some (oe_callback env provider (trimSpace reqCallback))) (oe_decode env) zeroAuthorization of
                            Inl err \<Rightarrow> (\<lambda>s.
                             (case onApp (completeStoredProviderAuthorization e provider) s of
                                None \<Rightarrow> None
                              | Some (Inr True, s) \<Rightarrow> ret (okStatusOf provider) s
                              | Some (_, s) \<Rightarrow>
                                  fail (Status InvalidArgument (''failed to submit authorization callback: '' @ errorText err)) s))
                          | Inr _ \<Rightarrow> providerAuthorizationStatus env state))) s))"

definition cursorProviderAuthorizationStatus :: "'o oauth_env \<Rightarrow> string \<Rightarrow> ('o oauth, auth_status) proc" where
  "cursorProviderAuthorizationStatus env state s0 =
     (case map_of (oa_flows s0) state of
        None \<Rightarrow> fail (Status NotFound ''authorization session was not found or expired'') s0
      | Some flow \<Rightarrow>
         (case PollOnce (oe_poll env (cf_flow flow)) of
            Inl e \<Rightarrow>
              ret \<lparr>as_Status = ''error'', as_ProviderId = cf_providerID flow, as_Error = e\<rparr>
                (dropFlow state (s0\<lparr>oa_sessions := sd_SetError (oe_sdk env) state e (oa_sessions s0)\<rparr>))
          | Inr None \<Rightarrow> ret \<lparr>as_Status = ''pending'', as_ProviderId = cf_providerID flow, as_Error = []\<rparr> s0
          | Inr (Some result) \<Rightarrow>
             (let credentials = [(''cookie'', JStr (lr_Cookie result)), (''access_token'', JStr (lr_AccessToken result)),
                    (''auth_id'', JStr (lr_AuthID result))]
              in
              case onApp (sql (UpdateProviderCredentials (ae_now (oe_app env)) (cf_providerID flow) (lr_AccessToken result) credentials)) s0 of
                None \<Rightarrow> None
              | Some (Inl e, s) \<Rightarrow> fail (Status Internal (''failed to store cursor credentials: '' @ errorText e)) s
              | Some (Inr provider, s) \<Rightarrow>
                 (case onApp (addProvider (oe_app env) provider) s of
                    None \<Rightarrow> None
                  | Some (Inl e, s) \<Rightarrow> fail (Wrap ''failed to register cursor provider'' e) s
                  | Some (Inr _, s) \<Rightarrow>
                      ret (okStatusOf (cf_providerID flow))
                        (dropFlow state (s\<lparr>oa_sessions := sd_Complete (oe_sdk env) state (oa_sessions s)\<rparr>))))))"

definition GetProviderAuthorizationStatus :: "'o oauth_env \<Rightarrow> ApiKey option option \<Rightarrow> string \<Rightarrow> ('o oauth, auth_status) proc" where
  "GetProviderAuthorizationStatus env requester reqState =
     (let state = trimSpace reqState in
      andThen (adminOnly requester ''permission denied'') (\<lambda>_ s.
      if map_of (oa_flows s) state \<noteq> None then cursorProviderAuthorizationStatus env state s
      else
        case sd_Get (oe_sdk env) (oa_sessions s) state of
          None \<Rightarrow> fail (Status NotFound ''authorization session was not found or expired'') s
        | Some (provider, session) \<Rightarrow>
            if session \<noteq> [] then ret \<lparr>as_Status = ''error'', as_ProviderId = provider, as_Error = session\<rparr> s
            else
              andThen (onApp (completeStoredProviderAuthorization (oe_app env) provider)) (\<lambda>completed.
                if completed then ret (okStatusOf provider) else providerAuthorizationStatus env state) s))"

section \<open>Authorizations nobody completed\<close>

definition expired :: "go_time \<Rightarrow> Provider \<Rightarrow> bool" where
  "expired now p \<longleftrightarrow> pr_ClientSecret p = ''oauth:pending'' \<and> pr_UpdatedAt p < now - 10 * minute"

fun removeExpired :: "go_time \<Rightarrow> Provider list \<Rightarrow> unit sql" where
  "removeExpired now [] d = (Inr (), d)"
| "removeExpired now (p # ps) d =
     (if expired now p then
       (case DeleteProviderRow (pr_ID p) d of (Inl e, d) \<Rightarrow> (Inl e, d) | (Inr _, d) \<Rightarrow> removeExpired now ps d)
      else removeExpired now ps d)"

definition provider_remover :: "go_time \<Rightarrow> unit sql" where
  "provider_remover now d =
     (case GetProviders d of (Inl e, d) \<Rightarrow> (Inl e, d) | (Inr ps, d) \<Rightarrow> removeExpired now ps d)"

section \<open>Stored credentials\<close>

definition credSig :: "db \<Rightarrow> (string \<Rightarrow> string option) \<times> (string \<times> object) list" where
  "credSig d = (db_uuid d, map (\<lambda>p. (pr_ID p, pr_Credentials p)) (db_providers d))"

text \<open>Calls that touch no credentials.\<close>

definition keepsCreds :: "'a call \<Rightarrow> bool" where
  "keepsCreds f \<longleftrightarrow> (\<forall>a r a'. f a = Some (r, a') \<longrightarrow> credSig (sv_db (ap_svc a')) = credSig (sv_db (ap_svc a)))"

named_theorems keeps

lemma keepsCredsI: "(\<And>a r a'. f a = Some (r, a') \<Longrightarrow> credSig (sv_db (ap_svc a')) = credSig (sv_db (ap_svc a))) \<Longrightarrow> keepsCreds f"
  by (simp add: keepsCreds_def)

lemma keeps_ret [keeps]: "keepsCreds (ret x)"
  by (simp add: keepsCreds_def ret_def)

lemma keeps_andThen [keeps]: "keepsCreds f \<Longrightarrow> (\<And>x. keepsCreds (g x)) \<Longrightarrow> keepsCreds (andThen f g)"
  by (rule keepsCredsI) (auto simp: keepsCreds_def andThen_def split: option.splits prod.splits sum.splits)

lemma keeps_ignore [keeps]: "keepsCreds f \<Longrightarrow> keepsCreds (ignore f)"
  by (rule keepsCredsI) (auto simp: keepsCreds_def ignore_def split: option.splits prod.splits)

lemma keeps_sql:
  assumes "\<And>d. credSig (snd (f d)) = credSig d"
  shows "keepsCreds (sql f)"
proof (rule keepsCredsI)
  fix a r a'
  assume "sql f a = Some (r, a')"
  then show "credSig (sv_db (ap_svc a')) = credSig (sv_db (ap_svc a))"
    using assms [of "sv_db (ap_svc a)"] by (auto simp: sql_def onSvc_def query_def split: prod.splits)
qed

lemma keeps_forEach [keeps]: "(\<And>p. keepsCreds (f p)) \<Longrightarrow> keepsCreds (forEach f ps)"
  by (induction ps) (auto intro: keeps)

lemma stmt_credSig:
  assumes "\<And>d. credSig (snd (f d)) = credSig d"
  shows "credSig (snd (stmt op f d)) = credSig d"
  using assms by (cases rule: stmt_cases [of op f d]) (simp_all add: credSig_def)

lemma credSig_update:
  "(\<And>p. pr_ID (g p) = pr_ID p \<and> pr_Credentials (g p) = pr_Credentials p) \<Longrightarrow>
   credSig (d\<lparr>db_providers := updateWhere P g (db_providers d)\<rparr>) = credSig d"
  by (simp add: credSig_def map_updateWhere)

lemma withUUID_credSig:
  "(\<And>u. credSig (snd (f u d)) = credSig d) \<Longrightarrow> credSig (snd (withUUID op i f d)) = credSig d"
  by (simp add: withUUID_def split: option.splits)

lemma GetProvider_credSig [simp]: "credSig (snd (GetProvider i d)) = credSig d"
  unfolding GetProvider_def Let_def by (intro stmt_credSig withUUID_credSig) simp

lemma GetProviderById_credSig [simp]: "credSig (snd (GetProviderById i d)) = credSig d"
  unfolding GetProviderById_def Let_def by (intro stmt_credSig withUUID_credSig) simp

lemma GetProviders_credSig [simp]: "credSig (snd (GetProviders d)) = credSig d"
  unfolding GetProviders_def by (intro stmt_credSig) simp

lemma UpdateProxyRow_credSig [simp]: "credSig (snd (UpdateProxyRow i p u c d)) = credSig d"
  unfolding UpdateProxyRow_def Let_def by (intro stmt_credSig withUUID_credSig) (simp add: credSig_update)

lemma UpdateProviderRow_credSig [simp]: "credSig (snd (UpdateProviderRow now i n t c s u p f q b d)) = credSig d"
proof -
  let ?op = "''postgres.provider_repo.UpdateProvider''"
  define g where "g = (\<lambda>p' :: Provider. p'\<lparr>pr_Name := n, pr_Type := t, pr_BaseUrl := c, pr_ClientSecret := s, pr_UseProxy := u, pr_Proxy := p,
    pr_IsCloudflare := f, pr_Priority := q, pr_Disabled := b, pr_UpdatedAt := now\<rparr>)"
  define st where "st = stmt ?op (withUUID ?op i (\<lambda>u d. (Inr (), d\<lparr>db_providers := updateWhere (\<lambda>p. pr_ID p = u) g (db_providers d)\<rparr>)))"
  have "credSig (snd (st d)) = credSig d"
    unfolding st_def by (intro stmt_credSig withUUID_credSig) (simp add: credSig_update g_def)
  then show ?thesis
    unfolding UpdateProviderRow_def Let_def g_def [symmetric] st_def [symmetric]
    by (cases "st d") (auto split: sum.splits)
qed

lemma GetApiKeys_credSig [simp]: "credSig (snd (GetApiKeys d)) = credSig d"
  unfolding GetApiKeys_def by (intro stmt_credSig) simp

lemma keeps_onOwn:
  assumes "\<And>s. credSig (sv_db (snd (h s))) = credSig (sv_db s)"
  shows "keepsCreds (onOwn h)"
proof (rule keepsCredsI)
  fix a r a'
  assume "onOwn h a = Some (r, a')"
  then show "credSig (sv_db (ap_svc a')) = credSig (sv_db (ap_svc a))"
    using assms [of "ap_svc a"] assms [of "(ap_svc a)\<lparr>sv_config := c\<rparr>" for c]
    by (auto simp: onOwn_def onSvc_def split: prod.splits option.splits) (metis service.select_convs(1) service.surjective service.update_convs(2) snd_conv)+
qed

lemma keeps_onSvc:
  assumes "\<And>s. credSig (sv_db (snd (h s))) = credSig (sv_db s)"
  shows "keepsCreds (onSvc h)"
proof (rule keepsCredsI)
  fix a r a'
  assume "onSvc h a = Some (r, a')"
  then show "credSig (sv_db (ap_svc a')) = credSig (sv_db (ap_svc a))"
    using assms [of "ap_svc a"] by (auto simp: onSvc_def split: prod.splits)
qed

lemma registerAllKeys_credSig: "credSig (sv_db (snd (registerAllKeysLocked s))) = credSig (sv_db s)"
proof -
  obtain r d where g: "GetApiKeys (sv_db s) = (r, d)" by fastforce
  then have "credSig d = credSig (sv_db s)" using GetApiKeys_credSig [of "sv_db s"] by simp
  then show ?thesis using g by (cases r) (simp_all add: registerAllKeysLocked_def query_def setAPIKeys_def Let_def)
qed

lemmas keeps_steps [keeps] = keeps_onOwn [OF registerAllKeys_credSig] keeps_sql [OF GetProvider_credSig] keeps_sql [OF GetProviders_credSig]
  keeps_sql [OF UpdateProviderRow_credSig]

lemma keeps_saveConfig [keeps]: "keepsCreds (onOwn saveConfig)" "keepsCreds (onSvc saveConfig)"
  by (rule keeps_onOwn keeps_onSvc, simp)+

lemma setOwn_svc [simp]: "sv_db (ap_svc (setOwn c a)) = sv_db (ap_svc a)"
  by (simp add: setOwn_def split: option.splits)

lemma takeProxy_credSig:
  assumes "takeProxy env p a = (q, b)"
  shows "credSig (sv_db (ap_svc b)) = credSig (sv_db (ap_svc a))"
proof -
  obtain x w where w: "CreateProxy (ae_warp env) (pr_ID p) (ap_warp a) = (x, w)" by fastforce
  let ?q = "case x of None \<Rightarrow> p | Some x \<Rightarrow> p\<lparr>pr_Proxy := ''http://'' @ px_Addr x\<rparr>"
  obtain r d where d: "UpdateProxyRow (pr_ID ?q) (pr_Proxy ?q) True True (sv_db (ap_svc a)) = (r, d)" by fastforce
  then have "credSig d = credSig (sv_db (ap_svc a))" using UpdateProxyRow_credSig [of "pr_ID ?q" "pr_Proxy ?q" True True "sv_db (ap_svc a)"] by simp
  then show ?thesis using assms w d by (auto simp: takeProxy_def query_def Let_def)
qed

lemma keeps_register: "keepsCreds (register env p)"
proof (rule keepsCredsI)
  fix a r a'
  assume r: "register env p a = Some (r, a')"
  have u: "keepsCreds (ignore (sql (UpdateProviderRow now i n t c s u p f q b)))" for now i n t c s u p f q b by (intro keeps)
  from r show "credSig (sv_db (ap_svc a')) = credSig (sv_db (ap_svc a))"
    unfolding register_def Let_def
    by (auto split: option.splits prod.splits if_splits dest!: u [unfolded keepsCreds_def, rule_format])
qed

lemma keeps_registerProvider [keeps]: "keepsCreds (registerProvider env p)"
proof (rule keepsCredsI)
  fix a r a'
  assume "registerProvider env p a = Some (r, a')"
  then show "credSig (sv_db (ap_svc a')) = credSig (sv_db (ap_svc a))"
    using keeps_register [of env] takeProxy_credSig
    by (fastforce simp: registerProvider_eq keepsCreds_def split: if_splits prod.splits)
qed

lemma keeps_registerAllProviders: "keepsCreds (registerAllProvidersLocked env)"
proof (rule keepsCredsI)
  fix a r a'
  assume r: "registerAllProvidersLocked env a = Some (r, a')"
  have "keepsCreds (andThen (sql GetProviders) (\<lambda>providers. andThen (forEach (registerProvider env) providers) (\<lambda>_. ignore (onOwn saveConfig))))"
    by (intro keeps)
  then show "credSig (sv_db (ap_svc a')) = credSig (sv_db (ap_svc a))"
    using r by (auto simp: registerAllProvidersLocked_def Let_def keepsCreds_def)
qed

lemma keeps_restart: "keepsCreds (RestartCPAPI env)"
proof (rule keepsCredsI)
  fix a r a'
  assume r: "RestartCPAPI env a = Some (r, a')"
  have p: "credSig (sv_db (ap_svc b')) = credSig (sv_db (ap_svc b))" if "registerAllProvidersLocked env b = Some (x, b')" for x b b'
    using keeps_registerAllProviders that by (simp add: keepsCreds_def)
  have k: "credSig (sv_db (ap_svc b')) = credSig (sv_db (ap_svc b))" if "onOwn registerAllKeysLocked b = Some (x, b')" for x b b'
    using keeps_onOwn [OF registerAllKeys_credSig] that by (simp add: keepsCreds_def)
  from r show "credSig (sv_db (ap_svc a')) = credSig (sv_db (ap_svc a))"
    by (auto simp: RestartCPAPI_def buildCPAPILocked_def dest!: p k split: option.splits prod.splits sum.splits)
qed

lemma keeps_addProviderConfig: "keepsCreds (addProviderConfig env p)"
  by (rule keepsCredsI) (auto simp: addProviderConfig_def Let_def split: if_splits option.splits prod.splits sum.splits)

lemma keeps_addProvider: "keepsCreds (addProvider env p)"
proof -
  have "keepsCreds (if ae_restarter env then RestartCPAPI env else (\<lambda>_. None))"
    using keeps_restart by (simp add: keepsCreds_def)
  then show ?thesis unfolding addProvider_def by (intro keeps keeps_addProviderConfig)
qed

text \<open>A provider whose access token is stored.\<close>

definition hasToken :: "db \<Rightarrow> string \<Rightarrow> bool" where
  "hasToken d i \<longleftrightarrow> (\<exists>p \<in> set (db_providers d). db_uuid d i = Some (pr_ID p) \<and> stringAt (pr_Credentials p) ''access_token'' \<noteq> [])"

lemma hasToken_credSig: "hasToken d i \<longleftrightarrow> (\<exists>u c. fst (credSig d) i = Some u \<and> (u, c) \<in> set (snd (credSig d)) \<and> stringAt c ''access_token'' \<noteq> [])"
  by (auto simp: hasToken_def credSig_def)

lemma GetProvider_found:
  assumes "GetProvider i d = (Inr p, d')"
  shows "p \<in> set (db_providers d)" "db_uuid d i = Some (pr_ID p)" "db_providers d' = db_providers d" "db_uuid d' = db_uuid d"
  using assms
  by (auto simp: GetProvider_def Let_def stmt_def withUUID_def find_Some_iff split: list.splits option.splits)

lemma UpdateProviderCredentials_stored:
  assumes "UpdateProviderCredentials now i secret c d = (Inr p, d')" "stringAt c ''access_token'' \<noteq> []"
  shows "hasToken d' i"
proof -
  let ?op = "''postgres.provider_repo.UpdateProviderCredentials''"
  define st where "st = stmt ?op (withUUID ?op i (\<lambda>u d. (Inr (), d\<lparr>db_providers := updateWhere (\<lambda>p. pr_ID p = u)
    (\<lambda>p. p\<lparr>pr_ClientSecret := secret, pr_Credentials := c, pr_UpdatedAt := now\<rparr>) (db_providers d)\<rparr>)))"
  obtain x d1 where s: "st d = (x, d1)" by fastforce
  have g: "GetProvider i d1 = (Inr p, d')" and x: "x = Inr ()"
    using assms(1) s unfolding UpdateProviderCredentials_def Let_def st_def [symmetric] by (cases x; auto)+
  obtain u rows where u1: "db_uuid d1 i = Some u" and rows: "db_providers d1 = updateWhere (\<lambda>p. pr_ID p = u)
      (\<lambda>p. p\<lparr>pr_ClientSecret := secret, pr_Credentials := c, pr_UpdatedAt := now\<rparr>) rows"
    using s x by (auto simp: st_def stmt_def withUUID_def split: list.splits option.splits)
  have u2: "list_all (\<lambda>p. pr_ID p = u \<longrightarrow> pr_Credentials p = c) (db_providers d1)"
    unfolding rows list_all_updateWhere by (simp add: list_all_iff)
  note u = u1 u2
  have "p \<in> set (db_providers d1)" "pr_ID p = u" "db_providers d' = db_providers d1" "db_uuid d' = db_uuid d1"
    using GetProvider_found [OF g] u(1) by simp_all
  then show ?thesis using u assms(2) by (auto simp: hasToken_def list_all_iff)
qed

lemma completeStored_token:
  assumes "completeStoredProviderAuthorization env i a = Some (Inr True, a')"
  shows "hasToken (sv_db (ap_svc a')) i"
proof -
  obtain c b where c: "findProviderOAuthCredentials i a = Some (Inr c, b)" "providerCredentialsCompleted c"
    "andThen (sql (UpdateProviderCredentials (ae_now env) i ''oauth:database'' c)) (\<lambda>_. ret True) b = Some (Inr True, a')"
    using assms by (auto simp: completeStoredProviderAuthorization_def split: option.splits sum.splits if_splits)
  obtain p d where "UpdateProviderCredentials (ae_now env) i ''oauth:database'' c (sv_db (ap_svc b)) = (Inr p, d)" "sv_db (ap_svc a') = d"
    using c(3) by (auto simp: andThen_def ret_def sql_def onSvc_def query_def split: option.splits sum.splits prod.splits)
  moreover have "stringAt c ''access_token'' \<noteq> []" using c(2) by (auto simp: providerCredentialsCompleted_def)
  ultimately show ?thesis using UpdateProviderCredentials_stored by blast
qed

lemma onApp_complete:
  "onApp (completeStoredProviderAuthorization e i) s = Some (Inr True, s') \<Longrightarrow> hasToken (sv_db (ap_svc (oa_app s'))) i"
  by (auto simp: onApp_def dest!: completeStored_token split: option.splits)

lemma providerAuthorizationStatus_token:
  assumes "providerAuthorizationStatus env state s = Some (Inr st, s')" "as_Status st = ''ok''"
  shows "hasToken (sv_db (ap_svc (oa_app s'))) (as_ProviderId st)"
  using assms
  by (auto simp: providerAuthorizationStatus_def andThen_def ret_def fail_def okStatusOf_def dest!: onApp_complete
      split: option.splits prod.splits if_splits sum.splits)

lemma cursorStatus_token:
  assumes "cursorProviderAuthorizationStatus env state s = Some (Inr st, s')" "as_Status st = ''ok''"
  shows "hasToken (sv_db (ap_svc (oa_app s'))) (as_ProviderId st)"
proof -
  obtain flow result p b c x where f: "map_of (oa_flows s) state = Some flow" "PollOnce (oe_poll env (cf_flow flow)) = Inr (Some result)"
    "onApp (sql (UpdateProviderCredentials (ae_now (oe_app env)) (cf_providerID flow) (lr_AccessToken result)
      [(''cookie'', JStr (lr_Cookie result)), (''access_token'', JStr (lr_AccessToken result)), (''auth_id'', JStr (lr_AuthID result))])) s =
      Some (Inr p, b)"
    "onApp (addProvider (oe_app env) p) b = Some (Inr x, c)" "oa_app s' = oa_app c" "as_ProviderId st = cf_providerID flow"
    using assms by (auto simp: cursorProviderAuthorizationStatus_def ret_def fail_def okStatusOf_def dropFlow_def Let_def
        split: option.splits sum.splits prod.splits)
  have "lr_AccessToken result \<noteq> []" using f(2) by (auto simp: PollOnce_def split: sum.splits prod.splits if_splits)
  then have "hasToken (sv_db (ap_svc (oa_app b))) (cf_providerID flow)"
    using f(3) by (auto simp: onApp_def sql_def onSvc_def query_def stringAt_def split: prod.splits dest!: UpdateProviderCredentials_stored)
  moreover have "credSig (sv_db (ap_svc (oa_app c))) = credSig (sv_db (ap_svc (oa_app b)))"
    using f(4) keeps_addProvider [of "oe_app env" p] by (auto simp: onApp_def keepsCreds_def split: option.splits prod.splits)
  ultimately show ?thesis using f(5,6) by (simp add: hasToken_credSig)
qed

text \<open>
  C23: an authorization is reported as complete only when the access token of its provider is stored:
  whatever the failures of database, SDK and management interface, the answer "ok" to a completion or
  to a question for the status means that the provider has a row with a token.
\<close>

theorem ok_means_token_stored:
  assumes "GetProviderAuthorizationStatus env requester state s = Some (Inr st, s') \<or>
      CompleteProviderAuthorization env requester state reqType callback s = Some (Inr st, s')"
    and "as_Status st = ''ok''"
  shows "\<exists>p \<in> set (db_providers (sv_db (ap_svc (oa_app s')))).
    db_uuid (sv_db (ap_svc (oa_app s'))) (as_ProviderId st) = Some (pr_ID p) \<and> stringAt (pr_Credentials p) ''access_token'' \<noteq> []"
  using assms(1) unfolding hasToken_def [symmetric]
proof
  assume "GetProviderAuthorizationStatus env requester state s = Some (Inr st, s')"
  then show "hasToken (sv_db (ap_svc (oa_app s'))) (as_ProviderId st)"
    using assms(2)
    by (auto simp: GetProviderAuthorizationStatus_def andThen_def ret_def fail_def okStatusOf_def adminOnly_def Let_def
        dest!: onApp_complete dest: cursorStatus_token providerAuthorizationStatus_token
        split: option.splits prod.splits if_splits sum.splits)
next
  assume "CompleteProviderAuthorization env requester state reqType callback s = Some (Inr st, s')"
  then show "hasToken (sv_db (ap_svc (oa_app s'))) (as_ProviderId st)"
    using assms(2)
    by (auto simp: CompleteProviderAuthorization_def andThen_def ret_def fail_def okStatusOf_def adminOnly_def Let_def
        dest!: onApp_complete dest: providerAuthorizationStatus_token
        split: option.splits prod.splits if_splits sum.splits bool.splits)
qed

section \<open>Failed and abandoned authorizations\<close>

lemma CreateProviderRow_fresh:
  assumes "db_faults d = []" "db_uuid d i = Some i" "i \<notin> pr_ID ` set (db_providers d)"
  shows "\<exists>p. CreateProviderRow now i name t c s u x f q d = (Inr p, d\<lparr>db_providers := db_providers d @ [p]\<rparr>) \<and>
    pr_ID p = i \<and> pr_ClientSecret p = s \<and> pr_Credentials p = [] \<and> pr_Name p = name \<and> pr_Type p = t \<and> pr_UpdatedAt p = now"
proof -
  have "find (\<lambda>p. pr_ID p = i) (db_providers d) = None" using assms(3) by (auto simp: find_None_iff)
  moreover have "find P (xs @ ys) = (case find P xs of None \<Rightarrow> find P ys | r \<Rightarrow> r)" for P :: "Provider \<Rightarrow> bool" and xs ys
    by (induction xs) auto
  ultimately show ?thesis using assms
    by (auto simp: CreateProviderRow_def GetProvider_def Let_def stmt_no_fault withUUID_def list_ex_iff)
qed

lemma DeleteProviderRow_ok:
  assumes "db_faults d = []" "db_uuid d i = Some i"
  shows "DeleteProviderRow i d = (Inr (), d\<lparr>db_providers := filter (\<lambda>p. pr_ID p \<noteq> i) (db_providers d)\<rparr>)"
  using assms by (simp add: DeleteProviderRow_def Let_def stmt_no_fault withUUID_def)

lemma delete_fresh:
  assumes "i \<notin> pr_ID ` set (db_providers d)" "pr_ID p = i"
  shows "filter (\<lambda>q. pr_ID q \<noteq> i) (db_providers d @ [p]) = db_providers d"
  using assms by (auto simp: filter_id_conv image_iff)

lemma requestAuthorization_cases:
  "requestAuthorization env v p s = None \<or>
   (\<exists>e. requestAuthorization env v p s = andThen (ignore (onApp (sql (DeleteProviderRow (pr_ID p))))) (\<lambda>_. fail e) s) \<or>
   (\<exists>z. az_ProviderId z = pr_ID p \<and> requestAuthorization env v p s = ret z s)"
  by (simp add: requestAuthorization_def ret_def split: option.split sum.split) blast

lemma adminOnly_cases:
  assumes "andThen (adminOnly requester msg) f s = Some (r, s')"
  obtains (refused) e where "r = Inl e" "s' = s" | (admitted) "f () s = Some (r, s')"
  using assms by (auto simp: andThen_def adminOnly_def ret_def fail_def split: option.splits if_splits)

text \<open>What starting an authorization for a provider of type \<open>t\<close> with identifier \<open>i\<close> may leave.\<close>

definition startOutcome :: "string \<Rightarrow> int \<Rightarrow> 'o oauth \<Rightarrow> err + authorization \<Rightarrow> 'o oauth \<Rightarrow> bool" where
  "startOutcome i t s r s' = (case r of
      Inl _ \<Rightarrow> s' = s
    | Inr z \<Rightarrow> az_ProviderId z = i \<and>
        (\<exists>p. db_providers (sv_db (ap_svc (oa_app s'))) = db_providers (sv_db (ap_svc (oa_app s))) @ [p] \<and>
           pr_ID p = i \<and> pr_ClientSecret p = ''oauth:pending'' \<and> pr_Credentials p = [] \<and> pr_Type p = t) \<and>
        (if t = 10 then \<exists>flow. map_of (oa_flows s') (az_State z) = Some flow \<and> cf_providerID flow = i
         else oa_flows s' = oa_flows s \<and> oa_sessions s' = oa_sessions s))"

text \<open>An identifier that is not in use, on a database that answers.\<close>

definition freshID :: "string \<Rightarrow> 'o oauth \<Rightarrow> bool" where
  "freshID i s \<longleftrightarrow> db_faults (sv_db (ap_svc (oa_app s))) = [] \<and> i \<notin> pr_ID ` set (db_providers (sv_db (ap_svc (oa_app s)))) \<and>
     db_uuid (sv_db (ap_svc (oa_app s))) i = Some i"

definition withRow :: "Provider \<Rightarrow> 'o oauth \<Rightarrow> 'o oauth" where
  "withRow p s = s\<lparr>oa_app := (oa_app s)\<lparr>ap_svc := (ap_svc (oa_app s))\<lparr>sv_db := (sv_db (ap_svc (oa_app s)))
     \<lparr>db_providers := db_providers (sv_db (ap_svc (oa_app s))) @ [p]\<rparr>\<rparr>\<rparr>\<rparr>"

lemma create_row:
  assumes "freshID i s"
  obtains p where "onApp (sql (CreateProviderRow now i name t c sec u x f q)) s = Some (Inr p, withRow p s)"
    "pr_ID p = i" "pr_ClientSecret p = sec" "pr_Credentials p = []" "pr_Type p = t"
  using CreateProviderRow_fresh [of "sv_db (ap_svc (oa_app s))" i now name t c sec u x f q] assms
  by (auto simp: onApp_def sql_def onSvc_def query_def freshID_def withRow_def)

lemma undo_row:
  assumes "freshID i s" "pr_ID p = i"
  shows "onApp (sql (DeleteProviderRow i)) (withRow p s) = Some (Inr (), s)"
proof -
  have f: "db_faults (sv_db (ap_svc (oa_app s))) = []" "db_uuid (sv_db (ap_svc (oa_app s))) i = Some i"
    "i \<notin> pr_ID ` set (db_providers (sv_db (ap_svc (oa_app s))))" using assms(1) by (simp_all add: freshID_def)
  show ?thesis using delete_fresh [OF f(3) assms(2)] f(1,2)
    by (simp add: onApp_def sql_def onSvc_def query_def DeleteProviderRow_ok withRow_def)
qed

lemma cursor_started:
  assumes "freshID (ae_newID (oe_app env)) s" "createCursorProviderAuthorization env req s = Some (r, s')" "ai_Type req = 10"
  shows "startOutcome (ae_newID (oe_app env)) 10 s r s'"
proof -
  obtain p where p: "onApp (sql (CreateProviderRow (ae_now (oe_app env)) (ae_newID (oe_app env)) (ai_Name req) (ai_Type req)
        (if ai_CustomUrl req = [] then ''https://api2.cursor.sh/'' else ai_CustomUrl req) ''oauth:pending''
        (ai_UseProxy req) (ai_Proxy req) (ai_Proxy req = []) (ai_Priority req))) s = Some (Inr p, withRow p s)"
    "pr_ID p = ae_newID (oe_app env)" "pr_ClientSecret p = ''oauth:pending''" "pr_Credentials p = []" "pr_Type p = ai_Type req"
    using create_row [OF assms(1)] .
  show ?thesis using assms(2,3) p undo_row [OF assms(1) p(2)]
    by (auto simp: createCursorProviderAuthorization_def andThen_def ret_def fail_def ignore_def change_def Let_def startOutcome_def
        withRow_def split: sum.splits if_splits)
qed

lemma other_started:
  assumes "freshID (ae_newID (oe_app env)) s" "ai_Type req \<noteq> 10"
    and "andThen (onApp (sql (CreateProviderRow (ae_now (oe_app env)) (ae_newID (oe_app env)) name (ai_Type req) c ''oauth:pending''
        (ai_UseProxy req) (ai_Proxy req) (ai_Proxy req = []) (ai_Priority req)))) (requestAuthorization env v) s = Some (r, s')"
  shows "startOutcome (ae_newID (oe_app env)) (ai_Type req) s r s'"
proof -
  obtain p where p: "onApp (sql (CreateProviderRow (ae_now (oe_app env)) (ae_newID (oe_app env)) name (ai_Type req) c ''oauth:pending''
        (ai_UseProxy req) (ai_Proxy req) (ai_Proxy req = []) (ai_Priority req))) s = Some (Inr p, withRow p s)"
    "pr_ID p = ae_newID (oe_app env)" "pr_ClientSecret p = ''oauth:pending''" "pr_Credentials p = []" "pr_Type p = ai_Type req"
    using create_row [OF assms(1)] .
  show ?thesis
    using requestAuthorization_cases [of env v p "withRow p s"] assms(2,3) p undo_row [OF assms(1) p(2)]
    by (auto simp: andThen_def ret_def fail_def ignore_def startOutcome_def withRow_def)
qed


text \<open>
  C31: the removal job deletes exactly the providers whose authorization has been pending for more than
  ten minutes, and keeps the others in their order.
\<close>

theorem abandoned_authorizations_removed:
  assumes "db_faults d = []" "distinct (map pr_ID (db_providers d))" "\<forall>p \<in> set (db_providers d). db_uuid d (pr_ID p) = Some (pr_ID p)"
  shows "provider_remover now d = (Inr (), d\<lparr>db_providers := filter (\<lambda>p. \<not> (pr_ClientSecret p = ''oauth:pending'' \<and> pr_UpdatedAt p < now - 10 * minute)) (db_providers d)\<rparr>)"
proof -
  have "removeExpired now ps d = (Inr (), d\<lparr>db_providers := filter (\<lambda>p. \<not> (pr_ID p \<in> pr_ID ` {q \<in> set ps. expired now q})) (db_providers d)\<rparr>)"
    if "db_faults d = []" "\<forall>p \<in> set ps. db_uuid d (pr_ID p) = Some (pr_ID p)" for ps d
    using that
  proof (induction ps arbitrary: d)
    case (Cons p ps)
    show ?case
    proof (cases "expired now p")
      case True
      have "filter (\<lambda>q. pr_ID q \<notin> pr_ID ` {q \<in> set ps. expired now q}) (filter (\<lambda>q. pr_ID q \<noteq> pr_ID p) xs) =
          filter (\<lambda>q. pr_ID q \<notin> pr_ID ` {q \<in> set (p # ps). expired now q}) xs" for xs :: "Provider list"
        using True by (auto intro!: filter_cong)
      then show ?thesis using Cons True by (simp add: DeleteProviderRow_ok)
    next
      case False
      then have "{q \<in> set (p # ps). expired now q} = {q \<in> set ps. expired now q}" by auto
      then show ?thesis using Cons False by simp
    qed
  qed simp
  from this [OF assms(1,3)]
  have "provider_remover now d = (Inr (), d\<lparr>db_providers :=
      filter (\<lambda>p. \<not> (pr_ID p \<in> pr_ID ` {q \<in> set (db_providers d). expired now q})) (db_providers d)\<rparr>)"
    using assms(1) by (simp add: provider_remover_def GetProviders_def stmt_no_fault)
  moreover have "filter (\<lambda>p. \<not> (pr_ID p \<in> pr_ID ` {q \<in> set (db_providers d). expired now q})) (db_providers d) =
      filter (\<lambda>p. \<not> expired now p) (db_providers d)"
    using assms(2) by (auto simp: distinct_map inj_on_def intro!: filter_cong)
  ultimately show ?thesis by (simp add: expired_def)
qed

section \<open>Witnesses\<close>

definition login_sdk :: "(string \<times> string \<times> string) list sdk" where
  "login_sdk = \<lparr>sd_Get = map_of, sd_Register = (\<lambda>state provider. setKey state (provider, [])),
     sd_SetError = (\<lambda>state e. setKey state ([], e)), sd_Complete = (\<lambda>state. filter (\<lambda>p. fst p \<noteq> state))\<rparr>"

definition login_env :: "(string \<times> string \<times> string) list oauth_env" where
  "login_env = \<lparr>oe_app = grok_env, oe_sdk = login_sdk, oe_decode = (\<lambda>_. Inr zeroAuthorization), oe_callback = (\<lambda>_ _. []),
     oe_random = Inr [], oe_state = ''st'', oe_poll = (\<lambda>_. Inl ''no'')\<rparr>"

definition login_provider :: Provider where
  "login_provider = grok\<lparr>pr_ClientSecret := ''oauth:pending'', pr_Credentials := [(''access_token'', JStr ''t'')]\<rparr>"

definition login_state :: "(string \<times> string \<times> string) list oauth" where
  "login_state = \<lparr>oa_app = (grok_app empty_config)\<lparr>ap_svc := \<lparr>sv_db = grok_db\<lparr>db_providers := [login_provider]\<rparr>,
     sv_config = empty_config, sv_disk = empty_config, sv_saves = []\<rparr>\<rparr>, oa_flows = [], oa_sessions = [(''x'', ''g'', [])]\<rparr>"

lemma login_trim: "trimSpace ''x'' = ''x''" "trimSpace ''t'' = ''t''" "trimSpace ''g'' = ''g''"
  by (rule trimSpace_graphic; auto)+

theorem ok_means_token_stored_witness:
  "\<exists>s'. GetProviderAuthorizationStatus login_env (Some None) ''x'' login_state = Some (Inr (okStatusOf ''g''), s') \<and>
     (\<exists>p \<in> set (db_providers (sv_db (ap_svc (oa_app s')))).
        db_uuid (sv_db (ap_svc (oa_app s'))) ''g'' = Some (pr_ID p) \<and> stringAt (pr_Credentials p) ''access_token'' \<noteq> [])"
proof -
  obtain s' where g: "GetProviderAuthorizationStatus login_env (Some None) ''x'' login_state = Some (Inr (okStatusOf ''g''), s')"
    by (simp add: GetProviderAuthorizationStatus_def login_env_def login_sdk_def login_state_def login_provider_def grok_def grok_db_def
        adminOnly_def andThen_def ret_def onApp_def completeStoredProviderAuthorization_def findProviderOAuthCredentials_def sql_def onSvc_def
        query_def GetProvider_def UpdateProviderCredentials_def stmt_def withUUID_def providerCredentialsCompleted_def stringAt_def
        login_trim Let_def)
  from ok_means_token_stored [OF disjI1, OF g] g show ?thesis by (simp add: okStatusOf_def)
qed

definition login_request :: auth_input where
  "login_request = \<lparr>ai_Name = ''x'', ai_Type = 10, ai_CustomUrl = [], ai_UseProxy = False, ai_Proxy = [], ai_Priority = 0\<rparr>"


theorem abandoned_authorizations_removed_witness:
  "provider_remover (11 * minute) (grok_db\<lparr>db_providers := [login_provider, grok\<lparr>pr_ID := ''h''\<rparr>]\<rparr>) =
     (Inr (), grok_db\<lparr>db_providers := [grok\<lparr>pr_ID := ''h''\<rparr>]\<rparr>)"
proof -
  let ?d = "grok_db\<lparr>db_providers := [login_provider, grok\<lparr>pr_ID := ''h''\<rparr>]\<rparr>"
  have "db_faults ?d = []" "distinct (map pr_ID (db_providers ?d))" "\<forall>p \<in> set (db_providers ?d). db_uuid ?d (pr_ID p) = Some (pr_ID p)"
    by (simp_all add: grok_db_def login_provider_def grok_def)
  from abandoned_authorizations_removed [OF this, of "11 * minute"] show ?thesis
    by (simp add: login_provider_def grok_def go_time)
qed

end
