(* ===== verification/Lifecycle.thy ===== *)
theory Lifecycle
  imports Prelude
begin

text \<open>
  The life of the embedded CLIProxyAPI service: it is built at the start (\<open>InitCPAPI\<close>), run in a goroutine
  (\<open>RunCPAPI\<close>), replaced by a restart (\<open>RestartCPAPI\<close>) and ended by the function that \<open>buildCPAPILocked\<close>
  registers for the shutdown (\<open>src/internal/app/provider/cpapi.go\<close>, \<open>provider.go\<close>).

  All fields are guarded by the mutex \<open>cpapiMu\<close>, so a section between \<open>Lock\<close> and \<open>Unlock\<close> is one step; steps
  of different goroutines interleave in any order.  Services and cancellable contexts are numbered in the
  order of their creation.  The service itself belongs to the SDK: building it may fail, and its \<open>Run\<close> may
  return once its context is cancelled or the service is shut down.  A panic ends the process.
\<close>

section \<open>State\<close>

text \<open>A goroutine that executes \<open>RunCPAPI\<close>: before its first step, holding context \<open>k\<close>, running service \<open>v\<close> with it, done.\<close>

datatype runner = Spawned | Armed nat | Running nat nat | Returned

record cpapi =
  cp_cliproxy :: "nat option"
  cp_built :: nat
  cp_down :: "nat list"
  cp_selectorCancel :: "nat option"
  cp_contexts :: nat
  cp_cancelled :: "nat list"
  cp_closerSet :: bool
  cp_closers :: nat
  cp_runners :: "runner list"
  cp_crashed :: bool

definition newP :: cpapi where
  "newP = \<lparr>cp_cliproxy = None, cp_built = 0, cp_down = [], cp_selectorCancel = None, cp_contexts = 0, cp_cancelled = [],
     cp_closerSet = False, cp_closers = 0, cp_runners = [], cp_crashed = False\<rparr>"

section \<open>Critical sections\<close>

text \<open>\<open>built\<close> says whether the registrations and the SDK's builder succeed.\<close>

definition buildService :: "bool \<Rightarrow> cpapi \<Rightarrow> cpapi" where
  "buildService built p =
     (if \<not> built then p
      else
       (let p = p\<lparr>cp_cliproxy := Some (cp_built p), cp_built := Suc (cp_built p)\<rparr> in
        if \<not> cp_closerSet p then p\<lparr>cp_closerSet := True, cp_closers := Suc (cp_closers p)\<rparr> else p))"

definition InitCPAPI :: "bool \<Rightarrow> cpapi \<Rightarrow> cpapi" where
  "InitCPAPI built p = (if cp_cliproxy p \<noteq> None then p else buildService built p)"

definition SetSelectorCancel :: "nat \<Rightarrow> cpapi \<Rightarrow> cpapi" where
  "SetSelectorCancel k p = p\<lparr>cp_selectorCancel := Some k\<rparr>"

definition cancelSelector :: "cpapi \<Rightarrow> cpapi" where
  "cancelSelector p =
     (case cp_selectorCancel p of
        None \<Rightarrow> p
      | Some k \<Rightarrow> p\<lparr>cp_selectorCancel := None, cp_cancelled := k # cp_cancelled p\<rparr>)"

text \<open>\<open>CLIProxyAPI\<close> panics when there is no service.\<close>

definition CLIProxyAPI :: "cpapi \<Rightarrow> nat option" where
  "CLIProxyAPI p = cp_cliproxy p"

definition shutdown :: "nat \<Rightarrow> cpapi \<Rightarrow> cpapi" where
  "shutdown v p = p\<lparr>cp_down := v # cp_down p\<rparr>"

text \<open>The critical section of a restart, and the goroutine it starts when the service was built.\<close>

definition restartService :: "bool \<Rightarrow> cpapi \<Rightarrow> cpapi" where
  "restartService built p0 =
     (let p = cancelSelector p0;
          p = (case cp_cliproxy p of None \<Rightarrow> p | Some v \<Rightarrow> (shutdown v p)\<lparr>cp_cliproxy := None\<rparr>);
          p = buildService built p
      in if built then p\<lparr>cp_runners := cp_runners p @ [Spawned]\<rparr> else p)"

text \<open>The steps of \<open>RunCPAPI\<close> in goroutine \<open>i\<close>.\<close>

definition setRunner :: "nat \<Rightarrow> runner \<Rightarrow> cpapi \<Rightarrow> cpapi" where
  "setRunner i r p = p\<lparr>cp_runners := (cp_runners p)[i := r]\<rparr>"

definition armRunner :: "nat \<Rightarrow> cpapi \<Rightarrow> cpapi" where
  "armRunner i p = SetSelectorCancel (cp_contexts p) (setRunner i (Armed (cp_contexts p)) (p\<lparr>cp_contexts := Suc (cp_contexts p)\<rparr>))"

definition runService :: "nat \<Rightarrow> nat \<Rightarrow> cpapi \<Rightarrow> cpapi" where
  "runService i k p = (case CLIProxyAPI p of None \<Rightarrow> p\<lparr>cp_crashed := True\<rparr> | Some v \<Rightarrow> setRunner i (Running k v) p)"

text \<open>The function run at shutdown.\<close>

definition closeService :: "cpapi \<Rightarrow> cpapi" where
  "closeService p0 =
     (let p = cancelSelector p0 in
      case CLIProxyAPI p of None \<Rightarrow> p\<lparr>cp_crashed := True\<rparr> | Some v \<Rightarrow> shutdown v p)"

section \<open>Runs\<close>

datatype life_event = Start | Restart bool | Arm nat | Fetch nat | Finish nat | Close

text \<open>The run of a service can end when its context is cancelled or the service was shut down.\<close>

definition mayEnd :: "runner \<Rightarrow> cpapi \<Rightarrow> bool" where
  "mayEnd r p = (case r of Running k v \<Rightarrow> k \<in> set (cp_cancelled p) \<or> v \<in> set (cp_down p) | _ \<Rightarrow> False)"

inductive cpStep :: "life_event \<Rightarrow> cpapi \<Rightarrow> cpapi \<Rightarrow> bool" where
  start: "\<not> cp_crashed p \<Longrightarrow> cpStep Start p (p\<lparr>cp_runners := cp_runners p @ [Spawned]\<rparr>)"
| restart: "\<not> cp_crashed p \<Longrightarrow> cpStep (Restart built) p (restartService built p)"
| arm: "\<not> cp_crashed p \<Longrightarrow> i < length (cp_runners p) \<Longrightarrow> cp_runners p ! i = Spawned \<Longrightarrow> cpStep (Arm i) p (armRunner i p)"
| fetch: "\<not> cp_crashed p \<Longrightarrow> i < length (cp_runners p) \<Longrightarrow> cp_runners p ! i = Armed k \<Longrightarrow> cpStep (Fetch i) p (runService i k p)"
| finish: "\<not> cp_crashed p \<Longrightarrow> i < length (cp_runners p) \<Longrightarrow> mayEnd (cp_runners p ! i) p \<Longrightarrow> cpStep (Finish i) p (setRunner i Returned p)"
| close: "\<not> cp_crashed p \<Longrightarrow> cpStep Close p (closeService p)"

inductive_cases cpStepE: "cpStep e p p'"

text \<open>The states reached after the service was first built, with the events on the way.\<close>

inductive cpReach :: "life_event list \<Rightarrow> cpapi \<Rightarrow> bool" where
  init: "cpReach [] (InitCPAPI True newP)"
| step: "cpReach es p \<Longrightarrow> cpStep e p p' \<Longrightarrow> cpReach (es @ [e]) p'"

section \<open>Invariants\<close>

definition runnersOK :: "nat \<Rightarrow> runner list \<Rightarrow> bool" where
  "runnersOK n rs = list_all (\<lambda>r. case r of Running k v \<Rightarrow> v < n | _ \<Rightarrow> True) rs"

text \<open>Every service but the current one is shut down, and one function is registered for the shutdown.\<close>

definition lifeOK :: "cpapi \<Rightarrow> bool" where
  "lifeOK p \<longleftrightarrow> (\<forall>v < cp_built p. cp_cliproxy p = Some v \<or> v \<in> set (cp_down p)) \<and>
     (\<forall>v. cp_cliproxy p = Some v \<longrightarrow> v < cp_built p) \<and> cp_closerSet p \<and> cp_closers p = 1 \<and> runnersOK (cp_built p) (cp_runners p)"

lemma runnersOK_update:
  assumes "runnersOK n rs" "\<And>k v. r = Running k v \<Longrightarrow> v < n"
  shows "runnersOK n (rs[i := r])"
  using assms set_update_subset_insert [of rs i r] by (auto simp: runnersOK_def list_all_iff split: runner.splits)

lemma runnersOK_mono: "runnersOK n rs \<Longrightarrow> n \<le> m \<Longrightarrow> runnersOK m rs"
  by (auto simp: runnersOK_def list_all_iff split: runner.splits)

lemma runnersOK_append [simp]: "runnersOK n (rs @ [Spawned]) = runnersOK n rs"
  by (simp add: runnersOK_def)

lemma cancelSelector_frame [simp]:
  "cp_cliproxy (cancelSelector p) = cp_cliproxy p" "cp_built (cancelSelector p) = cp_built p" "cp_down (cancelSelector p) = cp_down p"
  "cp_closerSet (cancelSelector p) = cp_closerSet p" "cp_closers (cancelSelector p) = cp_closers p"
  "cp_runners (cancelSelector p) = cp_runners p" "cp_crashed (cancelSelector p) = cp_crashed p"
  by (simp_all add: cancelSelector_def split: option.splits)

lemmas section_defs = restartService_def buildService_def closeService_def armRunner_def runService_def setRunner_def SetSelectorCancel_def
  shutdown_def CLIProxyAPI_def Let_def

lemma restart_lifeOK:
  assumes "lifeOK p"
  shows "lifeOK (restartService built p)"
proof -
  have "runnersOK (Suc (cp_built p)) (cp_runners p)" using assms runnersOK_mono [of "cp_built p"] by (simp add: lifeOK_def)
  then show ?thesis using assms by (auto simp: section_defs lifeOK_def less_Suc_eq split: option.splits)
qed

lemma cpStep_lifeOK:
  assumes "cpStep e p p'" "lifeOK p"
  shows "lifeOK p'"
  using assms
proof cases
  case restart
  then show ?thesis using assms(2) by (simp add: restart_lifeOK)
next
  case (fetch i k)
  then show ?thesis using assms(2) by (auto simp: section_defs lifeOK_def intro!: runnersOK_update split: option.splits)
qed (use assms(2) in \<open>auto simp: section_defs lifeOK_def intro!: runnersOK_update split: option.splits\<close>)

interpretation lifecycle: invariant_system "cpStep e" lifeOK for e
  by standard (rule cpStep_lifeOK)

lemma cpReach_lifeOK: "cpReach es p \<Longrightarrow> lifeOK p"
proof (induction rule: cpReach.induct)
  case init
  show ?case by (simp add: InitCPAPI_def newP_def buildService_def lifeOK_def runnersOK_def Let_def)
next
  case (step es p e p')
  then show ?case using lifecycle.preserves by blast
qed

text \<open>A service is missing only after a restart that failed.\<close>

lemma cpStep_service:
  assumes "cpStep e p p'" "e \<noteq> Restart False" "cp_cliproxy p \<noteq> None"
  shows "cp_cliproxy p' \<noteq> None \<and> cp_crashed p' = cp_crashed p"
  using assms by cases (auto simp: section_defs split: option.splits)

lemma cpReach_service: "cpReach es p \<Longrightarrow> Restart False \<notin> set es \<Longrightarrow> cp_cliproxy p \<noteq> None \<and> \<not> cp_crashed p"
proof (induction rule: cpReach.induct)
  case init
  show ?case by (simp add: InitCPAPI_def newP_def buildService_def Let_def)
next
  case (step es p e p')
  then show ?case using cpStep_service [OF step.hyps(2)] by auto
qed


lemma first_restart: "cpReach ([] @ [Restart built]) (restartService built (InitCPAPI True newP))"
  by (rule cpReach.step [OF cpReach.init cpStep.restart]) (simp add: InitCPAPI_def newP_def buildService_def Let_def)

text \<open>
  Two restarts in a row: the goroutine of the first one may fetch the service of the second one, so that
  two goroutines run the same service, and the context of the first can no longer be cancelled.
\<close>

lemma restart_race:
  "\<exists>p. cpReach [Restart True, Restart True, Arm 0, Arm 1, Fetch 0, Fetch 1] p \<and>
     cp_runners p = [Running 0 2, Running 1 2] \<and> cp_selectorCancel p = Some 1 \<and> cp_cancelled p = []"
proof -
  let ?p0 = "InitCPAPI True newP"
  let ?p1 = "restartService True ?p0" let ?p2 = "restartService True ?p1" let ?p3 = "armRunner 0 ?p2" let ?p4 = "armRunner 1 ?p3"
  let ?p5 = "runService 0 0 ?p4" let ?p6 = "runService 1 1 ?p5"
  note defs = InitCPAPI_def newP_def section_defs cancelSelector_def
  have "cpReach ([] @ [Restart True]) ?p1" by (rule first_restart)
  then have "cpReach (([] @ [Restart True]) @ [Restart True]) ?p2" by (rule cpReach.step) (intro cpStep.restart, simp add: defs)
  then have "cpReach ((([] @ [Restart True]) @ [Restart True]) @ [Arm 0]) ?p3" by (rule cpReach.step) (intro cpStep.arm; simp add: defs)
  then have "cpReach (((([] @ [Restart True]) @ [Restart True]) @ [Arm 0]) @ [Arm 1]) ?p4" by (rule cpReach.step) (intro cpStep.arm; simp add: defs)
  then have "cpReach ((((([] @ [Restart True]) @ [Restart True]) @ [Arm 0]) @ [Arm 1]) @ [Fetch 0]) ?p5"
    by (rule cpReach.step) (intro cpStep.fetch; simp add: defs)
  then have "cpReach (((((([] @ [Restart True]) @ [Restart True]) @ [Arm 0]) @ [Arm 1]) @ [Fetch 0]) @ [Fetch 1]) ?p6"
    by (rule cpReach.step) (intro cpStep.fetch; simp add: defs)
  moreover have "cp_runners ?p6 = [Running 0 2, Running 1 2]" "cp_selectorCancel ?p6 = Some 1" "cp_cancelled ?p6 = []"
    by (simp_all add: defs)
  ultimately show ?thesis by auto
qed

text \<open>After a restart that failed, the shutdown panics.\<close>

lemma failed_restart_breaks_shutdown: "\<exists>p. cpReach [Restart False, Close] p \<and> cp_crashed p"
proof -
  let ?p1 = "restartService False (InitCPAPI True newP)"
  note defs = InitCPAPI_def newP_def section_defs cancelSelector_def
  have "cpReach ([] @ [Restart False]) ?p1" by (rule first_restart)
  then have "cpReach (([] @ [Restart False]) @ [Close]) (closeService ?p1)" by (rule cpReach.step) (intro cpStep.close, simp add: defs)
  moreover have "cp_crashed (closeService ?p1)" by (simp add: defs)
  ultimately show ?thesis by auto
qed

section \<open>Witness\<close>


end
