(* ===== verification/Container.thy ===== *)
theory Container
  imports Prelude
begin

text \<open>
  The container of the process (\<open>src/internal/app/provider\<close>: \<open>provider.go\<close>, \<open>repo.go\<close>, \<open>cursor.go\<close>): every
  dependency is made on its first use, inside its own \<open>sync.Once\<close>, by a constructor that asks the
  container for what it needs.

  A goroutine that enters a \<open>sync.Once\<close> it is already inside of blocks forever; so the model keeps the
  stack of constructors being executed, and \<open>None\<close> is such a deadlock.  The state is the list of the
  dependencies made so far, in the order in which their constructors returned.
\<close>

section \<open>Dependencies\<close>

datatype component =
    ConfigC | LoggerC | CacheC | CloserC | DBC | UserRepoC | ProviderRepoC | ApiKeyRepoC | UsageEntryRepoC | PushRepoC
  | NotifierC | QuotaWatcherC | UsagePluginC | WarpC | ManagementC | CursorC | ProviderVendorC | CLIProxyAPIConfigC | ServerC

text \<open>
  The getters a constructor calls, in order.  \<open>CLIProxyAPIConfig\<close> stands for the section under \<open>cpapiMu\<close>
  that makes the configuration object.
\<close>

fun needs :: "component \<Rightarrow> component list" where
  "needs ConfigC = []"
| "needs LoggerC = [ConfigC]"
| "needs CacheC = [LoggerC]"
| "needs CloserC = [LoggerC]"
| "needs DBC = [ConfigC, CloserC]"
| "needs UserRepoC = [DBC, ConfigC, ApiKeyRepoC]"
| "needs ProviderRepoC = [DBC]"
| "needs ApiKeyRepoC = [DBC, LoggerC]"
| "needs UsageEntryRepoC = [DBC, ApiKeyRepoC, LoggerC]"
| "needs PushRepoC = [DBC]"
| "needs NotifierC = [PushRepoC, ConfigC, LoggerC]"
| "needs QuotaWatcherC = [NotifierC, PushRepoC, LoggerC]"
| "needs UsagePluginC = [ApiKeyRepoC, UsageEntryRepoC, LoggerC]"
| "needs WarpC = [LoggerC, CloserC, ConfigC]"
| "needs ManagementC = [ConfigC, LoggerC]"
| "needs CursorC = [LoggerC, WarpC, CloserC]"
| "needs ProviderVendorC = [LoggerC, WarpC, CursorC]"
| "needs CLIProxyAPIConfigC = [ConfigC]"
| "needs ServerC = [UserRepoC, ProviderRepoC, ApiKeyRepoC, UsageEntryRepoC, CLIProxyAPIConfigC, ManagementC, WarpC, LoggerC, CacheC,
     ProviderVendorC, PushRepoC, NotifierC]"

text \<open>A number of steps that is enough to make a dependency from nothing.\<close>

fun cost :: "component \<Rightarrow> nat" where
  "cost ConfigC = 1"
| "cost LoggerC = 2"
| "cost CacheC = 3"
| "cost CloserC = 3"
| "cost DBC = 5"
| "cost UserRepoC = 15"
| "cost ProviderRepoC = 6"
| "cost ApiKeyRepoC = 8"
| "cost UsageEntryRepoC = 16"
| "cost PushRepoC = 6"
| "cost NotifierC = 10"
| "cost QuotaWatcherC = 19"
| "cost UsagePluginC = 27"
| "cost WarpC = 7"
| "cost ManagementC = 4"
| "cost CursorC = 13"
| "cost ProviderVendorC = 23"
| "cost CLIProxyAPIConfigC = 2"
| "cost ServerC = 103"

lemma needs_cheaper: "sum_list (map cost (needs c)) < cost c"
  by (cases c) simp_all

lemma needs_below: "b \<in> set (needs c) \<Longrightarrow> cost b < cost c"
  by (cases c) auto

section \<open>Getters\<close>

text \<open>Calling the getters of a list of dependencies, one after the other.\<close>

function load :: "component list \<Rightarrow> component list \<Rightarrow> component list \<Rightarrow> component list option" where
  "load stack [] made = Some made"
| "load stack (c # cs) made =
     (if c \<in> set made then load stack cs made
      else if c \<in> set stack then None
      else
        case load (c # stack) (needs c) made of
          None \<Rightarrow> None
        | Some made' \<Rightarrow> load stack cs (made' @ [c]))"
  by pat_completeness auto

termination
proof (relation "measure (\<lambda>(stack, cs, made). sum_list (map cost cs))")
  show "((c # stack, needs c, made), (stack, c # cs, made)) \<in> measure (\<lambda>(stack, cs, made). sum_list (map cost cs))" for c stack made cs
    using needs_cheaper [of c] by simp
  have "0 < cost c" for c by (cases c) simp_all
  then show "((stack, cs, made), (stack, c # cs, made)) \<in> measure (\<lambda>(stack, cs, made). sum_list (map cost cs))"
    "((stack, cs, made' @ [c]), (stack, c # cs, made)) \<in> measure (\<lambda>(stack, cs, made). sum_list (map cost cs))" for c stack made made' cs
    by simp_all
qed simp

section \<open>Properties\<close>

text \<open>Made once, and everything a constructor needs before it.\<close>

definition ordered :: "component list \<Rightarrow> bool" where
  "ordered made \<longleftrightarrow> distinct made \<and> (\<forall>i < length made. set (needs (made ! i)) \<subseteq> set (take i made))"

lemma ordered_snoc: "ordered made \<Longrightarrow> c \<notin> set made \<Longrightarrow> set (needs c) \<subseteq> set made \<Longrightarrow> ordered (made @ [c])"
  by (auto simp: ordered_def nth_append less_Suc_eq)

lemma load_ordered:
  assumes "ordered made" "\<forall>s \<in> set stack. \<forall>c \<in> set cs. cost c < cost s" "\<forall>s \<in> set stack. s \<notin> set made"
  shows "\<exists>added. load stack cs made = Some (made @ added) \<and> ordered (made @ added) \<and> set cs \<subseteq> set (made @ added) \<and>
    (\<forall>s \<in> set stack. s \<notin> set added)"
  using assms
proof (induction stack cs made rule: load.induct)
  case (1 stack made)
  then show ?case by simp
next
  case (2 stack c cs made)
  show ?case
  proof (cases "c \<in> set made")
    case True
    then show ?thesis using 2 by auto
  next
    case False
    have c: "c \<notin> set stack" using 2(5) by auto
    have "\<forall>s \<in> set (c # stack). \<forall>b \<in> set (needs c). cost b < cost s"
      using 2(5) needs_below [of _ c] by (auto intro: less_trans)
    moreover have "\<forall>s \<in> set (c # stack). s \<notin> set made" using 2(6) False by simp
    ultimately obtain a where a: "load (c # stack) (needs c) made = Some (made @ a)" "ordered (made @ a)"
      "set (needs c) \<subseteq> set (made @ a)" "\<forall>s \<in> set (c # stack). s \<notin> set a"
      using 2(2) [OF False c 2(4)] by blast
    have "ordered (made @ a @ [c])" using ordered_snoc [OF a(2) _ a(3)] False a(4) by simp
    moreover have "\<forall>s \<in> set stack. s \<notin> set ((made @ a) @ [c])" using a(4) 2(6) c by auto
    ultimately obtain b where "load stack cs ((made @ a) @ [c]) = Some (((made @ a) @ [c]) @ b)" "ordered (((made @ a) @ [c]) @ b)"
      "set cs \<subseteq> set (((made @ a) @ [c]) @ b)" "\<forall>s \<in> set stack. s \<notin> set b"
      using 2(3) [OF False c a(1)] 2(5) by auto
    then show ?thesis using False c a by (intro exI [of _ "a @ [c] @ b"]) auto
  qed
qed



end
