(* ===== verification/Jobs.thy ===== *)
theory Jobs
  imports Push Provider_Service
begin

text \<open>
  The periodic jobs of the process (\<open>initCrons\<close> of \<open>src/internal/app/app.go\<close>) and their scheduling
  (\<open>src/internal/crons/crons.go\<close>).  The jobs \<open>quota_resetter\<close> and \<open>provider_remover\<close> stand with the key
  repository and the provider authorization.  The scheduler is a library: an argument says whether it
  accepts an interval.
\<close>

section \<open>Loading quotas\<close>

record loader =
  lo_cache :: cache
  lo_watcher :: watcher

text \<open>One provider; \<open>None\<close> is a panic of the vendor.\<close>

definition loadOne :: "quota_env \<Rightarrow> push_env \<Rightarrow> string list \<Rightarrow> Provider \<Rightarrow> loader \<Rightarrow> loader option" where
  "loadOne qenv penv watched provider l =
     (if pr_Type provider \<noteq> 1 \<and> \<not> pr_Disabled provider then
       (case ProviderOAuthConfig (pr_Type provider) of
          Inl _ \<Rightarrow> Some l
        | Inr v \<Rightarrow>
           (case LoadQuota qenv v (pr_Credentials provider) (pr_UseProxy provider) (pr_Proxy provider) of
              QuotaPanic \<Rightarrow> None
            | QuotaNil \<Rightarrow> Some l
            | Quota quota \<Rightarrow>
               (let l = l\<lparr>lo_cache := snd (SaveQuota (pr_ID provider) (Some quota) (lo_cache l))\<rparr> in
                Some (if pr_ID provider \<in> set watched
                  then l\<lparr>lo_watcher := Observe penv (pr_ID provider) (pr_Name provider) quota (lo_watcher l)\<rparr> else l))))
      else Some l)"

fun loadAll :: "quota_env \<Rightarrow> push_env \<Rightarrow> string list \<Rightarrow> Provider list \<Rightarrow> loader \<Rightarrow> loader option" where
  "loadAll qenv penv watched [] l = Some l"
| "loadAll qenv penv watched (p # ps) l =
     (case loadOne qenv penv watched p l of None \<Rightarrow> None | Some l \<Rightarrow> loadAll qenv penv watched ps l)"

text \<open>Without the subscriptions no provider counts as subscribed.\<close>

definition quota_loader :: "quota_env \<Rightarrow> push_env \<Rightarrow> loader \<Rightarrow> ((err + unit) \<times> loader) option" where
  "quota_loader qenv penv l0 =
     (let setDb = (\<lambda>d l. l\<lparr>lo_watcher := (lo_watcher l)\<lparr>wa_db := d\<rparr>\<rparr>) in
      case GetProviders (wa_db (lo_watcher l0)) of
        (Inl e, d) \<Rightarrow> Some (Inl e, setDb d l0)
      | (Inr providers, d) \<Rightarrow>
         (case SubscribedProviderIDs d of
            (r, d) \<Rightarrow>
              map_option (\<lambda>l. (Inr (), l))
                (loadAll qenv penv (case r of Inl _ \<Rightarrow> [] | Inr ids \<Rightarrow> ids) providers (setDb d l0))))"

section \<open>Pruning events\<close>

definition pushEventRetention :: go_duration where
  "pushEventRetention = 7 * (24 * hour)"

definition push_events_pruner :: "go_time \<Rightarrow> unit sql" where
  "push_events_pruner now = PruneEvents (now - pushEventRetention)"

section \<open>Scheduling\<close>

text \<open>
  \<open>Run\<close> schedules a job, registers its stop function (named after the job) and starts a first, detached pass.
  The result lists the jobs whose first pass was started.
\<close>

record job =
  jb_Name :: string
  jb_Interval :: string

definition Run :: "(string \<Rightarrow> string option) \<Rightarrow> job \<Rightarrow> string closer \<Rightarrow> (string + string list) \<times> string closer" where
  "Run parse j c = (case parse (jb_Interval j) of Some e \<Rightarrow> (Inl e, c) | None \<Rightarrow> (Inr [jb_Name j], Add [jb_Name j] c))"

fun runJobs :: "(string \<Rightarrow> string option) \<Rightarrow> job list \<Rightarrow> string closer \<Rightarrow> (string + string list) \<times> string closer" where
  "runJobs parse [] c = (Inr [], c)"
| "runJobs parse (j # js) c =
     (case Run parse j c of
        (Inl e, c) \<Rightarrow> (Inl e, c)
      | (Inr first, c) \<Rightarrow>
         (case runJobs parse js c of (Inl e, c) \<Rightarrow> (Inl e, c) | (Inr others, c) \<Rightarrow> (Inr (first @ others), c)))"

definition initCrons :: "(string \<Rightarrow> string option) \<Rightarrow> string closer \<Rightarrow> (string + string list) \<times> string closer" where
  "initCrons parse =
     runJobs parse
       [\<lparr>jb_Name = ''quota_resetter'', jb_Interval = ''*/1 * * * *''\<rparr>, \<lparr>jb_Name = ''quota_loader'', jb_Interval = ''*/5 * * * *''\<rparr>,
        \<lparr>jb_Name = ''provider_remover'', jb_Interval = ''*/5 * * * *''\<rparr>, \<lparr>jb_Name = ''push_events_pruner'', jb_Interval = ''0 4 * * *''\<rparr>]"

section \<open>Properties\<close>

text \<open>What the vendor of a provider answers, for the providers the job asks about.\<close>

definition answer :: "quota_env \<Rightarrow> Provider \<Rightarrow> quota_result" where
  "answer qenv p =
     (if pr_Type p = 1 \<or> pr_Disabled p then QuotaNil
      else
        case ProviderOAuthConfig (pr_Type p) of
          Inl _ \<Rightarrow> QuotaNil
        | Inr v \<Rightarrow> LoadQuota qenv v (pr_Credentials p) (pr_UseProxy p) (pr_Proxy p))"

lemma loadOne_eq:
  "loadOne qenv penv watched p l =
     (case answer qenv p of
        QuotaPanic \<Rightarrow> None
      | QuotaNil \<Rightarrow> Some l
      | Quota q \<Rightarrow> Some (l\<lparr>lo_cache := snd (SaveQuota (pr_ID p) (Some q) (lo_cache l)),
          lo_watcher := (if pr_ID p \<in> set watched then Observe penv (pr_ID p) (pr_Name p) q (lo_watcher l) else lo_watcher l)\<rparr>))"
  by (auto simp: loadOne_def answer_def Let_def split: sum.splits quota_result.splits)

lemma notifyOne_previous [simp]: "wa_previous (notifyOne env s ev w) = wa_previous w"
  by (simp add: notifyOne_def split: prod.splits)

lemma Observe_previous: "map_of (wa_previous (Observe env i n q w)) = (map_of (wa_previous w))(i \<mapsto> q)"
proof -
  have "wa_previous (fold (notifyOne env s) evs w) = wa_previous w" for s evs w
    by (induction evs arbitrary: w) auto
  then show ?thesis by (simp add: Observe_def Let_def split: option.splits)
qed

lemma loadAll_result:
  assumes "loadAll qenv penv watched ps l = Some l'" "distinct (map pr_ID ps)" "\<forall>p \<in> set ps. trimSpace (pr_ID p) \<noteq> []"
  shows "(\<forall>p \<in> set ps. answer qenv p \<noteq> QuotaPanic) \<and>
    (\<forall>p \<in> set ps. \<forall>q. answer qenv p = Quota q \<longrightarrow> map_of (lo_cache l') (pr_ID p) = Some q \<and>
       (pr_ID p \<in> set watched \<longrightarrow> map_of (wa_previous (lo_watcher l')) (pr_ID p) = Some q)) \<and>
    (\<forall>i. (\<forall>p \<in> set ps. pr_ID p = i \<longrightarrow> answer qenv p = QuotaNil) \<longrightarrow> map_of (lo_cache l') i = map_of (lo_cache l) i) \<and>
    (\<forall>i. (\<forall>p \<in> set ps. pr_ID p = i \<longrightarrow> answer qenv p = QuotaNil) \<or> i \<notin> set watched \<longrightarrow>
       map_of (wa_previous (lo_watcher l')) i = map_of (wa_previous (lo_watcher l)) i)"
  using assms
proof (induction ps arbitrary: l)
  case Nil
  then show ?case by simp
next
  case (Cons p ps)
  obtain l1 where l1: "loadOne qenv penv watched p l = Some l1" "loadAll qenv penv watched ps l1 = Some l'"
    using Cons.prems(1) by (auto split: option.splits)
  have other: "\<And>q. q \<in> set ps \<Longrightarrow> pr_ID q \<noteq> pr_ID p" and trim: "trimSpace (pr_ID p) \<noteq> []"
    using Cons.prems(2,3) by (auto simp: image_iff)
  have ih: "(\<forall>p \<in> set ps. answer qenv p \<noteq> QuotaPanic) \<and>
    (\<forall>p \<in> set ps. \<forall>q. answer qenv p = Quota q \<longrightarrow> map_of (lo_cache l') (pr_ID p) = Some q \<and>
       (pr_ID p \<in> set watched \<longrightarrow> map_of (wa_previous (lo_watcher l')) (pr_ID p) = Some q)) \<and>
    (\<forall>i. (\<forall>p \<in> set ps. pr_ID p = i \<longrightarrow> answer qenv p = QuotaNil) \<longrightarrow> map_of (lo_cache l') i = map_of (lo_cache l1) i) \<and>
    (\<forall>i. (\<forall>p \<in> set ps. pr_ID p = i \<longrightarrow> answer qenv p = QuotaNil) \<or> i \<notin> set watched \<longrightarrow>
       map_of (wa_previous (lo_watcher l')) i = map_of (wa_previous (lo_watcher l1)) i)"
    using Cons.IH [OF l1(2)] Cons.prems(2,3) by simp
  have keep: "map_of (lo_cache l') (pr_ID p) = map_of (lo_cache l1) (pr_ID p)"
    "map_of (wa_previous (lo_watcher l')) (pr_ID p) = map_of (wa_previous (lo_watcher l1)) (pr_ID p)"
    using ih other by blast+
  show ?case
  proof (cases "answer qenv p")
    case QuotaPanic
    then show ?thesis using l1(1) by (simp add: loadOne_eq)
  next
    case QuotaNil
    then have "l1 = l" using l1(1) by (simp add: loadOne_eq)
    then show ?thesis using ih QuotaNil by simp
  next
    case (Quota q)
    have c: "map_of (lo_cache l1) = (map_of (lo_cache l))(pr_ID p \<mapsto> q)"
      "map_of (wa_previous (lo_watcher l1)) = (if pr_ID p \<in> set watched then (map_of (wa_previous (lo_watcher l)))(pr_ID p \<mapsto> q)
         else map_of (wa_previous (lo_watcher l)))"
      using l1(1) Quota trim by (auto simp: loadOne_eq SaveQuota_def Observe_previous)
    show ?thesis using ih keep c Quota by auto
  qed
qed

text \<open>
  C30: a run of the quota job that ends leaves in the cache the quota that each provider's vendor reported,
  and hands it to the watcher exactly for the providers somebody subscribed to; what is cached and watched
  for every other provider stays.  It ends unless a vendor panics.
\<close>

theorem quota_loader_refreshes:
  assumes "db_faults (wa_db (lo_watcher l)) = []" "distinct (map pr_ID (db_providers (wa_db (lo_watcher l))))"
    and "\<forall>p \<in> set (db_providers (wa_db (lo_watcher l))). trimSpace (pr_ID p) \<noteq> []"
    and "\<forall>p \<in> set (db_providers (wa_db (lo_watcher l))). answer qenv p \<noteq> QuotaPanic"
    and "SubscribedProviderIDs (wa_db (lo_watcher l)) = (Inr ids, wa_db (lo_watcher l))"
  shows "\<exists>l'. quota_loader qenv penv l = Some (Inr (), l') \<and>
    (\<forall>p \<in> set (db_providers (wa_db (lo_watcher l))). \<forall>q. answer qenv p = Quota q \<longrightarrow>
       map_of (lo_cache l') (pr_ID p) = Some q \<and>
       map_of (wa_previous (lo_watcher l')) (pr_ID p) =
         (if pr_ID p \<in> set ids then Some q else map_of (wa_previous (lo_watcher l)) (pr_ID p))) \<and>
    (\<forall>i. (\<forall>p \<in> set (db_providers (wa_db (lo_watcher l))). pr_ID p = i \<longrightarrow> answer qenv p = QuotaNil) \<longrightarrow>
       map_of (lo_cache l') i = map_of (lo_cache l) i \<and> map_of (wa_previous (lo_watcher l')) i = map_of (wa_previous (lo_watcher l)) i)"
proof -
  let ?ps = "db_providers (wa_db (lo_watcher l))"
  have "\<exists>l'. loadAll qenv penv ids ps m = Some l'" if "\<forall>p \<in> set ps. answer qenv p \<noteq> QuotaPanic" for ps m
    using that by (induction ps arbitrary: m) (auto simp: loadOne_eq split: quota_result.splits)
  then obtain l' where l': "loadAll qenv penv ids ?ps l = Some l'" using assms(4) by blast
  then have "quota_loader qenv penv l = Some (Inr (), l')"
    using assms(1,5) by (simp add: quota_loader_def GetProviders_def stmt_no_fault Let_def)
  then show ?thesis using loadAll_result [OF l' assms(2,3)] by auto
qed

section \<open>Witness\<close>

definition idle_loader :: loader where
  "idle_loader = \<lparr>lo_cache = [], lo_watcher = \<lparr>wa_previous = [], wa_keys = None, wa_db = grok_db\<lparr>db_providers := [grok\<lparr>pr_Type := 7\<rparr>]\<rparr>, wa_sent = []\<rparr>\<rparr>"

theorem quota_loader_refreshes_witness:
  "\<exists>l'. quota_loader sample_quota_env sample_push_env idle_loader = Some (Inr (), l') \<and> map_of (lo_cache l') ''g'' = Some (quotaError ''not supported'')"
proof -
  have t: "trimSpace ''g'' = ''g''" by (rule trimSpace_graphic) auto
  have a: "answer sample_quota_env (grok\<lparr>pr_Type := 7\<rparr>) = Quota (quotaError ''not supported'')"
    by (simp add: answer_def ProviderOAuthConfig_def grok_def)
  have h: "db_faults (wa_db (lo_watcher idle_loader)) = []" "distinct (map pr_ID (db_providers (wa_db (lo_watcher idle_loader))))"
    "\<forall>p \<in> set (db_providers (wa_db (lo_watcher idle_loader))). trimSpace (pr_ID p) \<noteq> []"
    "\<forall>p \<in> set (db_providers (wa_db (lo_watcher idle_loader))). answer sample_quota_env p \<noteq> QuotaPanic"
    "SubscribedProviderIDs (wa_db (lo_watcher idle_loader)) = (Inr [], wa_db (lo_watcher idle_loader))"
    using t a by (simp_all add: idle_loader_def grok_db_def SubscribedProviderIDs_def SubscribedSubjects_def stmt_def List.map_filter_simps,
      simp_all add: grok_def)
  from quota_loader_refreshes [OF h, of sample_push_env] a show ?thesis by (auto simp: idle_loader_def grok_def)
qed

end
