(* ===== verification/Http_Front.thy ===== *)
theory Http_Front
  imports Prelude Store
begin

text \<open>
  The front of the HTTP server (\<open>initHttpServer\<close> and \<open>allowAllCORS\<close> of \<open>src/internal/app/app.go\<close>): which
  handler serves which path, and the CORS headers outside production.  What the handlers do is modelled
  with them; the rewriting of upstream answers stands with the access provider.  Paths are those the
  multiplexer does not redirect (clean, and below a registered prefix, not the prefix itself).
\<close>

section \<open>Handlers\<close>

text \<open>Who answers a request: the handler below, or the layer itself with a status.  The headers are those set so far.\<close>

datatype handler_kind = RestServer | UpstreamProxy | Frontend | NotFoundHandler

datatype served = Answered int "(string \<times> string) list" | Passed handler_kind "(string \<times> string) list"

record front_request =
  fr_Method :: string
  fr_Path :: string
  fr_Origin :: string
  fr_RequestHeaders :: string

definition allowAllCORS :: "front_request \<Rightarrow> served" where
  "allowAllCORS r =
     (let headers =
            (if fr_Origin r \<noteq> []
             then [(''Access-Control-Allow-Origin'', fr_Origin r), (''Vary'', ''Origin''), (''Access-Control-Allow-Credentials'', ''true'')]
             else [(''Access-Control-Allow-Origin'', ''*'')]) @
            [(''Access-Control-Expose-Headers'', ''*'')]
      in
      if fr_Method r = ''OPTIONS'' then
        Answered 204 (headers @
          [(''Access-Control-Allow-Methods'', ''GET, POST, PUT, PATCH, DELETE, OPTIONS''),
           (''Access-Control-Allow-Headers'', if fr_RequestHeaders r \<noteq> [] then fr_RequestHeaders r else ''*''),
           (''Access-Control-Max-Age'', ''86400''), (''Vary'', ''Access-Control-Request-Headers'')])
      else Passed UpstreamProxy headers)"

definition apiHandler :: "bool \<Rightarrow> front_request \<Rightarrow> served" where
  "apiHandler production r =
     (let headers =
            (if \<not> production then
               [(''Access-Control-Allow-Origin'', fr_Origin r), (''Vary'', ''Origin''),
                (''Access-Control-Allow-Methods'', ''GET, POST, PUT, PATCH, DELETE, OPTIONS''),
                (''Access-Control-Allow-Headers'', ''Authorization, Content-Type, X-API-Key'')]
             else [])
      in if fr_Method r = ''OPTIONS'' then Answered 204 headers else Passed RestServer headers)"

text \<open>The effort preset layer around the proxy rewrites requests only and sets no header.\<close>

definition v1Handler :: "bool \<Rightarrow> front_request \<Rightarrow> served" where
  "v1Handler production r = (if \<not> production then allowAllCORS r else Passed UpstreamProxy [])"

definition rootMux :: "bool \<Rightarrow> front_request \<Rightarrow> served" where
  "rootMux production r =
     (if hasPrefix (fr_Path r) ''/api/'' then apiHandler production r
      else if hasPrefix (fr_Path r) ''/v1/'' \<or> hasPrefix (fr_Path r) ''/v1beta/'' then v1Handler production r
      else if \<not> production \<and> hasPrefix (fr_Path r) ''/v0/'' then v1Handler production r
      else if production then Passed Frontend []
      else Passed NotFoundHandler [])"

text \<open>
  The handler of \<open>src/frontend/frontend.go\<close>: the path it asks the file server for.  \<open>inDist\<close> says which paths can be
  opened in the embedded directory.
\<close>

definition frontendHandler :: "(string \<Rightarrow> bool) \<Rightarrow> string \<Rightarrow> string" where
  "frontendHandler inDist urlPath =
     (let path = trimPrefix urlPath ''/'';
          path = (if path = [] then ''index.html'' else path)
      in if inDist path then urlPath else ''/'')"

section \<open>Properties\<close>

definition headersOf :: "served \<Rightarrow> (string \<times> string) list" where
  "headersOf s = (case s of Answered _ h \<Rightarrow> h | Passed _ h \<Rightarrow> h)"

text \<open>In production no CORS header is set, and the management interface under \<open>/v0/\<close> is not forwarded.\<close>

lemma production_front:
  "headersOf (rootMux True r) = []" "hasPrefix (fr_Path r) ''/v0/'' \<Longrightarrow> rootMux True r = Passed Frontend []"
proof -
  show "headersOf (rootMux True r) = []" by (simp add: headersOf_def rootMux_def apiHandler_def v1Handler_def)
  assume "hasPrefix (fr_Path r) ''/v0/''"
  then obtain s where "fr_Path r = ''/v0/'' @ s" by (auto simp: hasPrefix_iff)
  then show "rootMux True r = Passed Frontend []" by (auto simp: rootMux_def hasPrefix_iff)
qed

text \<open>Elsewhere a preflight request is answered here: it reaches neither the handlers nor CLIProxyAPI.\<close>

lemma preflight_answered:
  "fr_Method r = ''OPTIONS'' \<Longrightarrow> rootMux False r = Passed k h \<Longrightarrow> k = NotFoundHandler"
  by (auto simp: rootMux_def apiHandler_def v1Handler_def allowAllCORS_def Let_def split: if_splits)

text \<open>The file server is only asked for the start page or for a file it has, so a link into the page works.\<close>

lemma frontend_serves:
  "frontendHandler inDist urlPath = ''/'' \<or>
   inDist (trimPrefix (frontendHandler inDist urlPath) ''/'') \<or> trimPrefix (frontendHandler inDist urlPath) ''/'' = []"
  by (auto simp: frontendHandler_def Let_def)

end
