(* ===== verification/Gateway.thy ===== *)
theory Gateway
  imports Access_Provider Http_Front
begin

text \<open>
  The REST interface of the server: the routes and request decoders generated from the service
  description (\<open>src/pkg/pb/api/aoyorouter/docs/api/v1/project.pb.gw.go\<close>), the middlewares around every
  handler (\<open>src/internal/driver/middlewares\<close>, \<open>src/pkg/logger/logger.go\<close>) and how \<open>initHttpServer\<close> puts
  them together.  The multiplexer of the gateway runtime, its decoders and the order in which it runs the
  middlewares are arguments; the handlers of the service are modelled in their own theories and are the
  argument \<open>server\<close> here.
\<close>

section \<open>Routes\<close>

datatype rpc =
    HealthCheck_rpc | SignIn_rpc | CreateProvider_rpc | CreateProviderAuthorization_rpc
  | CompleteProviderAuthorization_rpc | GetProviderAuthorizationStatus_rpc | GetProvider_rpc | GetProvidersList_rpc
  | ReloadProviders_rpc | UpdateProvider_rpc | DeleteProvider_rpc | CreateApiKey_rpc
  | EditApiKey_rpc | DeleteApiKey_rpc | GetApiKeyList_rpc | RecreateApiKey_rpc
  | GetUsageLogs_rpc | GetError_rpc | GetErrors_rpc | GetProviderLogsByKeyID_rpc
  | GetProxies_rpc | UpdateProxy_rpc | Subscribe_rpc | Unsubscribe_rpc
  | ListSubscriptions_rpc | GetPushConfig_rpc | ListNotificationEvents_rpc

text \<open>
  A pattern as the generated code writes it: pairs of an instruction and its operand, and the strings the
  operands refer to.  Of the instructions of the runtime these patterns use 2 (a literal segment), 1 (take
  any segment), 4 (keep it as one value) and 5 (name that value).
\<close>

record pattern =
  pt_ops :: "nat list"
  pt_pool :: "string list"

fun pattern_of :: "rpc \<Rightarrow> pattern" where
  "pattern_of HealthCheck_rpc = \<lparr>pt_ops = [2, 0, 2, 1, 2, 2, 2, 3], pt_pool = [''api'', ''aoyo'', ''v1'', ''healthz'']\<rparr>"
| "pattern_of SignIn_rpc = \<lparr>pt_ops = [2, 0, 2, 1, 2, 2, 2, 3], pt_pool = [''api'', ''aoyo'', ''v1'', ''signin'']\<rparr>"
| "pattern_of CreateProvider_rpc = \<lparr>pt_ops = [2, 0, 2, 1, 2, 2, 2, 3], pt_pool = [''api'', ''aoyo'', ''v1'', ''providers'']\<rparr>"
| "pattern_of CreateProviderAuthorization_rpc = \<lparr>pt_ops = [2, 0, 2, 1, 2, 2, 2, 3, 2, 4], pt_pool = [''api'', ''aoyo'', ''v1'', ''providers'', ''authorize'']\<rparr>"
| "pattern_of CompleteProviderAuthorization_rpc = \<lparr>pt_ops = [2, 0, 2, 1, 2, 2, 2, 3, 2, 4, 2, 5], pt_pool = [''api'', ''aoyo'', ''v1'', ''providers'', ''authorize'', ''complete'']\<rparr>"
| "pattern_of GetProviderAuthorizationStatus_rpc = \<lparr>pt_ops = [2, 0, 2, 1, 2, 2, 2, 3, 2, 4, 1, 0, 4, 1, 5, 5], pt_pool = [''api'', ''aoyo'', ''v1'', ''providers'', ''authorize'', ''state'']\<rparr>"
| "pattern_of GetProvider_rpc = \<lparr>pt_ops = [2, 0, 2, 1, 2, 2, 2, 3, 1, 0, 4, 1, 5, 4], pt_pool = [''api'', ''aoyo'', ''v1'', ''providers'', ''provider_id'']\<rparr>"
| "pattern_of GetProvidersList_rpc = \<lparr>pt_ops = [2, 0, 2, 1, 2, 2, 2, 3], pt_pool = [''api'', ''aoyo'', ''v1'', ''providers'']\<rparr>"
| "pattern_of ReloadProviders_rpc = \<lparr>pt_ops = [2, 0, 2, 1, 2, 2, 2, 3, 2, 4], pt_pool = [''api'', ''aoyo'', ''v1'', ''providers'', ''reload'']\<rparr>"
| "pattern_of UpdateProvider_rpc = \<lparr>pt_ops = [2, 0, 2, 1, 2, 2, 2, 3, 1, 0, 4, 1, 5, 4], pt_pool = [''api'', ''aoyo'', ''v1'', ''providers'', ''provider_id'']\<rparr>"
| "pattern_of DeleteProvider_rpc = \<lparr>pt_ops = [2, 0, 2, 1, 2, 2, 2, 3, 1, 0, 4, 1, 5, 4], pt_pool = [''api'', ''aoyo'', ''v1'', ''providers'', ''provider_id'']\<rparr>"
| "pattern_of CreateApiKey_rpc = \<lparr>pt_ops = [2, 0, 2, 1, 2, 2, 2, 3], pt_pool = [''api'', ''aoyo'', ''v1'', ''api-keys'']\<rparr>"
| "pattern_of EditApiKey_rpc = \<lparr>pt_ops = [2, 0, 2, 1, 2, 2, 2, 3, 1, 0, 4, 1, 5, 4], pt_pool = [''api'', ''aoyo'', ''v1'', ''api-keys'', ''api_key_id'']\<rparr>"
| "pattern_of DeleteApiKey_rpc = \<lparr>pt_ops = [2, 0, 2, 1, 2, 2, 2, 3, 1, 0, 4, 1, 5, 4], pt_pool = [''api'', ''aoyo'', ''v1'', ''api-keys'', ''api_key_id'']\<rparr>"
| "pattern_of GetApiKeyList_rpc = \<lparr>pt_ops = [2, 0, 2, 1, 2, 2, 2, 3], pt_pool = [''api'', ''aoyo'', ''v1'', ''api-keys'']\<rparr>"
| "pattern_of RecreateApiKey_rpc = \<lparr>pt_ops = [2, 0, 2, 1, 2, 2, 2, 3, 1, 0, 4, 1, 5, 4, 2, 5], pt_pool = [''api'', ''aoyo'', ''v1'', ''api-keys'', ''api_key_id'', ''recreate'']\<rparr>"
| "pattern_of GetUsageLogs_rpc = \<lparr>pt_ops = [2, 0, 2, 1, 2, 2, 2, 3], pt_pool = [''api'', ''aoyo'', ''v1'', ''logs'']\<rparr>"
| "pattern_of GetError_rpc = \<lparr>pt_ops = [2, 0, 2, 1, 2, 2, 2, 3, 2, 4, 1, 0, 4, 1, 5, 5], pt_pool = [''api'', ''aoyo'', ''v1'', ''logs'', ''errors'', ''error_id'']\<rparr>"
| "pattern_of GetErrors_rpc = \<lparr>pt_ops = [2, 0, 2, 1, 2, 2, 2, 3, 2, 4], pt_pool = [''api'', ''aoyo'', ''v1'', ''logs'', ''errors'']\<rparr>"
| "pattern_of GetProviderLogsByKeyID_rpc = \<lparr>pt_ops = [2, 0, 2, 1, 2, 2, 2, 3, 1, 0, 4, 1, 5, 4, 2, 5], pt_pool = [''api'', ''aoyo'', ''v1'', ''api-keys'', ''api_key_id'', ''logs'']\<rparr>"
| "pattern_of GetProxies_rpc = \<lparr>pt_ops = [2, 0, 2, 1, 2, 2, 2, 3], pt_pool = [''api'', ''aoyo'', ''v1'', ''proxies'']\<rparr>"
| "pattern_of UpdateProxy_rpc = \<lparr>pt_ops = [2, 0, 2, 1, 2, 2, 2, 3, 1, 0, 4, 1, 5, 4], pt_pool = [''api'', ''aoyo'', ''v1'', ''proxies'', ''proxy_id'']\<rparr>"
| "pattern_of Subscribe_rpc = \<lparr>pt_ops = [2, 0, 2, 1, 2, 2, 2, 3, 2, 4], pt_pool = [''api'', ''aoyo'', ''v1'', ''notifications'', ''subscribe'']\<rparr>"
| "pattern_of Unsubscribe_rpc = \<lparr>pt_ops = [2, 0, 2, 1, 2, 2, 2, 3, 2, 4], pt_pool = [''api'', ''aoyo'', ''v1'', ''notifications'', ''unsubscribe'']\<rparr>"
| "pattern_of ListSubscriptions_rpc = \<lparr>pt_ops = [2, 0, 2, 1, 2, 2, 2, 3, 2, 4], pt_pool = [''api'', ''aoyo'', ''v1'', ''notifications'', ''subscriptions'']\<rparr>"
| "pattern_of GetPushConfig_rpc = \<lparr>pt_ops = [2, 0, 2, 1, 2, 2, 2, 3, 2, 4], pt_pool = [''api'', ''aoyo'', ''v1'', ''notifications'', ''config'']\<rparr>"
| "pattern_of ListNotificationEvents_rpc = \<lparr>pt_ops = [2, 0, 2, 1, 2, 2, 2, 3, 2, 4], pt_pool = [''api'', ''aoyo'', ''v1'', ''notifications'', ''events'']\<rparr>"

datatype segment = Literal string | Variable string

text \<open>The path template a pattern stands for; no value for an instruction sequence of another form.\<close>

fun segmentsOf :: "string list \<Rightarrow> nat list \<Rightarrow> segment list option" where
  "segmentsOf pool [] = Some []"
| "segmentsOf pool (o1 # n1 # rest) =
     (if o1 = 2 \<and> n1 < length pool then map_option (Cons (Literal (pool ! n1))) (segmentsOf pool rest)
      else if o1 = 1 then
        (case rest of
           o2 # n2 # o3 # n3 # rest' \<Rightarrow>
             if o2 = 4 \<and> n2 = 1 \<and> o3 = 5 \<and> n3 < length pool
             then map_option (Cons (Variable (pool ! n3))) (segmentsOf pool rest') else None
         | _ \<Rightarrow> None)
      else None)"
| "segmentsOf pool [_] = None"

definition template :: "rpc \<Rightarrow> segment list option" where
  "template m = segmentsOf (pt_pool (pattern_of m)) (pt_ops (pattern_of m))"

fun matchSegments :: "segment list \<Rightarrow> string list \<Rightarrow> (string \<times> string) list option" where
  "matchSegments [] [] = Some []"
| "matchSegments (Literal l # ts) (s # ss) = (if l = s then matchSegments ts ss else None)"
| "matchSegments (Variable v # ts) (s # ss) = map_option (Cons (v, s)) (matchSegments ts ss)"
| "matchSegments _ _ = None"

definition matchPath :: "rpc \<Rightarrow> string \<Rightarrow> (string \<times> string) list option" where
  "matchPath m path =
     (case (template m, cutPrefix path ''/'') of
        (Some ts, Some rest) \<Rightarrow> matchSegments ts (splitOn (CHR ''/'') rest)
      | _ \<Rightarrow> None)"

section \<open>Decoding a request\<close>

text \<open>
  A message is an object over its field names.  Decoding a body, or a form, and reading a path value as a
  string are the runtime's; an empty body (\<open>EOF\<close>) leaves the message as it is.
\<close>

datatype decoded = Decoded object | DecodedNothing | DecodeError string

record rest_request =
  rr_front :: front_request
  rr_Authorization :: string
  rr_TraceId :: string
  rr_Body :: string
  rr_Override :: string

record gateway_env =
  gw_decode :: "rpc \<Rightarrow> string \<Rightarrow> decoded"
  gw_String :: "string \<Rightarrow> string + string"
  gw_ParseForm :: "rest_request \<Rightarrow> string + (string \<times> string list) list"
  gw_Populate :: "rpc \<Rightarrow> object \<Rightarrow> (string \<times> string list) list \<Rightarrow> string list \<Rightarrow> string + object"
  gw_Annotate :: "rpc \<Rightarrow> rest_request \<Rightarrow> err option"

type_synonym params = "(string \<times> string) list"
type_synonym local_request = "gateway_env \<Rightarrow> rest_request \<times> params \<Rightarrow> err + object"

definition decodeBody :: "gateway_env \<Rightarrow> rpc \<Rightarrow> rest_request \<times> params \<Rightarrow> object \<Rightarrow> err + object" where
  "decodeBody env m r msg =
     (case gw_decode env m (rr_Body (fst r)) of
        DecodeError e \<Rightarrow> Inl (Status InvalidArgument e)
      | DecodedNothing \<Rightarrow> Inr msg
      | Decoded msg' \<Rightarrow> Inr msg')"

definition pathParam :: "gateway_env \<Rightarrow> string \<Rightarrow> rest_request \<times> params \<Rightarrow> object \<Rightarrow> err + object" where
  "pathParam env name r msg =
     (case map_of (snd r) name of
        None \<Rightarrow> Inl (Status InvalidArgument (''missing parameter '' @ name))
      | Some val \<Rightarrow>
         (case gw_String env val of
            Inl e \<Rightarrow> Inl (Status InvalidArgument (''type mismatch, parameter: '' @ name @ '', error: '' @ e))
          | Inr v \<Rightarrow> Inr (setKey name (JStr v) msg)))"

text \<open>\<open>notFromQuery\<close>: the fields a form must not set, because the path has set them.\<close>

definition queryParams :: "gateway_env \<Rightarrow> rpc \<Rightarrow> string list \<Rightarrow> rest_request \<times> params \<Rightarrow> object \<Rightarrow> err + object" where
  "queryParams env m notFromQuery r msg =
     (case gw_ParseForm env (fst r) of
        Inl e \<Rightarrow> Inl (Status InvalidArgument e)
      | Inr form \<Rightarrow>
         (case gw_Populate env m msg form notFromQuery of
            Inl e \<Rightarrow> Inl (Status InvalidArgument e)
          | Inr msg' \<Rightarrow> Inr msg'))"

definition chain2 :: "(object \<Rightarrow> err + object) \<Rightarrow> (object \<Rightarrow> err + object) \<Rightarrow> object \<Rightarrow> err + object" where
  "chain2 f g msg = (case f msg of Inl e \<Rightarrow> Inl e | Inr msg' \<Rightarrow> g msg')"

definition local_request_HealthCheck :: local_request where
  "local_request_HealthCheck env r = Inr []"

definition local_request_SignIn :: local_request where
  "local_request_SignIn env r = decodeBody env SignIn_rpc r []"

definition local_request_CreateProvider :: local_request where
  "local_request_CreateProvider env r = decodeBody env CreateProvider_rpc r []"

definition local_request_CreateProviderAuthorization :: local_request where
  "local_request_CreateProviderAuthorization env r = decodeBody env CreateProviderAuthorization_rpc r []"

definition local_request_CompleteProviderAuthorization :: local_request where
  "local_request_CompleteProviderAuthorization env r = decodeBody env CompleteProviderAuthorization_rpc r []"

definition local_request_GetProviderAuthorizationStatus :: local_request where
  "local_request_GetProviderAuthorizationStatus env r = chain2 (pathParam env ''state'' r) (queryParams env GetProviderAuthorizationStatus_rpc [''state''] r) []"

definition local_request_GetProvider :: local_request where
  "local_request_GetProvider env r = pathParam env ''provider_id'' r []"

definition local_request_GetProvidersList :: local_request where
  "local_request_GetProvidersList env r = Inr []"

definition local_request_ReloadProviders :: local_request where
  "local_request_ReloadProviders env r = decodeBody env ReloadProviders_rpc r []"

definition local_request_UpdateProvider :: local_request where
  "local_request_UpdateProvider env r = chain2 (decodeBody env UpdateProvider_rpc r) (pathParam env ''provider_id'' r) []"

definition local_request_DeleteProvider :: local_request where
  "local_request_DeleteProvider env r = pathParam env ''provider_id'' r []"

definition local_request_CreateApiKey :: local_request where
  "local_request_CreateApiKey env r = decodeBody env CreateApiKey_rpc r []"

definition local_request_EditApiKey :: local_request where
  "local_request_EditApiKey env r = chain2 (decodeBody env EditApiKey_rpc r) (pathParam env ''api_key_id'' r) []"

definition local_request_DeleteApiKey :: local_request where
  "local_request_DeleteApiKey env r = pathParam env ''api_key_id'' r []"

definition local_request_GetApiKeyList :: local_request where
  "local_request_GetApiKeyList env r = Inr []"

definition local_request_RecreateApiKey :: local_request where
  "local_request_RecreateApiKey env r = chain2 (decodeBody env RecreateApiKey_rpc r) (pathParam env ''api_key_id'' r) []"

definition local_request_GetUsageLogs :: local_request where
  "local_request_GetUsageLogs env r = queryParams env GetUsageLogs_rpc [] r []"

definition local_request_GetError :: local_request where
  "local_request_GetError env r = pathParam env ''error_id'' r []"

definition local_request_GetErrors :: local_request where
  "local_request_GetErrors env r = queryParams env GetErrors_rpc [] r []"

definition local_request_GetProviderLogsByKeyID :: local_request where
  "local_request_GetProviderLogsByKeyID env r = pathParam env ''api_key_id'' r []"

definition local_request_GetProxies :: local_request where
  "local_request_GetProxies env r = Inr []"

definition local_request_UpdateProxy :: local_request where
  "local_request_UpdateProxy env r = chain2 (decodeBody env UpdateProxy_rpc r) (pathParam env ''proxy_id'' r) []"

definition local_request_Subscribe :: local_request where
  "local_request_Subscribe env r = decodeBody env Subscribe_rpc r []"

definition local_request_Unsubscribe :: local_request where
  "local_request_Unsubscribe env r = decodeBody env Unsubscribe_rpc r []"

definition local_request_ListSubscriptions :: local_request where
  "local_request_ListSubscriptions env r = queryParams env ListSubscriptions_rpc [] r []"

definition local_request_GetPushConfig :: local_request where
  "local_request_GetPushConfig env r = Inr []"

definition local_request_ListNotificationEvents :: local_request where
  "local_request_ListNotificationEvents env r = queryParams env ListNotificationEvents_rpc [] r []"

fun local_request_of :: "rpc \<Rightarrow> local_request" where
  "local_request_of HealthCheck_rpc = local_request_HealthCheck"
| "local_request_of SignIn_rpc = local_request_SignIn"
| "local_request_of CreateProvider_rpc = local_request_CreateProvider"
| "local_request_of CreateProviderAuthorization_rpc = local_request_CreateProviderAuthorization"
| "local_request_of CompleteProviderAuthorization_rpc = local_request_CompleteProviderAuthorization"
| "local_request_of GetProviderAuthorizationStatus_rpc = local_request_GetProviderAuthorizationStatus"
| "local_request_of GetProvider_rpc = local_request_GetProvider"
| "local_request_of GetProvidersList_rpc = local_request_GetProvidersList"
| "local_request_of ReloadProviders_rpc = local_request_ReloadProviders"
| "local_request_of UpdateProvider_rpc = local_request_UpdateProvider"
| "local_request_of DeleteProvider_rpc = local_request_DeleteProvider"
| "local_request_of CreateApiKey_rpc = local_request_CreateApiKey"
| "local_request_of EditApiKey_rpc = local_request_EditApiKey"
| "local_request_of DeleteApiKey_rpc = local_request_DeleteApiKey"
| "local_request_of GetApiKeyList_rpc = local_request_GetApiKeyList"
| "local_request_of RecreateApiKey_rpc = local_request_RecreateApiKey"
| "local_request_of GetUsageLogs_rpc = local_request_GetUsageLogs"
| "local_request_of GetError_rpc = local_request_GetError"
| "local_request_of GetErrors_rpc = local_request_GetErrors"
| "local_request_of GetProviderLogsByKeyID_rpc = local_request_GetProviderLogsByKeyID"
| "local_request_of GetProxies_rpc = local_request_GetProxies"
| "local_request_of UpdateProxy_rpc = local_request_UpdateProxy"
| "local_request_of Subscribe_rpc = local_request_Subscribe"
| "local_request_of Unsubscribe_rpc = local_request_Unsubscribe"
| "local_request_of ListSubscriptions_rpc = local_request_ListSubscriptions"
| "local_request_of GetPushConfig_rpc = local_request_GetPushConfig"
| "local_request_of ListNotificationEvents_rpc = local_request_ListNotificationEvents"

section \<open>Handlers\<close>

text \<open>
  What a request carries in its context: the repository, the key, and the logger (a nil logger is
  \<open>Some None\<close>, otherwise its attributes).  A handler works on the database, the lines logged so far and
  the state of the service.
\<close>

type_synonym logger = "(string \<times> string) list"

record rest_ctx =
  cx_UserRepo :: bool
  cx_ApiKey :: "ApiKey option"
  cx_Logger :: "logger option option"

definition emptyCtx :: rest_ctx where
  "emptyCtx = \<lparr>cx_UserRepo = False, cx_ApiKey = None, cx_Logger = None\<rparr>"

record 'x rest_sys =
  rs_db :: db
  rs_log :: "(logger \<times> string) list"
  rs_state :: 'x

datatype 'r rest_reply = HttpError int string | RpcError err | Forwarded 'r | Panicked

type_synonym ('x, 'r) HandlerFunc = "rest_request \<Rightarrow> params \<Rightarrow> rest_ctx \<Rightarrow> 'x rest_sys \<Rightarrow> 'r rest_reply \<times> 'x rest_sys"
type_synonym ('x, 'r) middleware = "('x, 'r) HandlerFunc \<Rightarrow> ('x, 'r) HandlerFunc"
type_synonym ('x, 'r) service_calls = "rpc \<Rightarrow> rest_ctx \<Rightarrow> object \<Rightarrow> 'x rest_sys \<Rightarrow> (err + 'r) \<times> 'x rest_sys"

text \<open>The function registered for a method of the service; it is the same for all of them.\<close>

definition rpcHandler :: "gateway_env \<Rightarrow> ('x, 'r) service_calls \<Rightarrow> rpc \<Rightarrow> ('x, 'r) HandlerFunc" where
  "rpcHandler env server m req pathParams ctx s =
     (case gw_Annotate env m req of
        Some e \<Rightarrow> (RpcError e, s)
      | None \<Rightarrow>
         (case local_request_of m env (req, pathParams) of
            Inl e \<Rightarrow> (RpcError e, s)
          | Inr msg \<Rightarrow>
             (case server m ctx msg s of
                (Inl e, s) \<Rightarrow> (RpcError e, s)
              | (Inr resp, s) \<Rightarrow> (Forwarded resp, s))))"

record route =
  rt_method :: string
  rt_rpc :: rpc
  rt_path :: string

definition RegisterAoyoRouterServiceHandlerServer :: "route list" where
  "RegisterAoyoRouterServiceHandlerServer =
    [\<lparr>rt_method = ''GET'', rt_rpc = HealthCheck_rpc, rt_path = ''/api/aoyo/v1/healthz''\<rparr>,
     \<lparr>rt_method = ''POST'', rt_rpc = SignIn_rpc, rt_path = ''/api/aoyo/v1/signin''\<rparr>,
     \<lparr>rt_method = ''POST'', rt_rpc = CreateProvider_rpc, rt_path = ''/api/aoyo/v1/providers''\<rparr>,
     \<lparr>rt_method = ''POST'', rt_rpc = CreateProviderAuthorization_rpc, rt_path = ''/api/aoyo/v1/providers/authorize''\<rparr>,
     \<lparr>rt_method = ''POST'', rt_rpc = CompleteProviderAuthorization_rpc, rt_path = ''/api/aoyo/v1/providers/authorize/complete''\<rparr>,
     \<lparr>rt_method = ''GET'', rt_rpc = GetProviderAuthorizationStatus_rpc, rt_path = ''/api/aoyo/v1/providers/authorize/{state}''\<rparr>,
     \<lparr>rt_method = ''GET'', rt_rpc = GetProvider_rpc, rt_path = ''/api/aoyo/v1/providers/{provider_id}''\<rparr>,
     \<lparr>rt_method = ''GET'', rt_rpc = GetProvidersList_rpc, rt_path = ''/api/aoyo/v1/providers''\<rparr>,
     \<lparr>rt_method = ''POST'', rt_rpc = ReloadProviders_rpc, rt_path = ''/api/aoyo/v1/providers/reload''\<rparr>,
     \<lparr>rt_method = ''PATCH'', rt_rpc = UpdateProvider_rpc, rt_path = ''/api/aoyo/v1/providers/{provider_id}''\<rparr>,
     \<lparr>rt_method = ''DELETE'', rt_rpc = DeleteProvider_rpc, rt_path = ''/api/aoyo/v1/providers/{provider_id}''\<rparr>,
     \<lparr>rt_method = ''POST'', rt_rpc = CreateApiKey_rpc, rt_path = ''/api/aoyo/v1/api-keys''\<rparr>,
     \<lparr>rt_method = ''PATCH'', rt_rpc = EditApiKey_rpc, rt_path = ''/api/aoyo/v1/api-keys/{api_key_id}''\<rparr>,
     \<lparr>rt_method = ''DELETE'', rt_rpc = DeleteApiKey_rpc, rt_path = ''/api/aoyo/v1/api-keys/{api_key_id}''\<rparr>,
     \<lparr>rt_method = ''GET'', rt_rpc = GetApiKeyList_rpc, rt_path = ''/api/aoyo/v1/api-keys''\<rparr>,
     \<lparr>rt_method = ''POST'', rt_rpc = RecreateApiKey_rpc, rt_path = ''/api/aoyo/v1/api-keys/{api_key_id}/recreate''\<rparr>,
     \<lparr>rt_method = ''GET'', rt_rpc = GetUsageLogs_rpc, rt_path = ''/api/aoyo/v1/logs''\<rparr>,
     \<lparr>rt_method = ''GET'', rt_rpc = GetError_rpc, rt_path = ''/api/aoyo/v1/logs/errors/{error_id}''\<rparr>,
     \<lparr>rt_method = ''GET'', rt_rpc = GetErrors_rpc, rt_path = ''/api/aoyo/v1/logs/errors''\<rparr>,
     \<lparr>rt_method = ''GET'', rt_rpc = GetProviderLogsByKeyID_rpc, rt_path = ''/api/aoyo/v1/api-keys/{api_key_id}/logs''\<rparr>,
     \<lparr>rt_method = ''GET'', rt_rpc = GetProxies_rpc, rt_path = ''/api/aoyo/v1/proxies''\<rparr>,
     \<lparr>rt_method = ''PATCH'', rt_rpc = UpdateProxy_rpc, rt_path = ''/api/aoyo/v1/proxies/{proxy_id}''\<rparr>,
     \<lparr>rt_method = ''POST'', rt_rpc = Subscribe_rpc, rt_path = ''/api/aoyo/v1/notifications/subscribe''\<rparr>,
     \<lparr>rt_method = ''POST'', rt_rpc = Unsubscribe_rpc, rt_path = ''/api/aoyo/v1/notifications/unsubscribe''\<rparr>,
     \<lparr>rt_method = ''GET'', rt_rpc = ListSubscriptions_rpc, rt_path = ''/api/aoyo/v1/notifications/subscriptions''\<rparr>,
     \<lparr>rt_method = ''GET'', rt_rpc = GetPushConfig_rpc, rt_path = ''/api/aoyo/v1/notifications/config''\<rparr>,
     \<lparr>rt_method = ''GET'', rt_rpc = ListNotificationEvents_rpc, rt_path = ''/api/aoyo/v1/notifications/events''\<rparr>]"

section \<open>Middlewares\<close>

definition InitLogger :: "string \<Rightarrow> logger option" where
  "InitLogger env = (if env \<in> set [''local'', ''dev'', ''prod''] then Some [] else None)"

definition SetLoggerToCtx :: "logger option \<Rightarrow> rest_ctx \<Rightarrow> rest_ctx" where
  "SetLoggerToCtx log ctx = ctx\<lparr>cx_Logger := Some log\<rparr>"

text \<open>The assertion fails where no logger was set; no result stands for the panic.\<close>

definition GetLoggerFromCtx :: "rest_ctx \<Rightarrow> logger option option" where
  "GetLoggerFromCtx ctx = cx_Logger ctx"

definition UserRepoToCtxInterceptor :: "('x, 'r) middleware" where
  "UserRepoToCtxInterceptor k req ps ctx s = k req ps (ctx\<lparr>cx_UserRepo := True\<rparr>) s"

definition AuthMiddleware :: "bool \<Rightarrow> string \<Rightarrow> ('x, 'r) middleware" where
  "AuthMiddleware isAdmin initialPassword k req ps ctx s =
     (case AuthInterceptor isAdmin (cx_UserRepo ctx) initialPassword (rr_Authorization req) (rs_db s) of
        (HTTPError code text, d) \<Rightarrow> (HttpError code text, s\<lparr>rs_db := d\<rparr>)
      | (Next key, d) \<Rightarrow> k req ps (ctx\<lparr>cx_ApiKey := Some key\<rparr>) (s\<lparr>rs_db := d\<rparr>))"

definition LoggerToCtxInterceptor :: "logger option \<Rightarrow> ('x, 'r) middleware" where
  "LoggerToCtxInterceptor log k req ps ctx s = k req ps (SetLoggerToCtx log ctx) s"

definition RequestIDInterceptor :: "string \<Rightarrow> ('x, 'r) middleware" where
  "RequestIDInterceptor newID k req ps ctx s =
     (let requestID = (if rr_TraceId req = [] then newID else rr_TraceId req) in
      case GetLoggerFromCtx ctx of
        Some (Some log) \<Rightarrow> k req ps (SetLoggerToCtx (Some (log @ [(''trace_id'', requestID)])) ctx) s
      | _ \<Rightarrow> (Panicked, s))"

text \<open>The second line is deferred after the call, so a panic in the handler leaves it out.\<close>

definition LoggerInterceptor :: "('x, 'r) middleware" where
  "LoggerInterceptor k req ps ctx s =
     (if contains (fr_Path (rr_front req)) ''healthz'' then k req ps ctx s
      else
        case GetLoggerFromCtx ctx of
          Some (Some log) \<Rightarrow>
           (let (reply, s) = k req ps ctx (s\<lparr>rs_log := rs_log s @ [(log, ''get request'')]\<rparr>)
            in (reply, if reply = Panicked then s else s\<lparr>rs_log := rs_log s @ [(log, ''request completed'')]\<rparr>))
        | _ \<Rightarrow> (Panicked, s))"

text \<open>
  \<open>restServer\<close> of \<open>initHttpServer\<close>.  The runtime's multiplexer chooses a registered route for a request and
  the values of its path parameters, or answers itself; \<open>chain\<close> is how it wraps a handler in middlewares.
\<close>

record ('x, 'r) rest_env =
  re_gateway :: gateway_env
  re_mux :: "route list \<Rightarrow> rest_request \<Rightarrow> (int \<times> string) + (route \<times> params)"
  re_chain :: "('x, 'r) middleware list \<Rightarrow> ('x, 'r) HandlerFunc \<Rightarrow> ('x, 'r) HandlerFunc"
  re_logger :: "logger option"
  re_initialPassword :: string
  re_newID :: string

definition restServer :: "('x, 'r) rest_env \<Rightarrow> ('x, 'r) service_calls \<Rightarrow> rest_request \<Rightarrow> 'x rest_sys \<Rightarrow> 'r rest_reply \<times> 'x rest_sys" where
  "restServer env server req s =
     (case re_mux env RegisterAoyoRouterServiceHandlerServer req of
        Inl (code, text) \<Rightarrow> (HttpError code text, s)
      | Inr (r, ps) \<Rightarrow>
          re_chain env
            [UserRepoToCtxInterceptor, AuthMiddleware False (re_initialPassword env), LoggerToCtxInterceptor (re_logger env),
             RequestIDInterceptor (re_newID env), LoggerInterceptor]
            (rpcHandler (re_gateway env) server (rt_rpc r)) req ps emptyCtx s)"

section \<open>The routes do not overlap\<close>

abbreviation routes :: "route list" where
  "routes \<equiv> RegisterAoyoRouterServiceHandlerServer"

text \<open>The template of a path as the service description writes it, variables in braces.\<close>

definition segmentOf :: "string \<Rightarrow> segment" where
  "segmentOf s = (if hasPrefix s ''{'' then Variable (butlast (tl s)) else Literal s)"

lemma templates_agree:
  "list_all (\<lambda>r. template (rt_rpc r) = Some (map segmentOf (splitOn (CHR ''/'') (tl (rt_path r))))) routes"
  by code_simp

lemma every_method_registered: "distinct (map rt_rpc routes)" "m \<in> set (map rt_rpc routes)"
proof -
  show "distinct (map rt_rpc routes)" by code_simp
  show "m \<in> set (map rt_rpc routes)" by (cases m) (simp_all add: RegisterAoyoRouterServiceHandlerServer_def)
qed

lemma template_defined: "template m \<noteq> None"
  using templates_agree every_method_registered(2) [of m] by (auto simp: list_all_iff)

text \<open>Two templates that no path can match both: of different length, or with different literals somewhere.\<close>

fun apart :: "segment list \<Rightarrow> segment list \<Rightarrow> bool" where
  "apart [] [] = False"
| "apart (Literal a # ts) (Literal b # us) = (a \<noteq> b \<or> apart ts us)"
| "apart (_ # ts) (_ # us) = apart ts us"
| "apart _ _ = True"

fun variables :: "segment list \<Rightarrow> string list" where
  "variables [] = []"
| "variables (Literal _ # ts) = variables ts"
| "variables (Variable v # ts) = v # variables ts"

lemma match_Nil: "matchSegments ts [] = Some ps \<Longrightarrow> ts = []"
  by (cases ts rule: variables.cases) simp_all

lemma match_Cons:
  "matchSegments ts (s # ss) = Some ps \<Longrightarrow> \<exists>t ts' ps'. ts = t # ts' \<and> matchSegments ts' ss = Some ps' \<and> (\<forall>l. t = Literal l \<longrightarrow> l = s)"
  by (cases ts rule: variables.cases) (auto split: if_splits)

lemma apart_Cons: "apart (t # ts) (u # us) \<Longrightarrow> apart ts us \<or> (\<exists>a b. t = Literal a \<and> u = Literal b \<and> a \<noteq> b)"
  by (cases t; cases u) auto

lemma common_path_not_apart: "matchSegments ts ss = Some ps \<Longrightarrow> matchSegments us ss = Some qs \<Longrightarrow> \<not> apart ts us"
proof (induction ss arbitrary: ts us ps qs)
  case Nil
  then show ?case by (auto dest!: match_Nil)
next
  case (Cons s ss)
  then show ?case using match_Cons [OF Cons.prems(1)] match_Cons [OF Cons.prems(2)] by (auto dest!: apart_Cons)
qed

lemma routes_apart:
  "list_all (\<lambda>r. list_all (\<lambda>r'. rt_rpc r = rt_rpc r' \<or> rt_method r \<noteq> rt_method r' \<or>
     apart (the (template (rt_rpc r))) (the (template (rt_rpc r')))) routes) routes"
  by code_simp

text \<open>What a multiplexer relies on: no two routes of one HTTP method have a path in common.\<close>

locale route_table =
  fixes table :: "'r list" and verb :: "'r \<Rightarrow> string" and shape :: "'r \<Rightarrow> segment list"
  assumes routes_disjoint:
    "r \<in> set table \<Longrightarrow> r' \<in> set table \<Longrightarrow> verb r = verb r' \<Longrightarrow> r \<noteq> r' \<Longrightarrow> apart (shape r) (shape r')"
begin

lemma same_route:
  assumes "r \<in> set table" "r' \<in> set table" "verb r = verb r'"
    and "matchSegments (shape r) ss = Some ps" "matchSegments (shape r') ss = Some qs"
  shows "r = r'"
  using routes_disjoint [OF assms(1-3)] common_path_not_apart [OF assms(4,5)] by blast

text \<open>So the order in which the routes of a method are tried does not matter.\<close>

lemma order_irrelevant:
  assumes "mset table' = mset table"
  shows "find (\<lambda>r. verb r = v \<and> matchSegments (shape r) ss \<noteq> None) table' =
    find (\<lambda>r. verb r = v \<and> matchSegments (shape r) ss \<noteq> None) table"
    (is "find ?P table' = find ?P table")
proof (cases "find ?P table")
  case None
  then have "find ?P table' = None" using mset_eq_setD [OF assms] by (auto simp: find_None_iff)
  with None show ?thesis by simp
next
  case (Some r)
  then have r: "r \<in> set table" "?P r" by (auto simp: find_Some_iff)
  have "find ?P table' \<noteq> None" using r mset_eq_setD [OF assms] by (auto simp: find_None_iff)
  then obtain r' where r': "find ?P table' = Some r'" by blast
  then have "r' \<in> set table" "?P r'" using mset_eq_setD [OF assms] by (auto simp: find_Some_iff)
  then show ?thesis using same_route [OF r(1), of r' ss] r Some r' by auto
qed

end

interpretation rest_routes: route_table RegisterAoyoRouterServiceHandlerServer rt_method "\<lambda>r. the (template (rt_rpc r))"
proof
  fix r r'
  assume "r \<in> set routes" "r' \<in> set routes" "rt_method r = rt_method r'" "r \<noteq> r'"
  moreover from this have "rt_rpc r \<noteq> rt_rpc r'" using every_method_registered(1) by (metis distinct_map inj_on_def)
  ultimately show "apart (the (template (rt_rpc r))) (the (template (rt_rpc r')))"
    using routes_apart by (auto simp: list_all_iff)
qed

lemma route_unique:
  assumes "r \<in> set routes" "r' \<in> set routes" "rt_method r = rt_method r'"
    and "matchPath (rt_rpc r) path \<noteq> None" "matchPath (rt_rpc r') path \<noteq> None"
  shows "r = r'"
proof -
  obtain rest where "cutPrefix path ''/'' = Some rest" using assms(4) by (auto simp: matchPath_def split: option.splits)
  then obtain ps qs where "matchSegments (the (template (rt_rpc r))) (splitOn (CHR ''/'') rest) = Some ps"
      "matchSegments (the (template (rt_rpc r'))) (splitOn (CHR ''/'') rest) = Some qs"
    using assms(4,5) by (auto simp: matchPath_def split: option.splits)
  then show ?thesis by (rule rest_routes.same_route [OF assms(1-3)])
qed

section \<open>Path parameters\<close>

lemma match_variables: "matchSegments ts ss = Some ps \<Longrightarrow> map fst ps = variables ts"
  by (induction ts ss arbitrary: ps rule: matchSegments.induct) (auto split: if_splits)

text \<open>The parameter a method takes from its path.\<close>

fun pathField :: "rpc \<Rightarrow> string list" where
  "pathField GetProviderAuthorizationStatus_rpc = [''state'']"
| "pathField GetProvider_rpc = [''provider_id'']"
| "pathField UpdateProvider_rpc = [''provider_id'']"
| "pathField DeleteProvider_rpc = [''provider_id'']"
| "pathField EditApiKey_rpc = [''api_key_id'']"
| "pathField DeleteApiKey_rpc = [''api_key_id'']"
| "pathField RecreateApiKey_rpc = [''api_key_id'']"
| "pathField GetProviderLogsByKeyID_rpc = [''api_key_id'']"
| "pathField GetError_rpc = [''error_id'']"
| "pathField UpdateProxy_rpc = [''proxy_id'']"
| "pathField _ = []"

lemma template_variables: "variables (the (template m)) = pathField m"
  by (cases m) (simp_all add: template_def eval_nat_numeral)

lemma matchPath_fields:
  assumes "matchPath m path = Some ps"
  shows "map fst ps = pathField m"
proof -
  obtain rest where "matchSegments (the (template m)) (splitOn (CHR ''/'') rest) = Some ps"
    using assms by (auto simp: matchPath_def split: option.splits)
  then show ?thesis using match_variables template_variables by metis
qed

text \<open>What the runtime documents: a string parameter is the text itself, and a form sets no filtered field.\<close>

definition decodersOK :: "gateway_env \<Rightarrow> bool" where
  "decodersOK env \<longleftrightarrow> (\<forall>v. gw_String env v = Inr v) \<and>
     (\<forall>m msg form names msg' f. gw_Populate env m msg form names = Inr msg' \<longrightarrow> f \<in> set names \<longrightarrow> map_of msg' f = map_of msg f)"

lemmas decoder_defs = local_request_HealthCheck_def local_request_SignIn_def local_request_CreateProvider_def local_request_CreateProviderAuthorization_def local_request_CompleteProviderAuthorization_def local_request_GetProviderAuthorizationStatus_def local_request_GetProvider_def local_request_GetProvidersList_def local_request_ReloadProviders_def local_request_UpdateProvider_def local_request_DeleteProvider_def local_request_CreateApiKey_def local_request_EditApiKey_def local_request_DeleteApiKey_def local_request_GetApiKeyList_def local_request_RecreateApiKey_def local_request_GetUsageLogs_def local_request_GetError_def local_request_GetErrors_def local_request_GetProviderLogsByKeyID_def local_request_GetProxies_def local_request_UpdateProxy_def local_request_Subscribe_def local_request_Unsubscribe_def local_request_ListSubscriptions_def local_request_GetPushConfig_def local_request_ListNotificationEvents_def

lemma pathParam_sets:
  "gw_String env = Inr \<Longrightarrow> pathParam env name (req, ps) msg = Inr msg' \<Longrightarrow> map_of msg' name = map_option JStr (map_of ps name)"
  by (auto simp: pathParam_def split: option.splits)

lemma chain2_Inr: "chain2 f g msg = Inr msg' \<Longrightarrow> \<exists>m. f msg = Inr m \<and> g m = Inr msg'"
  by (auto simp: chain2_def split: sum.splits)

lemma path_wins:
  assumes "decodersOK env" "local_request_of m env (req, ps) = Inr msg" "v \<in> set (pathField m)"
  shows "map_of msg v = map_option JStr (map_of ps v)"
proof -
  have id: "gw_String env = Inr" using assms(1) by (auto simp: decodersOK_def)
  have query: "map_of msg'' f = map_of msg' f"
    if "queryParams env k names (req, ps) msg' = Inr msg''" "f \<in> set names" for k names msg' msg'' f
    using that assms(1) by (auto simp: queryParams_def decodersOK_def split: sum.splits)
  show ?thesis
    using assms(2,3) by (cases m) (auto simp: decoder_defs query dest!: chain2_Inr pathParam_sets [OF id])
qed

section \<open>From a request to the service\<close>

text \<open>
  What the gateway runtime documents: middlewares wrap a handler in their order, the first outermost; the
  multiplexer chooses a registered route whose pattern matches the path and, unless the request overrides
  its method, that is registered for this method.
\<close>

definition runtimeOK :: "('x, 'r) rest_env \<Rightarrow> bool" where
  "runtimeOK env \<longleftrightarrow> decodersOK (re_gateway env) \<and> (\<forall>ms k. re_chain env ms k = foldr (\<lambda>m k. m k) ms k) \<and>
     (\<forall>rs req r ps. re_mux env rs req = Inr (r, ps) \<longrightarrow>
        r \<in> set rs \<and> matchPath (rt_rpc r) (fr_Path (rr_front req)) = Some ps \<and>
        (rr_Override req = [] \<longrightarrow> rt_method r = fr_Method (rr_front req)))"

text \<open>A service that records the calls it gets.\<close>

definition recorder :: "(rpc \<Rightarrow> rest_ctx \<Rightarrow> object \<Rightarrow> err + 'r) \<Rightarrow> ((rpc \<times> rest_ctx \<times> object) list, 'r) service_calls" where
  "recorder answer m ctx msg s = (answer m ctx msg, s\<lparr>rs_state := rs_state s @ [(m, ctx, msg)]\<rparr>)"

definition traced :: "('x, 'r) rest_env \<Rightarrow> logger \<Rightarrow> rest_request \<Rightarrow> logger" where
  "traced env log req = log @ [(''trace_id'', if rr_TraceId req = [] then re_newID env else rr_TraceId req)]"

lemmas middleware_defs = UserRepoToCtxInterceptor_def AuthMiddleware_def LoggerToCtxInterceptor_def RequestIDInterceptor_def
  LoggerInterceptor_def SetLoggerToCtx_def GetLoggerFromCtx_def

text \<open>The context a handler of the service runs in.\<close>

definition handlerCtx :: "ApiKey \<Rightarrow> logger \<Rightarrow> rest_ctx" where
  "handlerCtx key log = \<lparr>cx_UserRepo = True, cx_ApiKey = Some key, cx_Logger = Some (Some log)\<rparr>"

text \<open>The chain of middlewares as one case distinction.\<close>

lemma restServer_chain:
  assumes "runtimeOK env" "re_logger env = Some log" "re_mux env routes req = Inr (r, ps)"
  shows "restServer env server req s =
    (case AuthInterceptor False True (re_initialPassword env) (rr_Authorization req) (rs_db s) of
       (HTTPError code text, d) \<Rightarrow> (HttpError code text, s\<lparr>rs_db := d\<rparr>)
     | (Next key, d) \<Rightarrow> LoggerInterceptor (rpcHandler (re_gateway env) server (rt_rpc r)) req ps
         (handlerCtx key (traced env log req)) (s\<lparr>rs_db := d\<rparr>))"
  using assms
  by (simp add: restServer_def runtimeOK_def UserRepoToCtxInterceptor_def AuthMiddleware_def LoggerToCtxInterceptor_def
      RequestIDInterceptor_def SetLoggerToCtx_def GetLoggerFromCtx_def emptyCtx_def handlerCtx_def traced_def Let_def
      split: prod.split auth_outcome.split)

text \<open>
  An environment other than \<open>local\<close>, \<open>dev\<close> and \<open>prod\<close> has no logger, and every authorized request panics.
\<close>

lemma unknown_environment_panics:
  assumes "runtimeOK env" "re_logger env = InitLogger environment" "environment \<notin> {''local'', ''dev'', ''prod''}"
    and "re_mux env routes req = Inr (r, ps)"
    and "AuthInterceptor False True (re_initialPassword env) (rr_Authorization req) (rs_db s) = (Next key, d)"
  shows "restServer env server req s = (Panicked, s\<lparr>rs_db := d\<rparr>)"
  using assms
  by (simp add: restServer_def runtimeOK_def UserRepoToCtxInterceptor_def AuthMiddleware_def LoggerToCtxInterceptor_def
      RequestIDInterceptor_def SetLoggerToCtx_def GetLoggerFromCtx_def emptyCtx_def InitLogger_def)

text \<open>What a registered handler does with the recording service.\<close>

lemma rpcHandler_records:
  assumes "rpcHandler env (recorder answer) m req ps ctx s = (reply, s')"
  shows "(\<exists>e. reply = RpcError e) \<and> s' = s \<or>
    (\<exists>msg. local_request_of m env (req, ps) = Inr msg \<and> s' = s\<lparr>rs_state := rs_state s @ [(m, ctx, msg)]\<rparr> \<and>
      reply = (case answer m ctx msg of Inl e \<Rightarrow> RpcError e | Inr x \<Rightarrow> Forwarded x))"
  using assms by (auto simp: rpcHandler_def recorder_def split: option.splits sum.splits)

lemma LoggerInterceptor_records:
  assumes "LoggerInterceptor (rpcHandler env (recorder answer) m) req ps (handlerCtx key log) s = (reply, s')"
  shows "(\<exists>e. reply = RpcError e) \<and> rs_state s' = rs_state s \<or>
    (\<exists>msg. local_request_of m env (req, ps) = Inr msg \<and> rs_state s' = rs_state s @ [(m, handlerCtx key log, msg)] \<and>
      reply = (case answer m (handlerCtx key log) msg of Inl e \<Rightarrow> RpcError e | Inr x \<Rightarrow> Forwarded x))"
    and "rs_log s' = rs_log s @ (if contains (fr_Path (rr_front req)) ''healthz'' then []
      else [(log, ''get request''), (log, ''request completed'')])"
    and "rs_db s' = rs_db s"
  using assms
  by (auto simp: LoggerInterceptor_def GetLoggerFromCtx_def handlerCtx_def Let_def
      dest!: rpcHandler_records split: if_splits prod.splits sum.splits)


definition sample_rest_env :: "((rpc \<times> rest_ctx \<times> object) list, string) rest_env" where
  "sample_rest_env =
     \<lparr>re_gateway = \<lparr>gw_decode = \<lambda>_ _. DecodedNothing, gw_String = Inr, gw_ParseForm = \<lambda>_. Inr [],
        gw_Populate = \<lambda>_ msg _ _. Inr msg, gw_Annotate = \<lambda>_ _. None\<rparr>,
      re_mux = \<lambda>rs req.
        (case find (\<lambda>r. rt_method r = fr_Method (rr_front req) \<and> matchPath (rt_rpc r) (fr_Path (rr_front req)) \<noteq> None) rs of
           None \<Rightarrow> Inl (404, ''Not Found'')
         | Some r \<Rightarrow> Inr (r, the (matchPath (rt_rpc r) (fr_Path (rr_front req))))),
      re_chain = foldr (\<lambda>m k. m k), re_logger = InitLogger ''prod'', re_initialPassword = ''master'', re_newID = ''t1''\<rparr>"

lemma sample_runtimeOK: "runtimeOK sample_rest_env"
  by (auto simp: runtimeOK_def sample_rest_env_def decodersOK_def find_Some_iff split: option.splits)

definition delete_request :: rest_request where
  "delete_request = \<lparr>rr_front = \<lparr>fr_Method = ''DELETE'', fr_Path = ''/api/aoyo/v1/api-keys/k7'', fr_Origin = [], fr_RequestHeaders = []\<rparr>,
     rr_Authorization = ''Bearer sk-1'', rr_TraceId = [], rr_Body = [], rr_Override = []\<rparr>"

lemma delete_mux: "re_mux sample_rest_env routes delete_request =
  Inr (\<lparr>rt_method = ''DELETE'', rt_rpc = DeleteApiKey_rpc, rt_path = ''/api/aoyo/v1/api-keys/{api_key_id}''\<rparr>, [(''api_key_id'', ''k7'')])"
  by code_simp


section \<open>Paths of the methods\<close>

fun fill :: "segment list \<Rightarrow> string list \<Rightarrow> string list" where
  "fill [] xs = []"
| "fill (Literal l # ts) xs = l # fill ts xs"
| "fill (Variable v # ts) (x # xs) = x # fill ts xs"
| "fill (Variable v # ts) [] = []"

text \<open>The path a client writes for a method with the given values of its path parameters.\<close>

definition pathFor :: "rpc \<Rightarrow> string list \<Rightarrow> string" where
  "pathFor m xs = ''/'' @ join ''/'' (fill (the (template m)) xs)"

lemma match_fill: "length xs = length (variables ts) \<Longrightarrow> matchSegments ts (fill ts xs) = Some (zip (variables ts) xs)"
  by (induction ts xs rule: fill.induct) auto

lemma splitOn_append: "sep \<notin> set w \<Longrightarrow> splitOn sep (w @ sep # s) = w # splitOn sep s"
  by (induction w) auto

lemma splitOn_join: "ws \<noteq> [] \<Longrightarrow> \<forall>w \<in> set ws. sep \<notin> set w \<Longrightarrow> splitOn sep (join [sep] ws) = ws"
proof (induction ws)
  case (Cons w ws)
  then show ?case by (cases ws) (auto simp: splitOn_single splitOn_append)
qed simp

lemma set_fill: "set (fill ts xs) \<subseteq> {l. Literal l \<in> set ts} \<union> set xs"
  by (induction ts xs rule: fill.induct) auto

lemma template_plain: "Literal l \<in> set (the (template m)) \<Longrightarrow> CHR ''/'' \<notin> set l"
  by (cases m) (auto simp: template_def eval_nat_numeral)

lemma fill_prefix: "\<exists>rest. fill (the (template m)) xs = [''api'', ''aoyo'', ''v1''] @ rest \<and> rest \<noteq> []"
  by (cases m) (simp_all add: template_def eval_nat_numeral)

lemma matchPath_pathFor:
  assumes "length xs = length (pathField m)" "\<forall>x \<in> set xs. CHR ''/'' \<notin> set x"
  shows "matchPath m (pathFor m xs) = Some (zip (pathField m) xs)"
proof -
  obtain ts where ts: "template m = Some ts" using template_defined by blast
  have "splitOn (CHR ''/'') (join ''/'' (fill ts xs)) = fill ts xs"
    using set_fill [of ts xs] template_plain [of _ m] fill_prefix [of m xs] assms(2) by (intro splitOn_join) (auto simp: ts)
  then show ?thesis
    using match_fill [of xs ts] template_variables [of m] assms(1) by (simp add: matchPath_def pathFor_def ts cutPrefix_def hasPrefix_def)
qed



end
