(* ===== verification/Transactions.thy ===== *)
theory Transactions
  imports Provider_Repo Api_Key
begin

text \<open>
  The connection to the database (\<open>src/internal/adapter/postgres/postgres.go\<close>): connecting, and
  \<open>WithinTransaction\<close>, which runs a function in a transaction that travels in the context.  The repositories
  get their connection from the context, so their statements take part in it.
\<close>

section \<open>Connecting\<close>

record Config_postgres =
  pc_Host :: string
  pc_Port :: string
  pc_User :: string
  pc_Password :: string
  pc_DB :: string
  pc_SSLMode :: string

definition dsn :: "Config_postgres \<Rightarrow> string" where
  "dsn cfg = ''postgres://'' @ pc_User cfg @ '':'' @ pc_Password cfg @ ''@'' @ pc_Host cfg @ '':'' @ pc_Port cfg @ ''/'' @ pc_DB cfg @
     ''?sslmode='' @ pc_SSLMode cfg"

text \<open>\<open>open\<close>, \<open>acquire\<close> and \<open>ping\<close> are the answers of the driver; the result is the string the pool connects with.\<close>

definition NewDB :: "(string \<Rightarrow> err option) \<Rightarrow> err option \<Rightarrow> err option \<Rightarrow> Config_postgres \<Rightarrow> err + string" where
  "NewDB openPool acquire ping cfg =
     (case openPool (dsn cfg) of
        Some e \<Rightarrow> Inl (Wrap ''failed to connect to database'' e)
      | None \<Rightarrow>
         (case acquire of
            Some e \<Rightarrow> Inl (Wrap ''can't acquire connection'' e)
          | None \<Rightarrow>
             (case ping of
                Some e \<Rightarrow> Inl (Wrap ''can't ping database'' e)
              | None \<Rightarrow> Inr (dsn cfg))))"

section \<open>Transactions\<close>

text \<open>
  A transaction has its own view of the tables.  A failed statement makes PostgreSQL refuse the following
  ones and the commit; a rolled back transaction is closed and refuses everything.  The connection itself may
  fail when it is acquired, at the start and at the commit - there also after the server has stored
  everything (\<open>Lost\<close>); \<open>se_script\<close> says when.
\<close>

record tx =
  tx_db :: db
  tx_aborted :: bool
  tx_closed :: bool

datatype conn_event = Fine | Fails err | Lost err

record session =
  se_db :: db
  se_tx :: "tx option"
  se_script :: "conn_event list"

definition nextEvent :: "session \<Rightarrow> conn_event \<times> session" where
  "nextEvent s = (case se_script s of [] \<Rightarrow> (Fine, s) | e # es \<Rightarrow> (e, s\<lparr>se_script := es\<rparr>))"

definition injectTx :: "tx \<Rightarrow> session \<Rightarrow> session" where
  "injectTx t s = s\<lparr>se_tx := Some t\<rparr>"

definition extractTx :: "bool \<Rightarrow> session \<Rightarrow> tx option" where
  "extractTx inTx s = (if inTx then se_tx s else None)"

text \<open>
  One statement on the connection of the context: on the transaction if it carries one, else on the pool.  Its
  error is a refusal of the server.
\<close>

definition GetConnection :: "'a sql \<Rightarrow> bool \<Rightarrow> session \<Rightarrow> (err + 'a) \<times> session" where
  "GetConnection f inTx s =
     (case extractTx inTx s of
        None \<Rightarrow> (let (r, d) = f (se_db s) in (r, s\<lparr>se_db := d\<rparr>))
      | Some t \<Rightarrow>
          if tx_closed t then (Inl (Plain ''tx is closed''), s)
          else if tx_aborted t then (Inl (SQLError ''current transaction is aborted''), s)
          else (let (r, d) = f (tx_db t) in (r, injectTx (t\<lparr>tx_db := d, tx_aborted := (\<exists>e. r = Inl e)\<rparr>) s)))"

definition Rollback :: "session \<Rightarrow> session" where
  "Rollback s = (case se_tx s of None \<Rightarrow> s | Some t \<Rightarrow> injectTx (t\<lparr>tx_closed := True\<rparr>) s)"

text \<open>The transaction is over: the tables are as before; the script of failing statements went on.\<close>

definition discard :: "session \<Rightarrow> session" where
  "discard s = (case se_tx s of None \<Rightarrow> s
     | Some t \<Rightarrow> s\<lparr>se_db := (se_db s)\<lparr>db_faults := db_faults (tx_db t)\<rparr>, se_tx := None\<rparr>)"

definition store :: "session \<Rightarrow> session" where
  "store s = (case se_tx s of None \<Rightarrow> s | Some t \<Rightarrow> s\<lparr>se_db := tx_db t, se_tx := None\<rparr>)"

definition Commit :: "session \<Rightarrow> err option \<times> session" where
  "Commit s =
     (case se_tx s of
        None \<Rightarrow> (Some (Plain ''tx is closed''), s)
      | Some t \<Rightarrow>
          if tx_closed t then (Some (Plain ''tx is closed''), s)
          else if tx_aborted t then (Some (Plain ''commit unexpectedly resulted in rollback''), s)
          else
            case nextEvent s of
              (Fine, s) \<Rightarrow> (None, store s)
            | (Fails e, s) \<Rightarrow> (Some e, s)
            | (Lost e, s) \<Rightarrow> (Some e, store s))"

definition WithinTransaction :: "(bool \<Rightarrow> session \<Rightarrow> err option \<times> session) \<Rightarrow> bool \<Rightarrow> session \<Rightarrow> err option \<times> session" where
  "WithinTransaction tFunc inTx s =
     (if extractTx inTx s \<noteq> None then
        (case tFunc inTx s of
           (None, s) \<Rightarrow> (None, s)
         | (Some e, s) \<Rightarrow> (Some (Wrap ''transaction failed'' e), Rollback s))
      else
        case nextEvent s of
          (Fails e, s) \<Rightarrow> (Some (Wrap ''can't acquire connection'' e), s)
        | (Lost e, s) \<Rightarrow> (Some (Wrap ''can't acquire connection'' e), s)
        | (Fine, s) \<Rightarrow>
           (case nextEvent s of
              (Fails e, s) \<Rightarrow> (Some (Wrap ''can't begin transaction'' e), s)
            | (Lost e, s) \<Rightarrow> (Some (Wrap ''can't begin transaction'' e), s)
            | (Fine, s) \<Rightarrow>
               (case tFunc True (injectTx \<lparr>tx_db = se_db s, tx_aborted = False, tx_closed = False\<rparr> s) of
                  (Some e, s) \<Rightarrow> (Some (Wrap ''transaction failed'' e), discard s)
                | (None, s) \<Rightarrow>
                   (case Commit s of
                      (Some e, s) \<Rightarrow> (Some (Wrap ''can't commit transaction'' e), discard s)
                    | (None, s) \<Rightarrow> (None, s)))))"

section \<open>All or nothing\<close>

text \<open>
  What code may do with the context it is given: statements, failures of its own, sequences, going on after a
  failure, and transactions within the transaction.  \<open>exec\<close> runs it with the code above, \<open>direct\<close> is what it
  means on the tables alone, without a result where a statement or a transaction inside fails: nothing may be
  kept then.
\<close>

datatype program = Statement "unit sql" | Raise err | Then program program | Recover program program | Transaction program

primrec exec :: "program \<Rightarrow> bool \<Rightarrow> session \<Rightarrow> err option \<times> session" where
  "exec (Statement f) inTx s = (case GetConnection f inTx s of (Inl e, s) \<Rightarrow> (Some e, s) | (Inr _, s) \<Rightarrow> (None, s))"
| "exec (Raise e) inTx s = (Some e, s)"
| "exec (Then p q) inTx s = (case exec p inTx s of (Some e, s) \<Rightarrow> (Some e, s) | (None, s) \<Rightarrow> exec q inTx s)"
| "exec (Recover p q) inTx s = (case exec p inTx s of (Some e, s) \<Rightarrow> exec q inTx s | (None, s) \<Rightarrow> (None, s))"
| "exec (Transaction p) inTx s = WithinTransaction (exec p) inTx s"

primrec direct :: "program \<Rightarrow> db \<Rightarrow> (bool \<times> db) option" where
  "direct (Statement f) d = (case f d of (Inl e, d) \<Rightarrow> None | (Inr _, d) \<Rightarrow> Some (True, d))"
| "direct (Raise e) d = Some (False, d)"
| "direct (Then p q) d = (case direct p d of None \<Rightarrow> None | Some (ok, d) \<Rightarrow> if ok then direct q d else Some (False, d))"
| "direct (Recover p q) d = (case direct p d of None \<Rightarrow> None | Some (ok, d) \<Rightarrow> if ok then Some (True, d) else direct q d)"
| "direct (Transaction p) d = (case direct p d of None \<Rightarrow> None | Some (ok, d) \<Rightarrow> if ok then Some (True, d) else None)"

definition dead :: "tx \<Rightarrow> bool" where
  "dead t \<longleftrightarrow> tx_closed t \<or> tx_aborted t"

text \<open>
  Code inside a transaction leaves the tables and the connection alone, a transaction that can no longer be
  committed stays so, and as long as it can, its view is what the code means.
\<close>

definition follows :: "program \<Rightarrow> session \<Rightarrow> tx \<Rightarrow> err option \<Rightarrow> session \<Rightarrow> bool" where
  "follows p s t r s' \<longleftrightarrow> (\<exists>t'. s' = injectTx t' s \<and> (dead t \<longrightarrow> dead t') \<and>
     (\<not> dead t' \<longrightarrow> direct p (tx_db t) = Some (r = None, tx_db t')))"

lemma injectTx_simps [simp]: "injectTx t (injectTx u s) = injectTx t s" "se_tx (injectTx t s) = Some t"
  "se_db (injectTx t s) = se_db s" "se_script (injectTx t s) = se_script s"
  by (simp_all add: injectTx_def)

lemma exec_follows: "exec p True s = (r, s') \<Longrightarrow> se_tx s = Some t \<Longrightarrow> follows p s t r s'"
proof (induction p arbitrary: s t r s')
  case (Statement f)
  have "s = injectTx t s" using Statement.prems(2) by (simp add: injectTx_def)
  then show ?case using Statement.prems
    by (auto simp: follows_def GetConnection_def extractTx_def dead_def Let_def split: if_splits prod.splits sum.splits intro: exI [of _ t])
next
  case (Raise e)
  then show ?case by (auto simp: follows_def injectTx_def intro!: exI [of _ t])
next
  case (Then p q)
  obtain r1 s1 where p: "exec p True s = (r1, s1)" by fastforce
  from Then.IH(1) [OF p Then.prems(2)] obtain t1 where t1: "s1 = injectTx t1 s" "dead t \<longrightarrow> dead t1"
      "\<not> dead t1 \<longrightarrow> direct p (tx_db t) = Some (r1 = None, tx_db t1)" by (auto simp: follows_def)
  show ?case
  proof (cases r1)
    case None
    then have "follows q s1 t1 r s'" using Then.IH(2) [of s1 r s' t1] Then.prems(1) p t1(1) by simp
    then show ?thesis using t1 None by (auto simp: follows_def)
  qed (use Then.prems(1) p t1 in \<open>auto simp: follows_def\<close>)
next
  case (Recover p q)
  obtain r1 s1 where p: "exec p True s = (r1, s1)" by fastforce
  from Recover.IH(1) [OF p Recover.prems(2)] obtain t1 where t1: "s1 = injectTx t1 s" "dead t \<longrightarrow> dead t1"
      "\<not> dead t1 \<longrightarrow> direct p (tx_db t) = Some (r1 = None, tx_db t1)" by (auto simp: follows_def)
  show ?case
  proof (cases r1)
    case (Some e)
    then have "follows q s1 t1 r s'" using Recover.IH(2) [of s1 r s' t1] Recover.prems(1) p t1(1) by simp
    then show ?thesis using t1 Some by (auto simp: follows_def)
  qed (use Recover.prems(1) p t1 in \<open>auto simp: follows_def\<close>)
next
  case (Transaction p)
  obtain r1 s1 where p: "exec p True s = (r1, s1)" by fastforce
  have "follows p s t r1 s1" by (rule Transaction.IH [OF p Transaction.prems(2)])
  then show ?case using Transaction.prems p
    by (cases r1) (auto simp: follows_def WithinTransaction_def extractTx_def Rollback_def dead_def)
qed

lemma discarded:
  assumes "se_tx s = Some t"
  shows "se_tx (discard s) = None \<and> (\<exists>faults. se_db (discard s) = (se_db s)\<lparr>db_faults := faults\<rparr>)"
  using assms by (auto simp: discard_def)

lemma Commit_cases:
  assumes "Commit s = (r, s')" "se_tx s = Some t" "\<forall>e. Lost e \<notin> set (se_script s)"
  shows "r = None \<and> \<not> dead t \<and> se_db s' = tx_db t \<and> se_tx s' = None \<or> r \<noteq> None \<and> se_tx s' = Some t \<and> se_db s' = se_db s"
proof -
  obtain e s1 where e: "nextEvent s = (e, s1)" by fastforce
  then have "\<And>x. e \<noteq> Lost x" "se_tx s1 = Some t" "se_db s1 = se_db s"
    using assms(2,3) by (auto simp: nextEvent_def split: list.splits)
  then show ?thesis
    using assms(1,2) e by (cases e) (auto simp: Commit_def store_def dead_def split: if_splits)
qed

text \<open>
  C14: a transaction is all or nothing, whatever the code in it does - statements that fail, errors it ignores,
  transactions inside it that fail and roll back.  If the call succeeds, no statement and no transaction
  inside failed, and the tables are what the code means when it is run on them step by step; if it fails, at any point including the commit, the
  tables are as before (unless the connection broke while the server was committing).
\<close>

theorem transaction_all_or_nothing:
  assumes "exec (Transaction p) False s = (r, s')" "se_tx s = None" "\<forall>e. Lost e \<notin> set (se_script s)"
  shows "se_tx s' = None \<and> (r = None \<longrightarrow> direct p (se_db s) = Some (True, se_db s')) \<and>
    (r \<noteq> None \<longrightarrow> (\<exists>faults. se_db s' = (se_db s)\<lparr>db_faults := faults\<rparr>))"
proof -
  have same: "\<exists>faults. d = d\<lparr>db_faults := faults\<rparr>" for d :: db by (rule exI [of _ "db_faults d"]) simp
  obtain e1 s1 where e1: "nextEvent s = (e1, s1)" by fastforce
  obtain e2 s2 where e2: "nextEvent s1 = (e2, s2)" by fastforce
  have s: "se_db s1 = se_db s" "se_tx s1 = None" "set (se_script s1) \<subseteq> set (se_script s)"
      "se_db s2 = se_db s" "se_tx s2 = None" "set (se_script s2) \<subseteq> set (se_script s)"
    using e1 e2 assms(2) by (auto simp: nextEvent_def split: list.splits)
  show ?thesis
  proof (cases "e1 = Fine \<and> e2 = Fine")
    case True
    define t where "t = \<lparr>tx_db = se_db s2, tx_aborted = False, tx_closed = False\<rparr>"
    obtain r1 s3 where body: "exec p True (injectTx t s2) = (r1, s3)" by fastforce
    obtain t' where t': "s3 = injectTx t' s2" "\<not> dead t' \<longrightarrow> direct p (se_db s) = Some (r1 = None, tx_db t')"
      using exec_follows [OF body, of t] s(4) by (auto simp: follows_def t_def)
    have run: "(r, s') = (case r1 of Some e \<Rightarrow> (Some (Wrap ''transaction failed'' e), discard s3)
        | None \<Rightarrow> (case Commit s3 of (Some e, s) \<Rightarrow> (Some (Wrap ''can't commit transaction'' e), discard s) | (None, s) \<Rightarrow> (None, s)))"
      using assms(1,2) e1 e2 True body by (simp add: WithinTransaction_def extractTx_def t_def split: option.split)
    have s3: "se_tx s3 = Some t'" "se_db s3 = se_db s" "\<forall>e. Lost e \<notin> set (se_script s3)" using t'(1) s assms(3) by auto
    show ?thesis
    proof (cases r1)
      case None
      obtain c s4 where c: "Commit s3 = (c, s4)" by fastforce
      show ?thesis using Commit_cases [OF c s3(1,3)] run c None t'(2) s3(2) discarded [of s4] by (cases c) auto
    next
      case (Some e)
      then show ?thesis using run s3 discarded [of s3] by simp
    qed
  next
    case False
    then have "se_tx s' = None \<and> r \<noteq> None \<and> se_db s' = se_db s"
      using assms(1,2) e1 e2 s by (cases e1; cases e2) (auto simp: WithinTransaction_def extractTx_def)
    then show ?thesis using same by metis
  qed
qed

text \<open>A transaction inside fails and the code goes on: the outer one cannot be committed any more.\<close>

definition careless :: program where
  "careless = Recover (Transaction (Then (Statement (DeleteProviderRow ''p1'')) (Raise (Plain ''no'')))) (Statement (DeleteProviderRow ''p2''))"

theorem transaction_all_or_nothing_witness:
  "\<exists>r s'. exec (Transaction careless) False \<lparr>se_db = sample_db, se_tx = None, se_script = []\<rparr> = (Some r, s') \<and>
     (\<exists>faults. se_db s' = sample_db\<lparr>db_faults := faults\<rparr>)"
proof -
  obtain r s' where run: "exec (Transaction careless) False \<lparr>se_db = sample_db, se_tx = None, se_script = []\<rparr> = (r, s')" by fastforce
  have "r \<noteq> None"
    using run by (auto simp: careless_def WithinTransaction_def nextEvent_def extractTx_def GetConnection_def Rollback_def Let_def
        injectTx_def split: prod.splits sum.splits option.splits if_splits)
  then show ?thesis using transaction_all_or_nothing [OF run] run by auto
qed

text \<open>The parts of the connection string are not escaped, so settings that contain its separators are read as others.\<close>

lemma dsn_ambiguous:
  "\<exists>a b. dsn a = dsn b \<and> pc_Host a \<noteq> pc_Host b \<and> pc_Password a \<noteq> pc_Password b"
proof -
  let ?c = "\<lambda>h p. \<lparr>pc_Host = h, pc_Port = ''5432'', pc_User = ''u'', pc_Password = p, pc_DB = ''d'', pc_SSLMode = ''disable''\<rparr>"
  have "dsn (?c ''db'' ''p@q'') = dsn (?c ''q@db'' ''p'')" by (simp add: dsn_def)
  then show ?thesis by (intro exI [of _ "?c ''db'' ''p@q''"] exI [of _ "?c ''q@db'' ''p''"]) simp
qed

end
