(* ===== verification/Startup.thy ===== *)
theory Startup
  imports Jobs Gateway
begin

text \<open>
  The start and the end of the process (\<open>src/internal/app/app.go\<close>, \<open>src/cmd/app/main.go\<close>, the application
  context of \<open>src/internal/app/provider/provider.go\<close>): the parts are initialised in a fixed order, each needing
  earlier ones; a missing password is replaced by a random one; at the end the registered functions are run.
\<close>

section \<open>Initialisation\<close>

text \<open>What the application has set up so far; \<open>None\<close> as the result of a step is a panic.\<close>

record boot =
  bt_Env :: string
  bt_InitialPassword :: string
  bt_provider :: bool
  bt_httpServer :: bool
  bt_cpapi :: bool
  bt_jobs :: "string list"
  bt_closer :: "string closer"

type_synonym boot_step = "boot \<Rightarrow> ((err + unit) \<times> boot) option"

text \<open>The answers from outside: random bytes, parsing of addresses and intervals, building the service.\<close>

record boot_env =
  be_random :: "string + bytes"
  be_parseURL :: "err option"
  be_buildCPAPI :: "err option"
  be_parseInterval :: "string \<Rightarrow> string option"

text \<open>The warning goes to the logger of the environment, which is nil for an environment it does not know.\<close>

definition initProvider :: "boot_env \<Rightarrow> boot_step" where
  "initProvider env b0 =
     (let b = b0\<lparr>bt_provider := True\<rparr> in
      if bt_InitialPassword b = [] then
        (case InitLogger (bt_Env b) of
           None \<Rightarrow> None
         | Some _ \<Rightarrow>
            (case be_random env of
               Inl _ \<Rightarrow> None
             | Inr token \<Rightarrow> Some (Inr (), b\<lparr>bt_InitialPassword := hexEncode token\<rparr>)))
      else Some (Inr (), b))"

definition initHttpServer :: "boot_env \<Rightarrow> boot_step" where
  "initHttpServer env b =
     (if \<not> bt_provider b then None
      else
        case be_parseURL env of
          Some e \<Rightarrow> Some (Inl (Wrap ''url.Parse error'' e), b)
        | None \<Rightarrow> Some (Inr (), b\<lparr>bt_httpServer := True, bt_closer := Add [''http server''] (bt_closer b)\<rparr>))"

text \<open>The handler of the HTTP server is read first, then the service is built and registered for the end.\<close>

definition initCPAPI :: "boot_env \<Rightarrow> boot_step" where
  "initCPAPI env b =
     (if \<not> bt_provider b \<or> \<not> bt_httpServer b then None
      else
        case be_buildCPAPI env of
          Some e \<Rightarrow> Some (Inl e, b)
        | None \<Rightarrow> Some (Inr (), b\<lparr>bt_cpapi := True, bt_closer := Add [''cliproxyapi''] (bt_closer b)\<rparr>))"

definition initJobs :: "boot_env \<Rightarrow> boot_step" where
  "initJobs env b =
     (if \<not> bt_provider b then None
      else
        case initCrons (be_parseInterval env) (bt_closer b) of
          (Inl e, c) \<Rightarrow> Some (Inl (Plain e), b\<lparr>bt_closer := c\<rparr>)
        | (Inr names, c) \<Rightarrow> Some (Inr (), b\<lparr>bt_jobs := names, bt_closer := c\<rparr>))"

fun runSteps :: "boot_step list \<Rightarrow> boot_step" where
  "runSteps [] b = Some (Inr (), b)"
| "runSteps (dep # deps) b =
     (case dep b of
        None \<Rightarrow> None
      | Some (Inl e, b) \<Rightarrow> Some (Inl e, b)
      | Some (Inr _, b) \<Rightarrow> runSteps deps b)"

definition initDeps :: "boot_env \<Rightarrow> boot_step" where
  "initDeps env = runSteps [initProvider env, initHttpServer env, initCPAPI env, initJobs env]"

definition NewApp :: "boot_env \<Rightarrow> string \<Rightarrow> string \<Rightarrow> ((err + unit) \<times> boot) option" where
  "NewApp env environment configured = initDeps env
     \<lparr>bt_Env = environment, bt_InitialPassword = configured, bt_provider = False, bt_httpServer = False, bt_cpapi = False,
      bt_jobs = [], bt_closer = newCloser\<rparr>"

section \<open>Running and ending\<close>

text \<open>The context of the process, or the background context before it is set.\<close>

definition SetAppCtx :: "nat \<Rightarrow> nat option \<Rightarrow> nat option" where
  "SetAppCtx ctx appCtx = Some ctx"

datatype app_ctx = Background | ProcessCtx nat

definition AppCtx :: "nat option \<Rightarrow> app_ctx" where
  "AppCtx appCtx = (case appCtx of None \<Rightarrow> Background | Some c \<Rightarrow> ProcessCtx c)"

definition errServerClosed :: err where "errServerClosed = Plain ''http: Server closed''"

definition errCanceled :: err where "errCanceled = Plain ''context canceled''"

text \<open>\<open>ended\<close> is the error with which listening ends; it never ends without one.\<close>

definition runHTTPServer :: "err \<Rightarrow> err option" where
  "runHTTPServer ended = (if ended = errServerClosed then None else Some ended)"

definition RunCPAPI :: "err option \<Rightarrow> err option" where
  "RunCPAPI ended = (case ended of None \<Rightarrow> None | Some e \<Rightarrow> if e = errCanceled then None else Some e)"

text \<open>
  The group returns the first error, in the order in which its functions return (\<open>httpFirst\<close>); the consumers of
  the queues return no error.
\<close>

definition StartApp :: "bool \<Rightarrow> err \<Rightarrow> err option \<Rightarrow> err option" where
  "StartApp httpFirst http cpapi =
     (case (if httpFirst then (runHTTPServer http, RunCPAPI cpapi) else (RunCPAPI cpapi, runHTTPServer http)) of
        (Some e, _) \<Rightarrow> Some e
      | (None, r) \<Rightarrow> r)"

text \<open>\<open>main\<close> panics with an error of the group that is not the end of the HTTP server.\<close>

definition mainPanics :: "err option \<Rightarrow> bool" where
  "mainPanics r = (case r of None \<Rightarrow> False | Some e \<Rightarrow> e \<noteq> errServerClosed)"

text \<open>The functions that are run at the end, and the error that is logged when they take longer than 30 seconds.\<close>

definition GracefullyStop :: "bool \<Rightarrow> boot \<Rightarrow> string list \<times> (err + unit) \<times> boot" where
  "GracefullyStop inTime b =
     (let (run, c) = CloseAll (bt_closer b) in (run, WaitTimeout inTime, b\<lparr>bt_closer := c\<rparr>))"

section \<open>Properties\<close>

lemma runJobs_ok: "runJobs parse js c = (Inr names, c') \<Longrightarrow> names = map jb_Name js \<and> c' = Add names c"
proof (induction js arbitrary: c names)
  case (Cons j js)
  then show ?case by (auto simp: Run_def Add_def split: option.splits prod.splits sum.splits) fastforce+
qed (simp add: Add_def)

lemma initCrons_ok:
  assumes "initCrons parse c = (Inr names, c')"
  shows "names = [''quota_resetter'', ''quota_loader'', ''provider_remover'', ''push_events_pruner''] \<and> c' = Add names c"
  using runJobs_ok [OF assms [unfolded initCrons_def]] by simp

text \<open>The order of the steps: none finds a part missing, so a panic comes from the environment only.\<close>

lemma initJobs_runs: "bt_provider b \<Longrightarrow> initJobs env b \<noteq> None"
  by (simp add: initJobs_def split: prod.split sum.split)

lemma later_steps_run: "bt_provider b \<Longrightarrow> runSteps [initHttpServer env, initCPAPI env, initJobs env] b \<noteq> None"
  using initJobs_runs [of "b\<lparr>bt_httpServer := True, bt_cpapi := True, bt_closer := Add [''cliproxyapi''] (Add [''http server''] (bt_closer b))\<rparr>" env]
  by (auto simp: initHttpServer_def initCPAPI_def split: option.split sum.split prod.split)

lemma NewApp_panics:
  "NewApp env environment configured = None \<longleftrightarrow>
    configured = [] \<and> (InitLogger environment = None \<or> (\<exists>e. be_random env = Inl e))"
proof -
  obtain b where b: "b = \<lparr>bt_Env = environment, bt_InitialPassword = configured, bt_provider = False, bt_httpServer = False,
      bt_cpapi = False, bt_jobs = [], bt_closer = newCloser\<rparr>" by simp
  have "NewApp env environment configured = None \<longleftrightarrow> initProvider env b = None"
    using later_steps_run [of _ env]
    by (auto simp: NewApp_def initDeps_def b [symmetric] initProvider_def Let_def simp del: runSteps.simps
        simp: runSteps.simps(2) [of "initProvider env"] split: option.splits sum.splits if_splits)
  then show ?thesis by (auto simp: initProvider_def b Let_def split: option.splits sum.splits)
qed

lemma NewApp_started:
  assumes "NewApp env environment configured = Some (Inr (), b)"
  shows "bt_provider b \<and> bt_httpServer b \<and> bt_cpapi b \<and>
    cl_funcs (bt_closer b) = [''http server'', ''cliproxyapi''] @ bt_jobs b \<and> \<not> cl_done (bt_closer b) \<and>
    bt_jobs b = [''quota_resetter'', ''quota_loader'', ''provider_remover'', ''push_events_pruner''] \<and>
    (configured \<noteq> [] \<longrightarrow> bt_InitialPassword b = configured) \<and>
    (configured = [] \<longrightarrow> (\<exists>token. be_random env = Inr token \<and> bt_InitialPassword b = hexEncode token))"
  using assms
  by (auto simp: NewApp_def initDeps_def initProvider_def initHttpServer_def initCPAPI_def initJobs_def Let_def newCloser_def Add_def
      dest!: initCrons_ok split: option.splits sum.splits prod.splits if_splits)

text \<open>Without a key that has an empty secret an empty token is refused.\<close>

lemma LoginUser_empty:
  assumes "pw \<noteq> []" "\<forall>k \<in> set (db_keys d). ak_Key k \<noteq> []"
  shows "\<exists>d'. LoginUser pw [] d = (Inl (Plain ''invalid password''), d')"
proof -
  obtain r d' where l: "LoginUser pw [] d = (r, d')" by fastforce
  then show ?thesis using LoginUser_cases [OF l] assms by (auto split: sum.splits option.splits)
qed

lemma AuthInterceptor_empty:
  assumes "pw \<noteq> []" "\<forall>k \<in> set (db_keys d). ak_Key k \<noteq> []" "auth \<in> {[], ''Password '', ''Bearer ''}"
  shows "\<exists>text d'. AuthInterceptor isAdmin True pw auth d = (HTTPError 401 text, d')"
  using assms(3) LoginUser_empty [OF assms(1,2)]
  by (auto simp: AuthInterceptor_def authToken_def cutPrefix_def hasPrefix_def)

lemma Authenticate_empty:
  assumes "pw \<noteq> []" "\<forall>k \<in> set (db_keys d). ak_Key k \<noteq> []" "requestToken xApiKey authorization = []"
  shows "Authenticate env clock pw None xApiKey authorization policies d \<noteq> Some (Inr i, policies', d')"
  using assms(3) LoginUser_empty [OF assms(1,2)] by (auto simp: Authenticate_def)


definition sample_boot_env :: boot_env where
  "sample_boot_env = \<lparr>be_random = Inr (replicate 20 255), be_parseURL = None, be_buildCPAPI = None, be_parseInterval = \<lambda>_. None\<rparr>"


text \<open>
  The health check of the container image sends the password of its environment, which stays empty when the
  process makes one up: the check is answered with 401, and the container counts as unhealthy.
\<close>

lemma container_check_unauthorized:
  assumes "NewApp env environment [] = Some (Inr (), b)" "\<forall>token. be_random env = Inr token \<longrightarrow> length token = 20"
    and "\<forall>k \<in> set (db_keys d). ak_Key k \<noteq> []"
  shows "\<exists>text d'. AuthInterceptor False True (bt_InitialPassword b) (''Password '' @ []) d = (HTTPError 401 text, d')"
proof -
  obtain token where "be_random env = Inr token" "bt_InitialPassword b = hexEncode token"
    using NewApp_started [OF assms(1)] by auto
  then have "length (bt_InitialPassword b) = 40" using assms(2) by simp
  then show ?thesis using AuthInterceptor_empty [OF _ assms(3), of "bt_InitialPassword b" "''Password ''"] by force
qed

end
