(* ===== verification/Rest_Keys.thy ===== *)
theory Rest_Keys
  imports Gateway Key_Service
begin

text \<open>
  The key handlers behind the REST interface: the way of a request from the front of the server through the
  routes, the middlewares and the decoders to the handlers of \<open>src/internal/driver/server/apikeys.go\<close>, and back
  to what the next request meets.
\<close>

section \<open>The key handlers as methods of the service\<close>

datatype key_reply = TextReply string | KeysReply "key_view list" | SecretReply string string

text \<open>A handler works on the database of the process and on the configuration.\<close>

definition onService :: "('a \<Rightarrow> key_reply) \<Rightarrow> 'a handler \<Rightarrow> service rest_sys \<Rightarrow> (err + key_reply) \<times> service rest_sys" where
  "onService reply h s =
     (case h ((rs_state s)\<lparr>sv_db := rs_db s\<rparr>) of
        (r, v) \<Rightarrow> (case r of Inl e \<Rightarrow> Inl e | Inr x \<Rightarrow> Inr (reply x), s\<lparr>rs_db := sv_db v, rs_state := v\<rparr>))"

text \<open>
  \<open>server\<close> of \<open>initHttpServer\<close> for the methods on keys whose message has at most an identifier or a password;
  \<open>others\<close> are the remaining ones.  A handler reads the key from the context the middlewares made.
\<close>

definition keyService :: "go_time \<Rightarrow> (string + bytes) \<Rightarrow> (service, key_reply) service_calls \<Rightarrow> (service, key_reply) service_calls" where
  "keyService now random others m ctx msg s =
     (let requester = map_option Some (cx_ApiKey ctx) in
      case m of
        SignIn_rpc \<Rightarrow> (case SignIn requester (stringAt msg ''password'') of Inl e \<Rightarrow> Inl e | Inr t \<Rightarrow> Inr (TextReply t), s)
      | DeleteApiKey_rpc \<Rightarrow> onService TextReply (DeleteApiKey requester (stringAt msg ''api_key_id'')) s
      | GetApiKeyList_rpc \<Rightarrow> onService KeysReply (GetApiKeyList requester) s
      | RecreateApiKey_rpc \<Rightarrow> onService (\<lambda>(i, secret). SecretReply i secret) (RecreateApiKey now random requester (stringAt msg ''api_key_id'')) s
      | _ \<Rightarrow> others m ctx msg s)"

section \<open>Revoking a key\<close>

lemma DeleteApiKey_ok:
  assumes "DeleteApiKey requester i v = (Inr r, v')" "sigOK (sv_db v)"
  shows "(\<forall>x. requester = Some (Some x) \<longrightarrow> ak_IsAdmin x)"
    and "\<exists>k \<in> set (db_keys (sv_db v)). ak_ID k = i \<and> \<not> ak_IsDeleted k"
    and "db_keys (sv_db v') = updateWhere (\<lambda>k. ak_ID k = i) (\<lambda>k. k\<lparr>ak_IsDeleted := True\<rparr>) (db_keys (sv_db v))"
proof -
  show "\<forall>x. requester = Some (Some x) \<longrightarrow> ak_IsAdmin x"
    using assms(1) by (auto simp: DeleteApiKey_def requireAdmin_def split: if_splits)
  obtain r1 d1 where c1: "GetApiKeys (sv_db v) = (r1, d1)" by fastforce
  have d1: "db_keys d1 = db_keys (sv_db v)" "db_uuid d1 = db_uuid (sv_db v)"
      "\<forall>ks. r1 = Inr ks \<longrightarrow> ks = filter (\<lambda>k. \<not> ak_IsDeleted k) (db_keys (sv_db v))"
    using c1 by (auto simp: GetApiKeys_def stmt_def split: list.splits option.splits)
  obtain r2 d2 where c2: "DeleteApiKeyRow i d1 = (r2, d2)" by fastforce
  obtain ks k where k: "r1 = Inr ks" "find (\<lambda>k. ak_ID k = i) ks = Some k" "r2 = Inr ()"
      "db_keys (sv_db v') = db_keys d2"
    using assms(1) c1 c2
    by (auto simp: DeleteApiKey_def requireAdmin_def query_def Let_def setAPIKeys_def saveConfig_def
        split: option.splits if_splits sum.splits prod.splits list.splits)
  then have mem: "k \<in> set (db_keys (sv_db v))" "ak_ID k = i" "\<not> ak_IsDeleted k"
    using d1(3) by (auto simp: find_Some_iff dest: nth_mem)
  then show "\<exists>k \<in> set (db_keys (sv_db v)). ak_ID k = i \<and> \<not> ak_IsDeleted k" by blast
  have "db_uuid d1 i = Some i"
    using assms(2) mem(1,2) d1(2) by (auto simp: sigOK_def keySig_def list_all_iff)
  then show "db_keys (sv_db v') = updateWhere (\<lambda>k. ak_ID k = i) (\<lambda>k. k\<lparr>ak_IsDeleted := True\<rparr>) (db_keys (sv_db v))"
    using c2 k d1(1) by (auto simp: DeleteApiKeyRow_def Let_def stmt_def withUUID_def split: list.splits option.splits)
qed

text \<open>A revoked secret does not log in, whatever the database answers.\<close>

lemma revoked_login:
  assumes "sigOK d" "db_keys d' = updateWhere (\<lambda>k. ak_ID k = i) (\<lambda>k. k\<lparr>ak_IsDeleted := True\<rparr>) (db_keys d)"
    and "k \<in> set (db_keys d)" "ak_ID k = i" "ak_Key k \<noteq> pw"
  shows "\<exists>d''. LoginUser pw (ak_Key k) d' = (Inl (Plain ''invalid password''), d'')"
proof -
  obtain r d'' where l: "LoginUser pw (ak_Key k) d' = (r, d'')" by fastforce
  have False if r: "r = Inr (Some k')" for k'
  proof -
    have k': "k' \<in> set (db_keys d')" "ak_Key k' = ak_Key k" "\<not> ak_IsDeleted k'" using LoginUser_cases [OF l] r by auto
    then obtain j where j: "j \<in> set (db_keys d)" "k' = (if ak_ID j = i then j\<lparr>ak_IsDeleted := True\<rparr> else j)"
      using assms(2) by (auto simp: updateWhere_def)
    then have "ak_Key j = ak_Key k" using k'(2) by (simp split: if_splits)
    moreover have "distinct (map ak_Key (db_keys d))" using assms(1) by (simp add: sigOK_def keySig_def comp_def)
    ultimately have "j = k" using assms(3) j(1) by (metis distinct_map inj_on_def)
    then show False using j(2) assms(4) k'(3) by simp
  qed
  then show ?thesis using l LoginUser_cases [OF l] assms(5) by (auto split: sum.splits option.splits)
qed

lemma revoked_refused:
  assumes "\<exists>d''. LoginUser pw secret d = (Inl (Plain ''invalid password''), d'')"
  shows "\<exists>text d'. AuthInterceptor isAdmin True pw (''Bearer '' @ secret) d = (HTTPError 401 text, d')"
    and "requestToken x a = secret \<Longrightarrow> Authenticate penv clock pw None x a policies d \<noteq> Some (Inr j, policies', d3)"
  using assms by (auto simp: AuthInterceptor_def authToken_def cutPrefix_def hasPrefix_def Authenticate_def)

lemma revoked_secret:
  assumes "sigOK d" "db_keys d' = updateWhere (\<lambda>k. ak_ID k = i) (\<lambda>k. k\<lparr>ak_IsDeleted := True\<rparr>) (db_keys d)"
    and "k \<in> set (db_keys d)" "ak_ID k = i"
  shows "ak_Key k \<notin> liveSecrets d'"
proof
  assume "ak_Key k \<in> liveSecrets d'"
  then obtain j where j: "j \<in> set (db_keys d)" "ak_Key j = ak_Key k" "ak_ID j \<noteq> i"
    using assms(2) by (auto simp: liveSecrets_eq updateWhere_def split: if_splits)
  moreover have "distinct (map ak_Key (db_keys d))" using assms(1) by (simp add: sigOK_def keySig_def comp_def)
  ultimately show False using assms(3,4) by (metis distinct_map inj_on_def)
qed

lemma AuthInterceptor_frame: "AuthInterceptor isAdmin repo pw auth d = (out, d') \<Longrightarrow> db_keys d' = db_keys d \<and> db_uuid d' = db_uuid d"
  by (auto simp: AuthInterceptor_def LoginUser_def GetApiKeyByKey_def stmt_def split: option.splits if_splits sum.splits prod.splits list.splits)

lemma refused_over_rest:
  assumes "runtimeOK env" "re_logger env = Some log"
    and "\<exists>text d. AuthInterceptor False True (re_initialPassword env) auth (rs_db s) = (HTTPError 401 text, d)"
    and "rr_Authorization req = auth"
  shows "\<exists>code text s'. restServer env server req s = (HttpError code text, s') \<and> rs_state s' = rs_state s"
proof (cases "re_mux env routes req")
  case (Inl e)
  then show ?thesis by (cases e) (simp add: restServer_def)
next
  case (Inr x)
  then show ?thesis using assms(3,4) by (cases x) (auto simp: restServer_chain [OF assms(1,2)])
qed

text \<open>A request to revoke a key, as it arrives at the handler.\<close>

definition isRevocation :: "string \<Rightarrow> rest_request \<Rightarrow> bool" where
  "isRevocation i req \<longleftrightarrow> fr_Method (rr_front req) = ''DELETE'' \<and> fr_Path (rr_front req) = pathFor DeleteApiKey_rpc [i] \<and>
     rr_Override req = [] \<and> CHR ''/'' \<notin> set i"

lemma revocation_route:
  assumes "runtimeOK env" "isRevocation i req" "re_mux env routes req = Inr (r, ps)"
  shows "rt_rpc r = DeleteApiKey_rpc \<and> ps = [(''api_key_id'', i)]"
proof -
  let ?d = "\<lparr>rt_method = ''DELETE'', rt_rpc = DeleteApiKey_rpc, rt_path = ''/api/aoyo/v1/api-keys/{api_key_id}''\<rparr>"
  have match: "matchPath DeleteApiKey_rpc (pathFor DeleteApiKey_rpc [i]) = Some [(''api_key_id'', i)]"
    using matchPath_pathFor [of "[i]" DeleteApiKey_rpc] assms(2) by (simp add: isRevocation_def)
  have r: "r \<in> set routes" "rt_method r = ''DELETE''" "matchPath (rt_rpc r) (pathFor DeleteApiKey_rpc [i]) = Some ps"
    using assms unfolding runtimeOK_def isRevocation_def by metis+
  have "?d \<in> set routes" by (simp add: RegisterAoyoRouterServiceHandlerServer_def)
  then have "r = ?d" using route_unique [OF r(1), of ?d "pathFor DeleteApiKey_rpc [i]"] r match by simp
  then show ?thesis using r(3) match by simp
qed

lemma handled_revocation:
  assumes "decodersOK env"
    and "LoggerInterceptor (rpcHandler env (keyService now random others) DeleteApiKey_rpc) req [(''api_key_id'', i)]
      (handlerCtx key log) s = (Forwarded x, s')"
  shows "\<exists>t v. DeleteApiKey (Some (Some key)) i ((rs_state s)\<lparr>sv_db := rs_db s\<rparr>) = (Inr t, v) \<and> rs_db s' = sv_db v \<and> rs_state s' = v"
proof -
  have id: "gw_String env = Inr" using assms(1) by (auto simp: decodersOK_def)
  show ?thesis
    using assms(2)
    by (auto simp: LoggerInterceptor_def GetLoggerFromCtx_def handlerCtx_def rpcHandler_def keyService_def onService_def
        local_request_DeleteApiKey_def pathParam_def id stringAt_def setKey_def Let_def
        split: if_splits option.splits prod.splits sum.splits)
qed


section \<open>Witnesses\<close>

definition key_rest_env :: "(service, key_reply) rest_env" where
  "key_rest_env =
     \<lparr>re_gateway = re_gateway sample_rest_env, re_mux = re_mux sample_rest_env, re_chain = foldr (\<lambda>m k. m k),
      re_logger = Some [], re_initialPassword = ''master'', re_newID = ''t1''\<rparr>"

lemma key_rest_runtimeOK: "runtimeOK key_rest_env"
  using sample_runtimeOK by (simp add: runtimeOK_def key_rest_env_def)

definition revoke_request :: rest_request where
  "revoke_request = \<lparr>rr_front = \<lparr>fr_Method = ''DELETE'', fr_Path = ''/api/aoyo/v1/api-keys/k1'', fr_Origin = [], fr_RequestHeaders = []\<rparr>,
     rr_Authorization = ''Password master'', rr_TraceId = ''t0'', rr_Body = [], rr_Override = []\<rparr>"

lemma revoke_isRevocation: "isRevocation ''k1'' revoke_request"
  by code_simp

lemma revoke_mux: "re_mux key_rest_env routes revoke_request =
  Inr (\<lparr>rt_method = ''DELETE'', rt_rpc = DeleteApiKey_rpc, rt_path = ''/api/aoyo/v1/api-keys/{api_key_id}''\<rparr>, [(''api_key_id'', ''k1'')])"
  by code_simp

definition keys_running :: "service rest_sys" where
  "keys_running = \<lparr>rs_db = sample_db, rs_log = [],
     rs_state = \<lparr>sv_db = sample_db, sv_config = empty_config\<lparr>cf_APIKeys := [''sk-1'']\<rparr>, sv_disk = empty_config, sv_saves = []\<rparr>\<rparr>"

lemma keys_running_OK: "configOK ((rs_state keys_running)\<lparr>sv_db := rs_db keys_running\<rparr>)"
  using key_service_sig by (auto simp: configOK_def keys_running_def key_service_def liveSecrets_def keySig_def sample_db_def sample_key_def)

lemma revoke_master: "AuthInterceptor False True ''master'' ''Password master'' sample_db =
    (Next (zeroApiKey\<lparr>ak_IsAdmin := True, ak_ID := ''master'', ak_Key := ''master''\<rparr>), sample_db)"
  by (simp add: AuthInterceptor_def authToken_def cutPrefix_def hasPrefix_def LoginUser_def)

lemma revoke_succeeds:
  "\<exists>s'. restServer key_rest_env (keyService 0 (Inl []) (\<lambda>_ _ _ s. (Inl ErrNoRows, s))) revoke_request keys_running =
     (Forwarded (TextReply ''ok''), s')"
proof -
  have logger: "re_logger key_rest_env = Some []" by (simp add: key_rest_env_def)
  have auth: "AuthInterceptor False True (re_initialPassword key_rest_env) (rr_Authorization revoke_request) (rs_db keys_running) =
      (Next (zeroApiKey\<lparr>ak_IsAdmin := True, ak_ID := ''master'', ak_Key := ''master''\<rparr>), sample_db)"
    using revoke_master by (simp add: key_rest_env_def revoke_request_def keys_running_def)
  show ?thesis
    unfolding restServer_chain [OF key_rest_runtimeOK logger revoke_mux] auth
    by (simp add: LoggerInterceptor_def GetLoggerFromCtx_def handlerCtx_def rpcHandler_def keyService_def onService_def
        local_request_DeleteApiKey_def pathParam_def stringAt_def setKey_def Let_def key_rest_env_def sample_rest_env_def
        DeleteApiKey_def requireAdmin_def query_def GetApiKeys_def DeleteApiKeyRow_def stmt_no_fault withUUID_def saveConfig_def
        setAPIKeys_def keys_running_def sample_db_def sample_key_def)
qed


end
