(* ===== verification/Spec2Isabelle.thy ===== *)
theory Spec2Isabelle
  imports Protobuf Connect Cursor_Bridge Store Api_Key Glob Provider_Repo Access_Policy Error_Log Provider_Vendor Effort_Presets Access_Provider Usage Key_Service Push Warp Credential_Store Provider_OAuth Lifecycle Container Jobs Http_Front Gateway Transactions Startup Rest_Keys
begin

text \<open>
  A verification development for AoyoRouter (\<open>src\<close>), a gateway that offers several AI providers through one
  API: it hands out API keys with quotas and restrictions, authenticates and routes the requests of clients,
  accounts what they use, and embeds CLIProxyAPI, which talks to the providers.

  \<^bold>\<open>The program and the theories.\<close>  Each theory models one component; it opens with the source files it covers.

  \<^item> \<^bold>\<open>Foundation.\<close>  \<open>Prelude\<close>: Go strings, times, hexadecimal and big-endian encodings, and the locales shared by
    the components.  \<open>Glob\<close>: \<open>path.Match\<close>.  \<open>Float64\<close>: rounding of \<open>float64\<close>.  \<open>Store\<close>: the models of
    \<open>src/internal/models\<close>, errors, JSON values, and the database: one list of rows per table, statements that
    fail when the script \<open>db_faults\<close> says so.  \<open>Transactions\<close>: \<open>WithinTransaction\<close> of \<open>postgres.go\<close>.

  \<^item> \<^bold>\<open>Cursor bridge\<close> (\<open>src/pkg/cursor\<close>).  \<open>Protobuf\<close> (\<open>proto.go\<close>): the hand-written codec on 64-bit words.
    \<open>Connect\<close> (\<open>body.go\<close>): the chat request and both frame readers.  \<open>Cursor_Bridge\<close> (\<open>server.go\<close>, \<open>checksum.go\<close>,
    \<open>config.go\<close>, \<open>login.go\<close>): handlers, headers, the table of proxies, the thinking tags, the login.

  \<^item> \<^bold>\<open>Keys and access.\<close>  \<open>Api_Key\<close>: the key repository, login, quota periods, the reset job.  \<open>Access_Policy\<close> and
    \<open>Access_Provider\<close> (\<open>src/internal/app/cliproxyapi\<close>, \<open>middlewares/auth.go\<close>): restrictions, the selector, both
    authentication paths, the model list.  \<open>Effort_Presets\<close>: model variants.  \<open>Usage\<close>: reports, the two bounded
    queues and their consumers as an interleaving step relation, the usage table.  \<open>Key_Service\<close>: the handlers.

  \<^item> \<^bold>\<open>Providers.\<close>  \<open>Provider_Repo\<close>: the table.  \<open>Provider_Vendor\<close> and \<open>Provider_Quota\<close>
    (\<open>src/internal/models/providers\<close>): how each vendor enters the configuration and reports its quota.
    \<open>Credential_Store\<close>: the credentials CLIProxyAPI reads and writes.  \<open>Warp\<close>: the pool of proxies and the closer.
    \<open>Provider_Service\<close> and \<open>Provider_OAuth\<close> (\<open>src/internal/driver/server\<close>): all handlers on database,
    configuration objects, pool, bridge and cache.

  \<^item> \<^bold>\<open>Notifications.\<close>  \<open>Push_Repo\<close>: the four tables.  \<open>Push\<close>: notifier, quota watcher, handlers.

  \<^item> \<^bold>\<open>Process.\<close>  \<open>Container\<close>: the lazily built dependencies.  \<open>Lifecycle\<close>: building, running, restarting and closing
    the embedded service, interleaved.  \<open>Jobs\<close>: the periodic jobs.  \<open>Startup\<close>: initialisation and shutdown.
    \<open>Error_Log\<close>: the viewer of error logs.

  \<^item> \<^bold>\<open>HTTP.\<close>  \<open>Http_Front\<close>: paths and CORS.  \<open>Gateway\<close>: routes and decoders of the REST interface and the chain of
    middlewares.  \<open>Rest_Keys\<close>: the key handlers behind it.  This theory: the database under all repositories.

  \<^bold>\<open>How the code is read.\<close>  A struct is a record whose fields keep their names behind a prefix, a method is a
  function with the name of the source; methods of repositories that share their name with a handler end in
  \<open>Row\<close>.  Errors are values of \<open>err + 'a\<close>, a panic is \<open>None\<close> (or its own constructor), state is passed
  explicitly.  Where goroutines share state - usage queues, the lifecycle of CLIProxyAPI - each critical section
  is a step of an inductive relation and the properties hold for every interleaving.  Numbers keep their width
  where it matters: words in the codec, the range of \<open>BIGINT\<close> for quotas, rounding for shares.

  \<^bold>\<open>What is shown.\<close>  Round trips: chat requests, frames, credentials, configuration entries, paths of the interface.
  Equivalence: streamed and collected answers, both frame readers.  Refinement: the push tables implement a
  relation between endpoints and subjects, the entry queue an append-only log.  Invariants: conservation of
  charges, configured secrets equal those of undeleted keys, allocation of proxies, the lifecycle.  Safety:
  authentication and restrictions from the header to the credential, revocation of a key from the REST
  interface to CLIProxyAPI, guarded calls, nothing secret in lists and logs.  Errors: truncated streams, failed
  starts, transactions.  Termination of the container and of every loop that is not structural; liveness of event
  delivery; types of all columns; bounds of quotas.  Findings the proofs led to are lemmas next to them.

  \<^bold>\<open>Interfaces.\<close>  \<open>prefix_codec\<close> (a self-delimiting encoding; interpreted for varints, fields and frames),
  \<open>registry\<close> (the table of proxies), \<open>bounded_queue\<close> (channels), \<open>invariant_system\<close> (keys, configuration,
  lifecycle, database), \<open>simulation\<close> (push tables), \<open>route_table\<close> (the REST routes).

  \<^bold>\<open>Bounds.\<close>  All recursions are structural or proved to terminate; there is no fuel except the number of polls of
  a login (the code's own bound) and of pages a client fetches, over which the property quantifies.

  \<^bold>\<open>Arguments.\<close>  Code outside the repository is an argument: the gateway runtime and the multiplexer of
  \<open>net/http\<close>, the SDKs of CLIProxyAPI and WARP, JSON, gzip and hash functions, random bytes, clocks, the answers of
  remote services.  Where a property needs their documented behaviour, it is a hypothesis.

  \<^bold>\<open>Not modelled.\<close>  Generated message types and gRPC stubs, and the client variants of the generated gateway, which
  the program does not use; reading the environment (\<open>src/internal/config\<close>); listening, TLS and the transfer of
  bytes; the text of log lines other than request logs; the web page; the SQL of the migrations, beyond the
  constraints the statements meet.  There is nothing to prove about them without the libraries they only call.
\<close>

section \<open>The database as a whole\<close>

text \<open>
  The operations of the repositories share one database.  Each group works on its own tables: what the
  operations on subscriptions and events leave alone is named \<open>keyTables\<close>, what those on keys, providers
  and usage leave alone \<open>pushTables\<close>.
\<close>

definition keyTables :: "db \<Rightarrow> ApiKey list \<times> Provider list" where
  "keyTables d = (db_keys d, db_providers d)"

lemma SubscribeRow_keys [simp]: "keyTables (snd (SubscribeRow now newID subject sub d)) = keyTables d"
  by (simp add: keyTables_def SubscribeRow_def upsertSubscription_def insertTopic_def Let_def stmt_def split: list.split option.split sum.split prod.split)

lemma UnsubscribeRow_keys [simp]: "keyTables (snd (UnsubscribeRow subject endpoint d)) = keyTables d"
  by (simp add: keyTables_def UnsubscribeRow_def deleteTopics_def deleteUnused_def Let_def stmt_def split: list.split option.split sum.split prod.split)

lemma DeleteByEndpoint_keys [simp]: "keyTables (snd (DeleteByEndpoint endpoint d)) = keyTables d"
  by (simp add: keyTables_def DeleteByEndpoint_def  Let_def stmt_def split: list.split option.split sum.split prod.split)

lemma SubjectsByEndpoint_keys [simp]: "keyTables (snd (SubjectsByEndpoint collate endpoint d)) = keyTables d"
  by (simp add: keyTables_def SubjectsByEndpoint_def  Let_def stmt_def split: list.split option.split sum.split prod.split)

lemma SubscribersOf_keys [simp]: "keyTables (snd (SubscribersOf subject d)) = keyTables d"
  by (simp add: keyTables_def SubscribersOf_def  Let_def stmt_def split: list.split option.split sum.split prod.split)

lemma SubscribedSubjects_keys [simp]: "keyTables (snd (SubscribedSubjects  d)) = keyTables d"
  by (simp add: keyTables_def SubscribedSubjects_def  Let_def stmt_def split: list.split option.split sum.split prod.split)

lemma AppendEvent_keys [simp]: "keyTables (snd (AppendEvent now ev d)) = keyTables d"
  by (simp add: keyTables_def AppendEvent_def  Let_def stmt_def split: list.split option.split sum.split prod.split)

lemma EventsForEndpoint_keys [simp]: "keyTables (snd (EventsForEndpoint endpoint afterID limit d)) = keyTables d"
  by (simp add: keyTables_def EventsForEndpoint_def  Let_def stmt_def split: list.split option.split sum.split prod.split)

lemma PruneEvents_keys [simp]: "keyTables (snd (PruneEvents t d)) = keyTables d"
  by (simp add: keyTables_def PruneEvents_def  Let_def stmt_def split: list.split option.split sum.split prod.split)

lemma SaveVapidKeys_keys [simp]: "keyTables (snd (SaveVapidKeys keys d)) = keyTables d"
  by (simp add: keyTables_def SaveVapidKeys_def GetVapidKeys_def Let_def stmt_def split: list.split option.split sum.split prod.split)

lemma snd_outcome [simp]: "snd (outcome f x) = snd x"
  by (simp add: outcome_def split: prod.split sum.split)

lemma pushExec_keys: "keyTables (snd (pushExec collate op d)) = keyTables d"
  by (cases op) simp_all

definition pushTables :: "db \<Rightarrow> PushSubscription list \<times> (string \<times> string) list \<times> NotificationEvent list \<times> int" where
  "pushTables d = (db_subs d, db_topics d, db_events d, db_nextEvent d)"

lemma pushWF_tables: "pushTables d' = pushTables d \<Longrightarrow> pushWF d' = pushWF d"
  by (simp add: pushTables_def pushWF_def)

lemma keyStep_other: "keyStep d d' \<Longrightarrow> pushTables d' = pushTables d \<and> db_providers d' = db_providers d"
  by (erule keyStepE)
    (auto simp: pushTables_def key_op_defs Let_def stmt_def withUUID_def split: list.splits option.splits sum.splits if_splits prod.splits)

text \<open>The operations on providers and the log of the usage.\<close>

inductive providerStep :: "db \<Rightarrow> db \<Rightarrow> bool" where
  create: "providerStep d (snd (CreateProviderRow now i name t c s u x f q d))"
| update: "providerStep d (snd (UpdateProviderRow now i name t c s u x f q b d))"
| credentials: "providerStep d (snd (UpdateProviderCredentials now i s o1 d))"
| proxy: "providerStep d (snd (UpdateProxyRow i x u c d))"
| delete: "providerStep d (snd (DeleteProviderRow i d))"
| get: "providerStep d (snd (GetProvider i d))"
| list: "providerStep d (snd (GetProviders d))"
| log: "providerStep d (snd (SaveUsageEntry entry d))"

lemmas provider_op_defs = CreateProviderRow_def UpdateProviderRow_def UpdateProviderCredentials_def UpdateProxyRow_def DeleteProviderRow_def
  GetProvider_def GetProviderById_def GetProviders_def SaveUsageEntry_def

lemma providerStep_other: "providerStep d d' \<Longrightarrow> pushTables d' = pushTables d \<and> db_keys d' = db_keys d"
  by (erule providerStep.cases)
    (simp_all add: pushTables_def provider_op_defs Let_def stmt_def withUUID_def split: list.split option.split sum.split prod.split)

lemma providerStep_ids: "providerStep d d' \<Longrightarrow> distinct (map pr_ID (db_providers d)) \<Longrightarrow> distinct (map pr_ID (db_providers d'))"
  by (erule providerStep.cases)
    (auto simp: provider_op_defs Let_def stmt_def withUUID_def distinct_map_filter map_updateWhere list_ex_iff
      split: list.split option.split sum.split prod.split)

text \<open>Any operation of any repository.\<close>

inductive dbStep :: "db \<Rightarrow> db \<Rightarrow> bool" where
  keys: "keyStep d d' \<Longrightarrow> dbStep d d'"
| providers: "providerStep d d' \<Longrightarrow> dbStep d d'"
| push: "dbStep d (snd (pushExec collate op d))"

definition databaseOK :: "db \<Rightarrow> bool" where
  "databaseOK d \<longleftrightarrow> keysWF d \<and> pushWF d \<and> distinct (map pr_ID (db_providers d))"

lemma dbStep_OK:
  assumes "dbStep d d'" "databaseOK d"
  shows "databaseOK d'"
  using assms
proof cases
  case keys
  have "keyTableOK d d'" using keys by (rule keyStep_OK)
  moreover have "pushWF d' = pushWF d" using keyStep_other [OF keys] by (intro pushWF_tables) simp
  ultimately show ?thesis using assms(2) keyStep_other [OF keys] by (simp add: databaseOK_def keyTableOK_def)
next
  case providers
  have "pushWF d' = pushWF d" using providerStep_other [OF providers] by (intro pushWF_tables) simp
  moreover have "keysWF d'" using providerStep_other [OF providers] assms(2) keysWF_same [of d' d] by (simp add: databaseOK_def)
  ultimately show ?thesis using assms(2) providerStep_ids [OF providers] by (simp add: databaseOK_def)
next
  case (push collate op)
  obtain r where "pushExec collate op d = (r, d')" using push by (metis prod.collapse)
  then have "pushWF d'" using pushExec_simulates assms(2) by (auto simp: databaseOK_def)
  moreover have "db_keys d' = db_keys d" "db_providers d' = db_providers d"
    using pushExec_keys [of collate op d] push by (simp_all add: keyTables_def)
  ultimately show ?thesis using assms(2) keysWF_same [of d' d] by (simp add: databaseOK_def)
qed

interpretation database: invariant_system dbStep databaseOK
  by standard (rule dbStep_OK)



end
